theory Spec2Isabelle
  imports Complex_Main "HOL-Library.Word" "HOL-Library.AList" "HOL-Library.Monad_Syntax"
    "HOL-Library.Log_Nat"
begin

section \<open>Schema: zones, phases, metrics, predicates, selectors, values, effects\<close>

text \<open>
  JavaScript numbers are modelled as mathematical integers (\<open>int\<close>): every number the
  engine computes with is an integer count, stat or index.  Where a computation can leave
  the range in which doubles are exact, in the analyzer, its sums and products are rounded
  as doubles are (\<open>roundDouble\<close>).  Optional fields (\<open>field?: T\<close>) are \<open>T option\<close>.
\<close>

datatype PlayerZone = LIB | HAND | BF | GY | EXILE

text \<open>\<open>Zone\<close> of the schema: the five player zones (\<open>Z\<close>) and \<open>STACK\<close>.\<close>

datatype Zone = Z PlayerZone | STACK

datatype Phase = UPKEEP | MAIN | COMBAT | END

datatype PlayerRef = SELF | OPP

text \<open>\<open>PlayerIndex = 0 | 1\<close>.\<close>

datatype PlayerIndex = P0 | P1

datatype Stat = ATK | HP

datatype InRef = Target | Self

datatype Metric =
    MConst int
  | CardStat Stat InRef
  | BoardCount PlayerRef "string option" "Zone option"
  | Life PlayerRef

datatype CmpOp = CGe | CGt | CLe | CLt | CEq | CNe

datatype NameMode = Exact | Prefix | Contains

datatype EventName = UnitDied | TokenCreated | SpellCast

datatype Since = TURN | GAME

datatype Predicate =
    PTrue
  | HasTag string "InRef option"
  | HasAttribute string string "InRef option"
  | HasName NameMode string "InRef option"
  | IsToken "InRef option"
  | WasSummonedThisTurn "InRef option"
  | HasCounter string int "InRef option"
  | ControllerIs PlayerRef "InRef option"
  | EventOccurred EventName "PlayerRef option" Since int
  | Cmp Metric CmpOp Metric
  | PAnd "Predicate list"
  | POr "Predicate list"
  | PNot Predicate

record Selector =
  sel_owner :: "PlayerRef option"
  sel_zone :: "Zone option"
  sel_max :: "int option"
  sel_filter :: "Predicate option"

datatype Duration = EOT | PERM

datatype Value = VConst int | Clamp int int Metric

record Choose =
  keep :: int
  moveRestTo :: Zone
  reveal :: bool

datatype Effect =
    DealDamage Selector Value
  | PreventDamage Selector Value Duration
  | Heal Selector Value
  | Draw PlayerRef Value
  | Mill PlayerRef Value
  | LookAtTop PlayerRef int "Choose option"
  | CreateToken PlayerRef int int "string list option" "(string \<times> string) list option"
  | AddCounter Selector string Value "int option"
  | RemoveCounter Selector string Value
  | Buff Selector "int option" "int option" Duration
  | Move Selector Zone
  | ChangeController Selector PlayerRef Duration
  | Transform Selector "int \<times> int" "Duration option"
  | CopyStats Selector Selector "int \<times> int" "int \<times> int" Duration
  | Conditional Predicate Effect "Effect option"
  | Case "(Predicate \<times> Effect) list" "Effect option"
  | ForEach Selector int Effect
  | Sequence "Effect list"
  | Repeat int Effect
  | NoOp

text \<open>Global termination guards of the schema.\<close>

definition MAX_REPEAT :: int where "MAX_REPEAT = 3"
definition MAX_FOREACH_TARGETS :: int where "MAX_FOREACH_TARGETS = 3"

datatype EventKind =
    OnCast | OnEnter | OnAttack | OnDamageDealt | OnDeath
  | OnTokenCreated | OnDraw | OnUpkeepStart | OnNameMatched

section \<open>Static analyzer: worst-case multiplicity\<close>

text \<open>\<open>x || d\<close> on numbers: \<open>0\<close> and \<open>undefined\<close> are falsy.\<close>

definition orElse :: "int option \<Rightarrow> int \<Rightarrow> int" where
  "orElse x d = (case x of None \<Rightarrow> d | Some v \<Rightarrow> if v = 0 then d else v)"

definition MAX_SAFE_INTEGER :: int where "MAX_SAFE_INTEGER = 9007199254740991"

text \<open>
  The analyzer adds and multiplies counts that can leave the range in which doubles are
  exact.  A JavaScript sum or product of two integer doubles is the exact result rounded to
  the nearest double, ties to the even significand of 53 bits: \<open>roundDouble\<close>, the identity up
  to \<open>2 ^ 53\<close> in magnitude.  Results of magnitude \<open>2 ^ 1024\<close> and more, which are \<open>Infinity\<close>
  in JavaScript, are outside the model.
\<close>

definition roundDouble :: "int \<Rightarrow> int" where
  "roundDouble x =
     (if \<bar>x\<bar> \<le> 2 ^ 53 then x
      else (let p = 2 ^ nat (bitlen \<bar>x\<bar> - 53);
                q = \<bar>x\<bar> div p;
                r = \<bar>x\<bar> mod p;
                q1 = (if p < 2 * r \<or> (2 * r = p \<and> odd q) then q + 1 else q)
            in sgn x * (q1 * p)))"

definition multiply :: "int \<Rightarrow> int \<Rightarrow> int" where
  "multiply a b = min MAX_SAFE_INTEGER (roundDouble (orElse (Some a) 1 * orElse (Some b) 1))"

text \<open>\<open>EmitCount = Partial<Record<EventKind, number>>\<close>, keys in insertion order.\<close>

type_synonym EmitCount = "(EventKind \<times> int) list"

text \<open>The closure \<open>add\<close>: \<open>emits[k] = (emits[k] || 0) + n\<close>.\<close>

definition add :: "EventKind \<Rightarrow> int \<Rightarrow> EmitCount \<Rightarrow> EmitCount" where
  "add k n emits = AList.update k (roundDouble (orElse (map_of emits k) 0 + n)) emits"

text \<open>
  The closure \<open>recur\<close> mutates the captured \<open>emits\<close> and \<open>spawns\<close>; the model passes
  the pair \<open>(emits, spawns)\<close> through.  The \<open>forEach\<close> loops over steps and branches are
  folds over the recursive calls, in the order of the source.
\<close>

primrec recur :: "Effect \<Rightarrow> int \<Rightarrow> EmitCount \<times> int \<Rightarrow> EmitCount \<times> int" where
  "recur (CreateToken who atk hp tags attrs) mult acc =
     (add OnEnter mult (add OnTokenCreated mult (fst acc)), roundDouble (snd acc + mult))"
| "recur (Move sel to) mult acc =
     (if to = Z BF then (add OnEnter mult (fst acc), roundDouble (snd acc + mult)) else acc)"
| "recur (Draw who n) mult acc = (add OnDraw mult (fst acc), snd acc)"
| "recur (DealDamage sel amount) mult acc = (add OnDamageDealt mult (fst acc), snd acc)"
| "recur (Sequence steps) mult acc = fold (\<lambda>f a. f a) (map (\<lambda>s. recur s mult) steps) acc"
| "recur (Conditional c th el) mult acc =
     (case map_option (\<lambda>e. recur e mult) el of
        None \<Rightarrow> recur th mult acc
      | Some f \<Rightarrow> f (recur th mult acc))"
| "recur (Case branches el) mult acc =
     (let acc1 = fold (\<lambda>b a. snd b a) (map (map_prod id (\<lambda>e. recur e mult)) branches) acc
      in case map_option (\<lambda>e. recur e mult) el of None \<Rightarrow> acc1 | Some f \<Rightarrow> f acc1)"
| "recur (ForEach among maxTargets body) mult acc =
     (let t = min maxTargets MAX_FOREACH_TARGETS in recur body (multiply mult t) acc)"
| "recur (Repeat n body) mult acc =
     (let t = min n MAX_REPEAT in recur body (multiply mult t) acc)"
| "recur (PreventDamage sel amount d) mult acc = acc"
| "recur (Heal sel amount) mult acc = acc"
| "recur (Mill who n) mult acc = acc"
| "recur (LookAtTop who n ch) mult acc = acc"
| "recur (AddCounter sel c n mx) mult acc = acc"
| "recur (RemoveCounter sel c n) mult acc = acc"
| "recur (Buff sel a h d) mult acc = acc"
| "recur (ChangeController sel nc d) mult acc = acc"
| "recur (Transform sel into d) mult acc = acc"
| "recur (CopyStats fr to ca ch d) mult acc = acc"
| "recur NoOp mult acc = acc"

definition effectMultiplicity :: "Effect \<Rightarrow> int \<Rightarrow> EmitCount \<times> int" where
  "effectMultiplicity e contextMult = recur e contextMult ([], 0)"

subsection \<open>Contributions of a subtree, for the statements about the analyzer\<close>

definition lk :: "EmitCount \<Rightarrow> EventKind \<Rightarrow> int" where
  "lk emits k = orElse (map_of emits k) 0"

definition spawnsOf :: "Effect \<Rightarrow> int \<Rightarrow> int" where
  "spawnsOf e m = snd (effectMultiplicity e m)"

definition emitsOf :: "Effect \<Rightarrow> int \<Rightarrow> EventKind \<Rightarrow> int" where
  "emitsOf e m k = lk (fst (effectMultiplicity e m)) k"

text \<open>The factor that \<open>multiply\<close> makes of a count: \<open>b || 1\<close>.\<close>

definition factor :: "int \<Rightarrow> int" where
  "factor t = orElse (Some t) 1"

text \<open>Every count that the analyzer reads in the subtree, capped, is at least 0.\<close>

primrec countsOK :: "Effect \<Rightarrow> bool" where
  "countsOK (CreateToken who atk hp tags attrs) = True"
| "countsOK (Move sel to) = True"
| "countsOK (Draw who n) = True"
| "countsOK (DealDamage sel amount) = True"
| "countsOK (Sequence steps) = list_all (\<lambda>b. b) (map (\<lambda>s. countsOK s) steps)"
| "countsOK (Conditional c th el) =
     (countsOK th \<and> (case map_option (\<lambda>e. countsOK e) el of None \<Rightarrow> True | Some b \<Rightarrow> b))"
| "countsOK (Case branches el) =
     (list_all (\<lambda>b. snd b) (map (map_prod id (\<lambda>e. countsOK e)) branches) \<and>
      (case map_option (\<lambda>e. countsOK e) el of None \<Rightarrow> True | Some b \<Rightarrow> b))"
| "countsOK (ForEach among maxTargets body) =
     (0 \<le> min maxTargets MAX_FOREACH_TARGETS \<and> countsOK body)"
| "countsOK (Repeat n body) = (0 \<le> min n MAX_REPEAT \<and> countsOK body)"
| "countsOK (PreventDamage sel amount d) = True"
| "countsOK (Heal sel amount) = True"
| "countsOK (Mill who n) = True"
| "countsOK (LookAtTop who n ch) = True"
| "countsOK (AddCounter sel c n mx) = True"
| "countsOK (RemoveCounter sel c n) = True"
| "countsOK (Buff sel a h d) = True"
| "countsOK (ChangeController sel nc d) = True"
| "countsOK (Transform sel into d) = True"
| "countsOK (CopyStats fr to ca ch d) = True"
| "countsOK NoOp = True"

text \<open>
  No multiplier of the subtree, walked with the context multiplier \<open>m\<close>, exceeds
  \<open>MAX_SAFE_INTEGER\<close>: \<open>multiply\<close> saturates nowhere.
\<close>

primrec unsaturated :: "Effect \<Rightarrow> int \<Rightarrow> bool" where
  "unsaturated (CreateToken who atk hp tags attrs) m = True"
| "unsaturated (Move sel to) m = True"
| "unsaturated (Draw who n) m = True"
| "unsaturated (DealDamage sel amount) m = True"
| "unsaturated (Sequence steps) m = list_all (\<lambda>b. b) (map (\<lambda>s. unsaturated s m) steps)"
| "unsaturated (Conditional c th el) m =
     (unsaturated th m \<and> (case map_option (\<lambda>e. unsaturated e m) el of None \<Rightarrow> True | Some b \<Rightarrow> b))"
| "unsaturated (Case branches el) m =
     (list_all (\<lambda>b. snd b) (map (map_prod id (\<lambda>e. unsaturated e m)) branches) \<and>
      (case map_option (\<lambda>e. unsaturated e m) el of None \<Rightarrow> True | Some b \<Rightarrow> b))"
| "unsaturated (ForEach among maxTargets body) m =
     (let f = factor (min maxTargets MAX_FOREACH_TARGETS)
      in m * f \<le> MAX_SAFE_INTEGER \<and> unsaturated body (m * f))"
| "unsaturated (Repeat n body) m =
     (let f = factor (min n MAX_REPEAT)
      in m * f \<le> MAX_SAFE_INTEGER \<and> unsaturated body (m * f))"
| "unsaturated (PreventDamage sel amount d) m = True"
| "unsaturated (Heal sel amount) m = True"
| "unsaturated (Mill who n) m = True"
| "unsaturated (LookAtTop who n ch) m = True"
| "unsaturated (AddCounter sel c n mx) m = True"
| "unsaturated (RemoveCounter sel c n) m = True"
| "unsaturated (Buff sel a h d) m = True"
| "unsaturated (ChangeController sel nc d) m = True"
| "unsaturated (Transform sel into d) m = True"
| "unsaturated (CopyStats fr to ca ch d) m = True"
| "unsaturated NoOp m = True"

text \<open>The counts that \<open>effectMultiplicity\<close> returns are all within \<open>MAX_SAFE_INTEGER\<close>.\<close>

definition withinSafe :: "Effect \<Rightarrow> int \<Rightarrow> bool" where
  "withinSafe e m =
     (snd (effectMultiplicity e m) \<le> MAX_SAFE_INTEGER \<and>
      list_all (\<lambda>kv. snd kv \<le> MAX_SAFE_INTEGER) (fst (effectMultiplicity e m)))"

subsection \<open>Notions for the proofs about the analyzer\<close>

text \<open>
  The components of an accumulator \<open>(emits, spawns)\<close>: \<open>None\<close> is the spawn count,
  \<open>Some k\<close> the count of the event kind \<open>k\<close>.
\<close>

definition meas :: "EmitCount \<times> int \<Rightarrow> EventKind option \<Rightarrow> int" where
  "meas acc c = (case c of None \<Rightarrow> snd acc | Some k \<Rightarrow> lk (fst acc) k)"

text \<open>Adding \<open>n\<close> to one component, as \<open>spawns += n\<close> and \<open>add(k, n)\<close> do.\<close>

definition bump :: "EventKind option \<Rightarrow> int \<Rightarrow> EmitCount \<times> int \<Rightarrow> EmitCount \<times> int" where
  "bump c n acc = (case c of None \<Rightarrow> (fst acc, roundDouble (snd acc + n))
                   | Some k \<Rightarrow> (add k n (fst acc), snd acc))"

text \<open>
  What a subtree adds to each component when no sum is rounded: the multiplier of every
  leaf that counts for the component, summed in exact integers.
\<close>

primrec cnt :: "Effect \<Rightarrow> int \<Rightarrow> EventKind option \<Rightarrow> int" where
  "cnt (CreateToken who atk hp tags attrs) m c =
     (if c = None \<or> c = Some OnTokenCreated \<or> c = Some OnEnter then m else 0)"
| "cnt (Move sel to) m c = (if to = Z BF \<and> (c = None \<or> c = Some OnEnter) then m else 0)"
| "cnt (Draw who n) m c = (if c = Some OnDraw then m else 0)"
| "cnt (DealDamage sel amount) m c = (if c = Some OnDamageDealt then m else 0)"
| "cnt (Sequence steps) m c = sum_list (map (\<lambda>s. cnt s m c) steps)"
| "cnt (Conditional cond th el) m c =
     cnt th m c + (case map_option (\<lambda>e. cnt e m c) el of None \<Rightarrow> 0 | Some x \<Rightarrow> x)"
| "cnt (Case branches el) m c =
     sum_list (map snd (map (map_prod id (\<lambda>e. cnt e m c)) branches))
     + (case map_option (\<lambda>e. cnt e m c) el of None \<Rightarrow> 0 | Some x \<Rightarrow> x)"
| "cnt (ForEach among maxTargets body) m c =
     cnt body (multiply m (min maxTargets MAX_FOREACH_TARGETS)) c"
| "cnt (Repeat n body) m c = cnt body (multiply m (min n MAX_REPEAT)) c"
| "cnt (PreventDamage sel amount d) m c = 0"
| "cnt (Heal sel amount) m c = 0"
| "cnt (Mill who n) m c = 0"
| "cnt (LookAtTop who n ch) m c = 0"
| "cnt (AddCounter sel ctr n mx) m c = 0"
| "cnt (RemoveCounter sel ctr n) m c = 0"
| "cnt (Buff sel a h d) m c = 0"
| "cnt (ChangeController sel nc d) m c = 0"
| "cnt (Transform sel into d) m c = 0"
| "cnt (CopyStats fr to ca ch d) m c = 0"
| "cnt NoOp m c = 0"

text \<open>An accumulator of counts: every component is at least 0 and is a double.\<close>

definition rep0 :: "EmitCount \<times> int \<Rightarrow> bool" where
  "rep0 acc = (\<forall>c. 0 \<le> meas acc c \<and> roundDouble (meas acc c) = meas acc c)"

definition leA :: "EmitCount \<times> int \<Rightarrow> EmitCount \<times> int \<Rightarrow> bool" where
  "leA acc acc' = (\<forall>c. meas acc c \<le> meas acc' c)"

definition small :: "EmitCount \<times> int \<Rightarrow> bool" where
  "small acc = (\<forall>c. meas acc c \<le> MAX_SAFE_INTEGER)"

text \<open>
  A step on accumulators that keeps them accumulators of counts, lowers no component, and
  is monotone.
\<close>

definition good :: "(EmitCount \<times> int \<Rightarrow> EmitCount \<times> int) \<Rightarrow> bool" where
  "good f = (\<forall>acc. rep0 acc \<longrightarrow>
               rep0 (f acc) \<and> leA acc (f acc) \<and>
               (\<forall>acc'. rep0 acc' \<and> leA acc acc' \<longrightarrow> leA (f acc) (f acc')))"

text \<open>
  A step that adds exactly \<open>c\<close>, component by component, whenever its result, or the exact
  sum, is within \<open>MAX_SAFE_INTEGER\<close>.
\<close>

definition tracks ::
  "(EmitCount \<times> int \<Rightarrow> EmitCount \<times> int) \<Rightarrow> (EventKind option \<Rightarrow> int) \<Rightarrow> bool" where
  "tracks f c = ((\<forall>x. 0 \<le> c x) \<and>
                 (\<forall>acc. rep0 acc \<longrightarrow>
                    (small (f acc) \<or> (\<forall>x. meas acc x + c x \<le> MAX_SAFE_INTEGER)) \<longrightarrow>
                    (\<forall>x. meas (f acc) x = meas acc x + c x)))"

definition fine ::
  "(EmitCount \<times> int \<Rightarrow> EmitCount \<times> int) \<Rightarrow> (EventKind option \<Rightarrow> int) \<Rightarrow> bool" where
  "fine f c = (good f \<and> tracks f c)"

section \<open>Cards, rules and the runtime state\<close>

record Limit =
  l_per :: Since
  l_times :: int

text \<open>\<open>Trigger\<close>, \<open>ReplacementEffect\<close> and \<open>ContinuousEffect\<close> of the schema.\<close>

record Trigger =
  t_when :: EventKind
  t_condition :: "Predicate option"
  t_effect :: Effect
  t_limit :: Limit

datatype ReplWhen = WouldDie | WouldBeDamaged | WouldDraw

record ReplacementEffect =
  r_when :: ReplWhen
  r_subject :: Selector
  r_instead :: Effect
  r_limit :: Limit

datatype ContinuousEffect =
    StaticBuff Selector "int option" "int option"
  | CostModifier Predicate int "int option"

datatype CardType = Unit | Spell | Artifact | Enchantment

text \<open>
  The card template.  \<open>cost.generic\<close>, \<open>cost.colors\<close> and the four parts of \<open>textIR\<close> are
  flattened into fields; \<open>stats\<close> is the pair \<open>(atk, hp)\<close>.  The fields the engine never
  reads (\<open>canonicalName\<close>, \<open>budgets\<close>, \<open>rarity\<close>, \<open>version\<close>) are left out.
\<close>

record Card =
  name :: string
  cost_generic :: int
  cost_colors :: "string list option"
  ctype :: CardType
  stats :: "(int \<times> int) option"
  card_keywords :: "string list option"
  tags :: "string list"
  attributes :: "(string \<times> string) list option"
  textIR_cast :: "Effect option"
  textIR_triggers :: "Trigger list option"
  textIR_continuous :: "ContinuousEffect list option"
  textIR_replacements :: "ReplacementEffect list option"

text \<open>
  \<open>RuntimeCard\<close>.  The optional booleans \<open>isToken\<close> and \<open>tapped\<close> are only ever tested
  for truthiness, so \<open>undefined\<close> is \<open>False\<close>.
\<close>

record RuntimeCard =
  rc_id :: string
  owner :: PlayerIndex
  cardT :: Card
  zone :: PlayerZone
  damage :: int
  turnEntered :: "int option"
  isToken :: bool
  tapped :: bool
  counters :: "(string \<times> int) list option"
  bonusAtkPerm :: "int option"
  bonusHpPerm :: "int option"
  bonusAtkEOT :: "int option"
  bonusHpEOT :: "int option"
  transformPerm :: "(int \<times> int) option"
  transformEOT :: "(int \<times> int) option"

record PlayerState =
  idx :: PlayerIndex
  pname :: string
  life :: int
  ap :: int
  colorPool :: "(string \<times> int) list option"
  library :: "string list"
  hand :: "string list"
  battlefield :: "string list"
  graveyard :: "string list"
  exile :: "string list"
  mulligansTaken :: int

datatype MulliganRules = FreeOnce | London int | DrawOneLess

text \<open>\<open>TokenRules.tokensLeaveTo : 'GY' | 'EXILE'\<close>.\<close>

datatype LeaveZone = LeaveGY | LeaveEXILE

datatype AttackerTargets = PlayerOrUnit | PlayerOnly | UnitOnly

datatype Payment = GenericOnly | GenericAndColors

datatype ColorPolicy = DeckOnly | InGamePayment

text \<open>\<open>GameRules\<close>, its nested groups flattened (\<open>turns.phases\<close> is \<open>phases\<close>, and so on).\<close>

record GameRules =
  phases :: "Phase list"
  drawOnTurnStart :: bool
  startingLife :: int
  startingHand :: int
  maxHandSize :: "int option"
  minDeckSize :: int
  mulligan :: MulliganRules
  illegalTargetFizzle :: bool
  lethalAt :: int
  damagePersistsTurn :: bool
  tokensLeaveTo :: LeaveZone
  canBlock :: bool
  attackerTargets :: AttackerTargets
  summoningSickness :: bool
  lifeZeroLoss :: bool
  drawFromEmptyLoss :: bool
  perTurnGainBase :: int
  carryOver :: bool
  maxPool :: "int option"
  payment :: Payment
  colors_policy :: ColorPolicy
  colors_symbols :: "string list"

definition CORE_RULES :: GameRules where
  "CORE_RULES = \<lparr>
     phases = [UPKEEP, MAIN, COMBAT, END],
     drawOnTurnStart = True,
     startingLife = 20,
     startingHand = 5,
     maxHandSize = Some 10,
     minDeckSize = 40,
     mulligan = London 1,
     illegalTargetFizzle = True,
     lethalAt = 0,
     damagePersistsTurn = True,
     tokensLeaveTo = LeaveGY,
     canBlock = False,
     attackerTargets = PlayerOrUnit,
     summoningSickness = True,
     lifeZeroLoss = True,
     drawFromEmptyLoss = True,
     perTurnGainBase = 1,
     carryOver = False,
     maxPool = None,
     payment = GenericOnly,
     colors_policy = DeckOnly,
     colors_symbols = [''W'', ''U'', ''B'', ''R'', ''G''] \<rparr>"

record StackItem =
  st_controller :: PlayerIndex
  st_sourceId :: string
  st_effect :: Effect
  st_targets :: "string list option"

text \<open>
  \<open>GameState\<close>.  The JavaScript \<open>Map\<close>s are association lists in insertion order
  (\<open>map_of\<close> is \<open>get\<close>, \<open>AList.update\<close> is \<open>set\<close>).  The event counters' keys
  \<open>`${event}:${pid}`\<close> are the pairs \<open>(event, pid)\<close> and the usage counters' keys
  \<open>`${cardId}#${index}`\<close> are the pairs \<open>(cardId, index)\<close>.  \<open>turn\<close> is flattened into
  three fields.  \<open>nextId\<close> is the module-level counter behind \<open>makeId\<close>, carried with the state.
\<close>

record GameState =
  rules :: GameRules
  players :: "PlayerState \<times> PlayerState"
  cards :: "(string \<times> RuntimeCard) list"
  turn_number :: int
  turn_active :: PlayerIndex
  turn_phase :: Phase
  stack :: "StackItem list"
  winner :: "PlayerIndex option"
  preventEOT :: "(string \<times> int) list"
  preventPERM :: "(string \<times> int) list"
  controlRevertEOT :: "(string \<times> PlayerIndex) list"
  eventsTurn :: "((EventName \<times> PlayerIndex) \<times> int) list"
  eventsGame :: "((EventName \<times> PlayerIndex) \<times> int) list"
  triggerUseTurn :: "((string \<times> nat) \<times> int) list"
  triggerUseGame :: "((string \<times> nat) \<times> int) list"
  replUseTurn :: "((string \<times> nat) \<times> int) list"
  replUseGame :: "((string \<times> nat) \<times> int) list"
  log :: "string list"
  nextId :: nat

record Ctx =
  subjectId :: "string option"
  subjectPlayer :: "PlayerIndex option"
  sourceId :: "string option"
  forPlayer :: "PlayerIndex option"

text \<open>
  The primitive operations of the planning layer.  Those whose \<open>kind\<close> is also the kind of
  an effect carry the prefix \<open>Op\<close>.
\<close>

datatype Operation =
    Log string
  | FireTriggers EventKind Ctx
  | ResolveEffectOp PlayerIndex "string option" Effect "string list option"
  | DealDamageMany "string list" int "string option"
  | PreventDamageMany "string list" int Duration
  | HealMany "string list" int
  | OpDraw PlayerIndex int
  | OpMill PlayerIndex int
  | OpLookAtTop PlayerIndex int "(int \<times> PlayerZone \<times> bool) option"
  | OpCreateToken PlayerIndex int int "string list option" "(string \<times> string) list option"
  | AddCounterMany "string list" string int "int option"
  | RemoveCounterMany "string list" string int
  | BuffMany "string list" int int Duration
  | MoveMany "string list" PlayerZone
  | ChangeControllerMany "string list" PlayerIndex Duration
  | TransformMany "string list" "int \<times> int" "Duration option"
  | CopyStatsToMany "string list" int int Duration
  | SetPhase Phase
  | TurnStart
  | EndTurn
  | IncTriggerUsage "string \<times> nat" Since
  | IncReplacementUsage "string \<times> nat" Since
  | IncEvent EventName PlayerIndex
  | SpendAP PlayerIndex int
  | SpendColors PlayerIndex "(string \<times> int) list"
  | SetTurnEntered string int
  | SetTapped string bool
  | DamagePlayer PlayerIndex int "string option"
  | CheckPlayers

section \<open>Engine utilities\<close>

text \<open>
  A call that throws (a property read on \<open>undefined\<close>) or whose recursion exceeds the
  depth bound has no result: every engine function returns an \<open>option\<close>, \<open>None\<close> being
  the exception.  The depth bound is the first argument of the recursive functions.
\<close>

primrec foldM :: "('a \<Rightarrow> 'b \<Rightarrow> 'b option) \<Rightarrow> 'a list \<Rightarrow> 'b \<Rightarrow> 'b option" where
  "foldM f [] b = Some b"
| "foldM f (x # xs) b = (case f x b of None \<Rightarrow> None | Some b' \<Rightarrow> foldM f xs b')"

text \<open>\<open>Array.prototype.filter\<close>, \<open>find\<close>, \<open>every\<close> and \<open>some\<close> over a callback that may throw.\<close>

primrec filterM :: "('a \<Rightarrow> bool option) \<Rightarrow> 'a list \<Rightarrow> 'a list option" where
  "filterM f [] = Some []"
| "filterM f (x # xs) =
     (case f x of None \<Rightarrow> None
      | Some b \<Rightarrow> (case filterM f xs of None \<Rightarrow> None
                   | Some ys \<Rightarrow> Some (if b then x # ys else ys)))"

primrec findM :: "('a \<Rightarrow> bool option) \<Rightarrow> 'a list \<Rightarrow> 'a option option" where
  "findM f [] = Some None"
| "findM f (x # xs) =
     (case f x of None \<Rightarrow> None | Some b \<Rightarrow> if b then Some (Some x) else findM f xs)"

primrec every :: "bool option list \<Rightarrow> bool option" where
  "every [] = Some True"
| "every (x # xs) = (case x of None \<Rightarrow> None | Some b \<Rightarrow> if b then every xs else Some False)"

primrec some :: "bool option list \<Rightarrow> bool option" where
  "some [] = Some False"
| "some (x # xs) = (case x of None \<Rightarrow> None | Some b \<Rightarrow> if b then Some True else some xs)"

text \<open>\<open>xs.slice(0, k)\<close>: a negative \<open>k\<close> counts from the end.\<close>

definition slice0 :: "'a list \<Rightarrow> int \<Rightarrow> 'a list" where
  "slice0 xs k = (if k < 0 then take (length xs - nat (- k)) xs else take (nat k) xs)"

text \<open>\<open>xs.indexOf(x)\<close> followed by \<open>splice(i, 1)\<close> when found: the first occurrence goes.\<close>

definition removeFirst :: "'a \<Rightarrow> 'a list \<Rightarrow> 'a list" where
  "removeFirst x xs = remove1 x xs"

text \<open>Decimal rendering of numbers in template strings.\<close>

fun showNat :: "nat \<Rightarrow> string" where
  "showNat n = (if n < 10 then [char_of (48 + n)] else showNat (n div 10) @ [char_of (48 + n mod 10)])"

definition showInt :: "int \<Rightarrow> string" where
  "showInt i = (if i < 0 then CHR ''-'' # showNat (nat (- i)) else showNat (nat i))"

definition startsWith :: "string \<Rightarrow> string \<Rightarrow> bool" where
  "startsWith s t = (take (length t) s = t)"

definition includesStr :: "string \<Rightarrow> string \<Rightarrow> bool" where
  "includesStr s t = list_ex (\<lambda>i. take (length t) (drop i s) = t) [0..<Suc (length s)]"

definition pushLog :: "GameState \<Rightarrow> string \<Rightarrow> GameState" where
  "pushLog s msg = s\<lparr>log := log s @ [msg]\<rparr>"

text \<open>\<open>controller === 0 ? 1 : 0\<close>.\<close>

definition opp :: "PlayerIndex \<Rightarrow> PlayerIndex" where
  "opp pid = (case pid of P0 \<Rightarrow> P1 | P1 \<Rightarrow> P0)"

definition refPlayer :: "PlayerIndex \<Rightarrow> PlayerRef \<Rightarrow> PlayerIndex" where
  "refPlayer controller who = (if who = SELF then controller else opp controller)"

text \<open>\<open>s.players[pid]\<close>, and the write-back of a mutated player.\<close>

definition player :: "GameState \<Rightarrow> PlayerIndex \<Rightarrow> PlayerState" where
  "player s pid = (case pid of P0 \<Rightarrow> fst (players s) | P1 \<Rightarrow> snd (players s))"

definition setPlayer :: "PlayerIndex \<Rightarrow> PlayerState \<Rightarrow> GameState \<Rightarrow> GameState" where
  "setPlayer pid p s =
     (case pid of P0 \<Rightarrow> s\<lparr>players := (p, snd (players s))\<rparr>
                | P1 \<Rightarrow> s\<lparr>players := (fst (players s), p)\<rparr>)"

definition getZoneArray :: "PlayerState \<Rightarrow> PlayerZone \<Rightarrow> string list" where
  "getZoneArray p z =
     (case z of LIB \<Rightarrow> library p | HAND \<Rightarrow> hand p | BF \<Rightarrow> battlefield p
              | GY \<Rightarrow> graveyard p | EXILE \<Rightarrow> exile p)"

definition setZoneArray :: "PlayerZone \<Rightarrow> string list \<Rightarrow> PlayerState \<Rightarrow> PlayerState" where
  "setZoneArray z xs p =
     (case z of LIB \<Rightarrow> p\<lparr>library := xs\<rparr> | HAND \<Rightarrow> p\<lparr>hand := xs\<rparr>
              | BF \<Rightarrow> p\<lparr>battlefield := xs\<rparr> | GY \<Rightarrow> p\<lparr>graveyard := xs\<rparr>
              | EXILE \<Rightarrow> p\<lparr>exile := xs\<rparr>)"

definition PLAYER_ZONES :: "PlayerZone list" where
  "PLAYER_ZONES = [LIB, HAND, BF, GY, EXILE]"

text \<open>\<open>s.cards.get(id)\<close> and the in-place mutation of a registered card.\<close>

definition getCard :: "GameState \<Rightarrow> string \<Rightarrow> RuntimeCard option" where
  "getCard s i = map_of (cards s) i"

definition updCard :: "string \<Rightarrow> (RuntimeCard \<Rightarrow> RuntimeCard) \<Rightarrow> GameState \<Rightarrow> GameState" where
  "updCard i f s =
     (case map_of (cards s) i of None \<Rightarrow> s
      | Some rc \<Rightarrow> s\<lparr>cards := AList.update i (f rc) (cards s)\<rparr>)"

text \<open>\<open>id ? s.cards.get(id) : undefined\<close>: \<open>undefined\<close> and the empty string are falsy.\<close>

definition truthyId :: "string option \<Rightarrow> string option" where
  "truthyId i = (case i of None \<Rightarrow> None | Some x \<Rightarrow> if x = [] then None else Some x)"

definition getCardIf :: "GameState \<Rightarrow> string option \<Rightarrow> RuntimeCard option" where
  "getCardIf s i = (case truthyId i of None \<Rightarrow> None | Some x \<Rightarrow> getCard s x)"

definition hasKeyword :: "RuntimeCard \<Rightarrow> string \<Rightarrow> bool" where
  "hasKeyword rc k = (case card_keywords (cardT rc) of None \<Rightarrow> False | Some ks \<Rightarrow> k \<in> set ks)"

text \<open>\<open>m.get(k) || 0\<close> and \<open>x ?? 0\<close>.\<close>

definition getOr0 :: "('k \<times> int) list \<Rightarrow> 'k \<Rightarrow> int" where
  "getOr0 m k = orElse (map_of m k) 0"

definition nullish0 :: "int option \<Rightarrow> int" where
  "nullish0 x = (case x of None \<Rightarrow> 0 | Some v \<Rightarrow> v)"

section \<open>Evaluator\<close>

text \<open>
  \<open>evalMetric\<close>, \<open>matchesPredicate\<close>, \<open>isLegalTarget\<close> and \<open>getStaticBuffBonus\<close> call
  \<open>getEffectiveBaseStats\<close>, which calls \<open>getStaticBuffBonus\<close> again on the selectors of the
  continuous effects on the battlefield.  That recursion is not structural, so the four
  take the recursive callee \<open>G\<close> (\<open>getEffectiveBaseStats\<close> one level deeper) as a
  parameter, and \<open>getEffectiveBaseStats\<close> recurses on the depth bound.
\<close>

definition effStat :: "RuntimeCard \<Rightarrow> int \<times> int \<Rightarrow> int \<times> int" where
  "effStat rc st = (fst st + orElse (bonusAtkPerm rc) 0 + orElse (bonusAtkEOT rc) 0,
                    snd st + orElse (bonusHpPerm rc) 0 + orElse (bonusHpEOT rc) 0)"

definition evalMetric ::
  "(RuntimeCard \<Rightarrow> (int \<times> int) option) \<Rightarrow> GameState \<Rightarrow> PlayerIndex \<Rightarrow> string option \<Rightarrow>
   string option \<Rightarrow> Metric \<Rightarrow> int option" where
  "evalMetric G s controller selfId targetId m =
     (case m of
        MConst n \<Rightarrow> Some n
      | Life who \<Rightarrow> Some (life (player s (refPlayer controller who)))
      | BoardCount who tag z \<Rightarrow>
          (let p = player s (refPlayer controller who) in
           case (case z of None \<Rightarrow> Some (battlefield p)
                         | Some STACK \<Rightarrow> None
                         | Some (Z pz) \<Rightarrow> Some (getZoneArray p pz)) of
             None \<Rightarrow> Some 0
           | Some ids \<Rightarrow>
               (case tag of
                  None \<Rightarrow> Some (int (length ids))
                | Some t \<Rightarrow>
                    if t = [] then Some (int (length ids))
                    else Some (int (length (filter (\<lambda>rc. t \<in> set (tags (cardT rc)))
                                              (List.map_filter (getCard s) ids))))))
      | CardStat stat inr \<Rightarrow>
          (case truthyId (if inr = Self then selfId else targetId) of
             None \<Rightarrow> Some 0
           | Some i \<Rightarrow>
               (case getCard s i of
                  None \<Rightarrow> Some 0
                | Some rc \<Rightarrow>
                    if stats (cardT rc) = None then Some 0
                    else (case G rc of
                            None \<Rightarrow> None
                          | Some st \<Rightarrow>
                              Some (if stat = ATK then fst (effStat rc st)
                                    else max 0 (snd (effStat rc st) - damage rc))))))"

definition evalValue ::
  "(RuntimeCard \<Rightarrow> (int \<times> int) option) \<Rightarrow> GameState \<Rightarrow> PlayerIndex \<Rightarrow> string option \<Rightarrow>
   string option \<Rightarrow> Value \<Rightarrow> int option" where
  "evalValue G s controller selfId targetId v =
     (case v of
        VConst n \<Rightarrow> Some n
      | Clamp mn mx m \<Rightarrow>
          (case evalMetric G s controller selfId targetId m of
             None \<Rightarrow> None
           | Some raw \<Rightarrow> Some (min mx (max mn raw))))"

text \<open>The card a leaf predicate inspects: \<open>pred.in === 'Self' ? selfId : targetId\<close>.\<close>

definition subject :: "GameState \<Rightarrow> InRef option \<Rightarrow> string option \<Rightarrow> string \<Rightarrow> RuntimeCard option" where
  "subject s inr selfId targetId = getCardIf s (if inr = Some Self then selfId else Some targetId)"

definition cmpOp :: "CmpOp \<Rightarrow> int \<Rightarrow> int \<Rightarrow> bool" where
  "cmpOp c l r = (case c of CGe \<Rightarrow> l \<ge> r | CGt \<Rightarrow> l > r | CLe \<Rightarrow> l \<le> r | CLt \<Rightarrow> l < r
                          | CEq \<Rightarrow> l = r | CNe \<Rightarrow> l \<noteq> r)"

primrec matchesPredicate ::
  "(RuntimeCard \<Rightarrow> (int \<times> int) option) \<Rightarrow> GameState \<Rightarrow> PlayerIndex \<Rightarrow> string option \<Rightarrow>
   string \<Rightarrow> Predicate \<Rightarrow> bool option" where
  "matchesPredicate G s controller selfId targetId PTrue = Some True"
| "matchesPredicate G s controller selfId targetId (HasTag tag inr) =
     Some (case subject s inr selfId targetId of None \<Rightarrow> False
           | Some rc \<Rightarrow> tag \<in> set (tags (cardT rc)))"
| "matchesPredicate G s controller selfId targetId (HasAttribute attr v inr) =
     Some (case subject s inr selfId targetId of None \<Rightarrow> False
           | Some rc \<Rightarrow> (case attributes (cardT rc) of None \<Rightarrow> False
                        | Some as \<Rightarrow> map_of as attr = Some v))"
| "matchesPredicate G s controller selfId targetId (HasName mode txt inr) =
     Some (case subject s inr selfId targetId of None \<Rightarrow> False
           | Some rc \<Rightarrow> (case mode of Exact \<Rightarrow> name (cardT rc) = txt
                                    | Prefix \<Rightarrow> startsWith (name (cardT rc)) txt
                                    | Contains \<Rightarrow> includesStr (name (cardT rc)) txt))"
| "matchesPredicate G s controller selfId targetId (IsToken inr) =
     Some (case subject s inr selfId targetId of None \<Rightarrow> False | Some rc \<Rightarrow> isToken rc)"
| "matchesPredicate G s controller selfId targetId (WasSummonedThisTurn inr) =
     Some (case subject s inr selfId targetId of None \<Rightarrow> False
           | Some rc \<Rightarrow> turnEntered rc = Some (turn_number s))"
| "matchesPredicate G s controller selfId targetId (HasCounter counter atl inr) =
     Some (case subject s inr selfId targetId of None \<Rightarrow> False
           | Some rc \<Rightarrow> (case counters rc of None \<Rightarrow> 0 | Some cs \<Rightarrow> getOr0 cs counter) \<ge> atl)"
| "matchesPredicate G s controller selfId targetId (ControllerIs who inr) =
     Some (case subject s inr selfId targetId of None \<Rightarrow> False
           | Some rc \<Rightarrow> owner rc = refPlayer controller who)"
| "matchesPredicate G s controller selfId targetId (EventOccurred ev who since atl) =
     (let whoPid = (case who of None \<Rightarrow> controller | Some w \<Rightarrow> refPlayer controller w);
          turnCount = getOr0 (eventsTurn s) (ev, whoPid);
          gameCount = getOr0 (eventsGame s) (ev, whoPid)
      in Some ((if since = TURN then turnCount else gameCount) \<ge> atl))"
| "matchesPredicate G s controller selfId targetId (Cmp left c right) =
     (case evalMetric G s controller selfId (Some targetId) left of
        None \<Rightarrow> None
      | Some l \<Rightarrow> (case evalMetric G s controller selfId (Some targetId) right of
                     None \<Rightarrow> None
                   | Some r \<Rightarrow> Some (cmpOp c l r)))"
| "matchesPredicate G s controller selfId targetId (PAnd items) =
     every (map (matchesPredicate G s controller selfId targetId) items)"
| "matchesPredicate G s controller selfId targetId (POr items) =
     some (map (matchesPredicate G s controller selfId targetId) items)"
| "matchesPredicate G s controller selfId targetId (PNot item) =
     map_option Not (matchesPredicate G s controller selfId targetId item)"

definition isLegalTarget ::
  "(RuntimeCard \<Rightarrow> (int \<times> int) option) \<Rightarrow> GameState \<Rightarrow> PlayerIndex \<Rightarrow> Selector \<Rightarrow> string \<Rightarrow>
   string option \<Rightarrow> bool option" where
  "isLegalTarget G s controller sel i selfId =
     (case getCard s i of
        None \<Rightarrow> Some False
      | Some rc \<Rightarrow>
          if (case sel_owner sel of None \<Rightarrow> False
              | Some ow \<Rightarrow> owner rc \<noteq> refPlayer controller ow)
          then Some False
          else if (case sel_zone sel of None \<Rightarrow> zone rc \<noteq> BF | Some z \<Rightarrow> z \<noteq> Z (zone rc))
          then Some False
          else (case (case sel_filter sel of None \<Rightarrow> Some True
                      | Some f \<Rightarrow> matchesPredicate G s controller selfId i f) of
                  None \<Rightarrow> None
                | Some ok \<Rightarrow>
                    if \<not> ok then Some False
                    else if hasKeyword rc ''Hexproof'' \<and> owner rc \<noteq> controller then Some False
                    else Some True))"

definition listContinuousEffects :: "GameState \<Rightarrow> (RuntimeCard \<times> ContinuousEffect) list" where
  "listContinuousEffects s =
     concat (map (\<lambda>rc. if zone rc \<noteq> BF then []
                        else map (\<lambda>eff. (rc, eff))
                               (case textIR_continuous (cardT rc) of None \<Rightarrow> [] | Some l \<Rightarrow> l))
                 (map snd (cards s)))"

definition getStaticBuffBonus ::
  "(RuntimeCard \<Rightarrow> (int \<times> int) option) \<Rightarrow> GameState \<Rightarrow> string \<Rightarrow> (int \<times> int) option" where
  "getStaticBuffBonus G s targetId =
     foldM (\<lambda>(host, eff) (atk, hp).
              case eff of
                StaticBuff target a h \<Rightarrow>
                  (case isLegalTarget G s (owner host) target targetId (Some (rc_id host)) of
                     None \<Rightarrow> None
                   | Some ok \<Rightarrow> Some (if ok then (atk + nullish0 a, hp + nullish0 h) else (atk, hp)))
              | CostModifier p d f \<Rightarrow> Some (atk, hp))
           (listContinuousEffects s) (0, 0)"

primrec getEffectiveBaseStats :: "nat \<Rightarrow> GameState \<Rightarrow> RuntimeCard \<Rightarrow> (int \<times> int) option" where
  "getEffectiveBaseStats 0 s rc = None"
| "getEffectiveBaseStats (Suc d) s rc =
     (let base = (case stats (cardT rc) of None \<Rightarrow> (0, 0) | Some st \<Rightarrow> st);
          core = (case transformEOT rc of
                    Some eot \<Rightarrow> eot
                  | None \<Rightarrow> (case transformPerm rc of Some perm \<Rightarrow> perm | None \<Rightarrow> base))
      in case getStaticBuffBonus (getEffectiveBaseStats d s) s (rc_id rc) of
           None \<Rightarrow> None
         | Some buff \<Rightarrow> Some (fst core + fst buff, snd core + snd buff))"

definition applyCostModifiers ::
  "(RuntimeCard \<Rightarrow> (int \<times> int) option) \<Rightarrow> GameState \<Rightarrow> PlayerIndex \<Rightarrow> string \<Rightarrow> int \<Rightarrow> int option" where
  "applyCostModifiers G s controller cardId baseCost =
     foldM (\<lambda>(host, eff) cost.
              case eff of
                CostModifier p delta flr \<Rightarrow>
                  (case matchesPredicate G s (owner host) (Some (rc_id host)) cardId p of
                     None \<Rightarrow> None
                   | Some ok \<Rightarrow>
                       Some (if ok
                             then (let c = cost + delta
                                   in case flr of None \<Rightarrow> c | Some fl \<Rightarrow> if c < fl then fl else c)
                             else cost))
              | StaticBuff t a h \<Rightarrow> Some cost)
           (listContinuousEffects s) baseCost"

section \<open>Planner\<close>

text \<open>
  \<open>selectTargets\<close> pushes a log line when the selector names the STACK zone, so it
  returns the state next to the ids, and \<open>planEffect\<close> passes the state along.
\<close>

definition selectTargets ::
  "(RuntimeCard \<Rightarrow> (int \<times> int) option) \<Rightarrow> GameState \<Rightarrow> PlayerIndex \<Rightarrow> Selector \<Rightarrow>
   (string list \<times> GameState) option" where
  "selectTargets G s controller sel =
     (let ownerIdx = map_option (refPlayer controller) (sel_owner sel) in
      case sel_zone sel of
        Some STACK \<Rightarrow> Some ([], pushLog s ''Selector with zone=STACK unsupported; ignoring.'')
      | z \<Rightarrow>
          (let pz = (case z of Some (Z x) \<Rightarrow> x | _ \<Rightarrow> BF) in
           case foldM (\<lambda>p pool.
                         if ownerIdx \<noteq> None \<and> Some (idx p) \<noteq> ownerIdx then Some pool
                         else (case filterM (\<lambda>i. case sel_filter sel of
                                                     None \<Rightarrow> Some True
                                                   | Some f \<Rightarrow> matchesPredicate G s controller None i f)
                                            (getZoneArray p pz) of
                                 None \<Rightarrow> None
                               | Some ids \<Rightarrow> Some (pool @ ids)))
                      [player s controller, player s (opp controller)] [] of
             None \<Rightarrow> None
           | Some pool \<Rightarrow>
               Some (slice0 pool (case sel_max sel of None \<Rightarrow> int (length pool) | Some m \<Rightarrow> m), s)))"

text \<open>
  The targeting prelude shared by the targeted effects: the explicit targets when some
  were chosen, else the selection, then the legality filter.
\<close>

definition legalTargets ::
  "(RuntimeCard \<Rightarrow> (int \<times> int) option) \<Rightarrow> GameState \<Rightarrow> PlayerIndex \<Rightarrow> string option \<Rightarrow>
   Selector \<Rightarrow> string list option \<Rightarrow> (string list \<times> GameState) option" where
  "legalTargets G s controller srcId sel chosenTargets =
     (case (case chosenTargets of
              Some (c # cs) \<Rightarrow> Some (c # cs, s)
            | _ \<Rightarrow> selectTargets G s controller sel) of
        None \<Rightarrow> None
      | Some (initial, s1) \<Rightarrow>
          (case filterM (\<lambda>i. isLegalTarget G s1 controller sel i srcId) initial of
             None \<Rightarrow> None
           | Some targets \<Rightarrow> Some (targets, s1)))"

definition fizzles :: "GameState \<Rightarrow> string list \<Rightarrow> bool" where
  "fizzles s targets = (targets = [] \<and> illegalTargetFizzle (rules s))"

text \<open>\<open>targets[0]\<close>, \<open>undefined\<close> on the empty array.\<close>

definition first :: "'a list \<Rightarrow> 'a option" where
  "first xs = (case xs of [] \<Rightarrow> None | x # _ \<Rightarrow> Some x)"

text \<open>The \<open>for\<close> loop of Repeat: the body's planner run \<open>n\<close> times, the plans appended.\<close>

primrec repeatPlan ::
  "nat \<Rightarrow> (GameState \<Rightarrow> (Operation list \<times> GameState) option) \<Rightarrow> Operation list \<times> GameState \<Rightarrow>
   (Operation list \<times> GameState) option" where
  "repeatPlan 0 f acc = Some acc"
| "repeatPlan (Suc n) f acc =
     (case f (snd acc) of None \<Rightarrow> None
      | Some (ops, s1) \<Rightarrow> repeatPlan n f (fst acc @ ops, s1))"

text \<open>The loop over the steps of a Sequence, each step's planner run on the current state.\<close>

primrec seqPlan ::
  "(GameState \<Rightarrow> (Operation list \<times> GameState) option) list \<Rightarrow> Operation list \<times> GameState \<Rightarrow>
   (Operation list \<times> GameState) option" where
  "seqPlan [] acc = Some acc"
| "seqPlan (f # fs) acc =
     (case f (snd acc) of None \<Rightarrow> None
      | Some (ops, s1) \<Rightarrow> seqPlan fs (fst acc @ ops, s1))"

text \<open>The loop over the branches of a Case: the first branch whose predicate holds.\<close>

primrec casePlan ::
  "(Predicate \<Rightarrow> bool option) \<Rightarrow> (Predicate \<times> (GameState \<Rightarrow> (Operation list \<times> GameState) option)) list \<Rightarrow>
   (GameState \<Rightarrow> (Operation list \<times> GameState) option) option \<Rightarrow> GameState \<Rightarrow>
   (Operation list \<times> GameState) option" where
  "casePlan holds [] el s = (case el of None \<Rightarrow> Some ([], s) | Some f \<Rightarrow> f s)"
| "casePlan holds (br # brs) el s =
     (case holds (fst br) of None \<Rightarrow> None
      | Some b \<Rightarrow> if b then snd br s else casePlan holds brs el s)"

primrec planEffect ::
  "nat \<Rightarrow> GameState \<Rightarrow> PlayerIndex \<Rightarrow> string option \<Rightarrow> Effect \<Rightarrow> string list option \<Rightarrow>
   (Operation list \<times> GameState) option" where
  "planEffect d s controller srcId (DealDamage target amount) chosenTargets =
     (case legalTargets (getEffectiveBaseStats d s) s controller srcId target chosenTargets of
        None \<Rightarrow> None
      | Some (targets, s1) \<Rightarrow>
          if fizzles s1 targets then Some ([Log ''Effect DealDamage fizzles (no legal targets).''], s1)
          else (case evalValue (getEffectiveBaseStats d s1) s1 controller srcId (first targets) amount of
                  None \<Rightarrow> None
                | Some n \<Rightarrow> Some ([DealDamageMany targets n srcId], s1)))"
| "planEffect d s controller srcId (PreventDamage target amount duration) chosenTargets =
     (case legalTargets (getEffectiveBaseStats d s) s controller srcId target chosenTargets of
        None \<Rightarrow> None
      | Some (targets, s1) \<Rightarrow>
          if fizzles s1 targets then Some ([Log ''Effect PreventDamage fizzles (no legal targets).''], s1)
          else (case evalValue (getEffectiveBaseStats d s1) s1 controller srcId (first targets) amount of
                  None \<Rightarrow> None
                | Some n \<Rightarrow>
                    Some ([PreventDamageMany targets n (if duration = EOT then EOT else PERM)], s1)))"
| "planEffect d s controller srcId (Heal target amount) chosenTargets =
     (case legalTargets (getEffectiveBaseStats d s) s controller srcId target chosenTargets of
        None \<Rightarrow> None
      | Some (targets, s1) \<Rightarrow>
          if fizzles s1 targets then Some ([Log ''Effect Heal fizzles (no legal targets).''], s1)
          else (case evalValue (getEffectiveBaseStats d s1) s1 controller srcId (first targets) amount of
                  None \<Rightarrow> None
                | Some n \<Rightarrow> Some ([HealMany targets n], s1)))"
| "planEffect d s controller srcId (Draw who n) chosenTargets =
     (case evalValue (getEffectiveBaseStats d s) s controller srcId None n of
        None \<Rightarrow> None
      | Some k \<Rightarrow> Some ([OpDraw (refPlayer controller who) k], s))"
| "planEffect d s controller srcId (Mill who n) chosenTargets =
     (case evalValue (getEffectiveBaseStats d s) s controller srcId None n of
        None \<Rightarrow> None
      | Some k \<Rightarrow> Some ([OpMill (refPlayer controller who) k], s))"
| "planEffect d s controller srcId (LookAtTop who n chs) chosenTargets =
     Some ([OpLookAtTop (refPlayer controller who) n
              (case chs of
                 None \<Rightarrow> None
               | Some ch \<Rightarrow> (case moveRestTo ch of
                               STACK \<Rightarrow> None
                             | Z z \<Rightarrow> Some (keep ch, z, reveal ch)))], s)"
| "planEffect d s controller srcId (CreateToken who atk hp tgs attrs) chosenTargets =
     Some ([OpCreateToken (refPlayer controller who) atk hp tgs attrs], s)"
| "planEffect d s controller srcId (AddCounter target counter n mx) chosenTargets =
     (case legalTargets (getEffectiveBaseStats d s) s controller srcId target chosenTargets of
        None \<Rightarrow> None
      | Some (targets, s1) \<Rightarrow>
          if fizzles s1 targets then Some ([Log ''Effect AddCounter fizzles (no legal targets).''], s1)
          else (case evalValue (getEffectiveBaseStats d s1) s1 controller srcId (first targets) n of
                  None \<Rightarrow> None
                | Some k \<Rightarrow> Some ([AddCounterMany targets counter (max 0 k) mx], s1)))"
| "planEffect d s controller srcId (RemoveCounter target counter n) chosenTargets =
     (case legalTargets (getEffectiveBaseStats d s) s controller srcId target chosenTargets of
        None \<Rightarrow> None
      | Some (targets, s1) \<Rightarrow>
          if fizzles s1 targets then Some ([Log ''Effect RemoveCounter fizzles (no legal targets).''], s1)
          else (case evalValue (getEffectiveBaseStats d s1) s1 controller srcId (first targets) n of
                  None \<Rightarrow> None
                | Some k \<Rightarrow> Some ([RemoveCounterMany targets counter (max 0 k)], s1)))"
| "planEffect d s controller srcId (Buff target atk hp duration) chosenTargets =
     (case legalTargets (getEffectiveBaseStats d s) s controller srcId target chosenTargets of
        None \<Rightarrow> None
      | Some (targets, s1) \<Rightarrow>
          if fizzles s1 targets then Some ([Log ''Effect Buff fizzles (no legal targets).''], s1)
          else Some ([BuffMany targets (nullish0 atk) (nullish0 hp) EOT], s1))"
| "planEffect d s controller srcId (Move target to) chosenTargets =
     (case to of
        STACK \<Rightarrow> Some ([Log ''Move to STACK unsupported; NoOp.''], s)
      | Z z \<Rightarrow>
          (case legalTargets (getEffectiveBaseStats d s) s controller srcId target chosenTargets of
             None \<Rightarrow> None
           | Some (targets, s1) \<Rightarrow>
               if fizzles s1 targets then Some ([Log ''Effect Move fizzles (no legal targets).''], s1)
               else Some ([MoveMany targets z], s1)))"
| "planEffect d s controller srcId (ChangeController target newController duration) chosenTargets =
     (case legalTargets (getEffectiveBaseStats d s) s controller srcId target chosenTargets of
        None \<Rightarrow> None
      | Some (targets, s1) \<Rightarrow>
          if fizzles s1 targets
          then Some ([Log ''Effect ChangeController fizzles (no legal targets).''], s1)
          else Some ([ChangeControllerMany targets (refPlayer controller newController) EOT], s1))"
| "planEffect d s controller srcId (Transform target into duration) chosenTargets =
     (case legalTargets (getEffectiveBaseStats d s) s controller srcId target chosenTargets of
        None \<Rightarrow> None
      | Some (targets, s1) \<Rightarrow>
          if fizzles s1 targets then Some ([Log ''Effect Transform fizzles (no legal targets).''], s1)
          else Some ([TransformMany targets into (Some (if duration = Some EOT then EOT else PERM))], s1))"
| "planEffect d s controller srcId (CopyStats frm to clampAtk clampHp duration) chosenTargets =
     (case selectTargets (getEffectiveBaseStats d s) s controller frm of
        None \<Rightarrow> None
      | Some (fromIds, s1) \<Rightarrow>
          (case findM (\<lambda>i. isLegalTarget (getEffectiveBaseStats d s1) s1 controller frm i srcId) fromIds of
             None \<Rightarrow> None
           | Some found \<Rightarrow>
               (case truthyId found of
                  None \<Rightarrow> Some ([Log ''CopyStats: no valid source''], s1)
                | Some sid \<Rightarrow>
                    (case getCard s1 sid of
                       None \<Rightarrow> Some ([Log ''CopyStats: source lacks stats''], s1)
                     | Some srcRc \<Rightarrow>
                         if stats (cardT srcRc) = None
                         then Some ([Log ''CopyStats: source lacks stats''], s1)
                         else (case getEffectiveBaseStats d s1 srcRc of
                                 None \<Rightarrow> None
                               | Some srcStats \<Rightarrow>
                                   (let toAtk = max (fst clampAtk) (min (snd clampAtk) (fst (effStat srcRc srcStats)));
                                        toHp = max (fst clampHp) (min (snd clampHp) (snd (effStat srcRc srcStats)))
                                    in case selectTargets (getEffectiveBaseStats d s1) s1 controller to of
                                         None \<Rightarrow> None
                                       | Some (sel, s2) \<Rightarrow>
                                           (case filterM (\<lambda>i. isLegalTarget (getEffectiveBaseStats d s2) s2 controller to i srcId) sel of
                                              None \<Rightarrow> None
                                            | Some toIds \<Rightarrow>
                                                if fizzles s2 toIds
                                                then Some ([Log ''CopyStats fizzles (no legal targets).''], s2)
                                                else Some ([CopyStatsToMany toIds toAtk toHp duration], s2))))))))"
| "planEffect d s controller srcId (Conditional cond th el) chosenTargets =
     (case matchesPredicate (getEffectiveBaseStats d s) s controller srcId
             (case truthyId srcId of None \<Rightarrow> [] | Some x \<Rightarrow> x) cond of
        None \<Rightarrow> None
      | Some c \<Rightarrow>
          if c then planEffect d s controller srcId th chosenTargets
          else (case map_option (\<lambda>e. planEffect d s controller srcId e chosenTargets) el of
                  None \<Rightarrow> Some ([], s)
                | Some r \<Rightarrow> r))"
| "planEffect d s controller srcId (Case branches el) chosenTargets =
     casePlan (\<lambda>w. matchesPredicate (getEffectiveBaseStats d s) s controller srcId
                      (case truthyId srcId of None \<Rightarrow> [] | Some x \<Rightarrow> x) w)
       (map (map_prod id (\<lambda>e s1. planEffect d s1 controller srcId e chosenTargets)) branches)
       (map_option (\<lambda>e s1. planEffect d s1 controller srcId e chosenTargets) el) s"
| "planEffect d s controller srcId (ForEach among maxTargets body) chosenTargets =
     (case selectTargets (getEffectiveBaseStats d s) s controller among of
        None \<Rightarrow> None
      | Some (sel, s1) \<Rightarrow>
          foldM (\<lambda>tid acc.
                   case planEffect d (snd acc) controller (Some tid) body (Some [tid]) of
                     None \<Rightarrow> None
                   | Some (ops, s2) \<Rightarrow> Some (fst acc @ ops, s2))
                (slice0 sel maxTargets) ([], s1))"
| "planEffect d s controller srcId (Sequence steps) chosenTargets =
     seqPlan (map (\<lambda>e s1. planEffect d s1 controller srcId e chosenTargets) steps) ([], s)"
| "planEffect d s controller srcId (Repeat n body) chosenTargets =
     repeatPlan (nat n) (\<lambda>s1. planEffect d s1 controller srcId body chosenTargets) ([], s)"
| "planEffect d s controller srcId NoOp chosenTargets = Some ([], s)"

section \<open>Applier\<close>

text \<open>
  \<open>applyOperation\<close> and its helpers (\<open>fireTriggers\<close>, \<open>applyReplacement\<close>, \<open>moveCard\<close>,
  \<open>topDraw\<close>, \<open>dealDamageToPermanent\<close>, \<open>destroyPermanent\<close>, ...) call one another.  Each
  helper takes the recursive callee \<open>app\<close> (\<open>applyOperation\<close> one level deeper) as a
  parameter, and \<open>applyOperation\<close> recurses on the depth bound.

  The source holds a \<open>RuntimeCard\<close> by reference (\<open>const rc = s.cards.get(id)\<close>) across
  mutations.  The model keeps the value read at that point for the fields nothing mutates
  (\<open>card\<close>, \<open>isToken\<close>) and reads the mutable fields (\<open>damage\<close>) again from the registry
  entry of the id (\<open>liveCard\<close>); the registry never drops an entry.
\<close>

definition liveCard :: "GameState \<Rightarrow> string \<Rightarrow> RuntimeCard \<Rightarrow> RuntimeCard" where
  "liveCard s i rc = (case getCard s i of None \<Rightarrow> rc | Some r \<Rightarrow> r)"

definition applyOps ::
  "(GameState \<Rightarrow> Operation \<Rightarrow> GameState option) \<Rightarrow> Operation list \<Rightarrow> GameState \<Rightarrow> GameState option" where
  "applyOps app ops s = foldM (\<lambda>op s1. app s1 op) ops s"

definition incEvent :: "GameState \<Rightarrow> EventName \<Rightarrow> PlayerIndex \<Rightarrow> GameState" where
  "incEvent s ev who =
     s\<lparr>eventsTurn := AList.update (ev, who) (getOr0 (eventsTurn s) (ev, who) + 1) (eventsTurn s),
       eventsGame := AList.update (ev, who) (getOr0 (eventsGame s) (ev, who) + 1) (eventsGame s)\<rparr>"

definition removeFromAllZones :: "string \<Rightarrow> PlayerState \<Rightarrow> PlayerState" where
  "removeFromAllZones i p =
     fold (\<lambda>z p1. setZoneArray z (removeFirst i (getZoneArray p1 z)) p1) PLAYER_ZONES p"

definition pushZone :: "PlayerZone \<Rightarrow> string \<Rightarrow> PlayerState \<Rightarrow> PlayerState" where
  "pushZone z i p = setZoneArray z (getZoneArray p z @ [i]) p"

definition transferControl :: "GameState \<Rightarrow> string \<Rightarrow> PlayerIndex \<Rightarrow> GameState" where
  "transferControl s i newOwner =
     (case getCard s i of
        None \<Rightarrow> s
      | Some rc \<Rightarrow>
          if owner rc = newOwner then s
          else (let oldOwner = owner rc;
                    s1 = setPlayer oldOwner (removeFromAllZones i (player s oldOwner)) s;
                    s2 = setPlayer newOwner (pushZone (zone rc) i (player s1 newOwner)) s1
                in updCard i (\<lambda>r. r\<lparr>owner := newOwner\<rparr>) s2))"

definition triggersOf :: "RuntimeCard \<Rightarrow> Trigger list" where
  "triggersOf rc = (case textIR_triggers (cardT rc) of None \<Rightarrow> [] | Some ts \<Rightarrow> ts)"

definition replacementsOf :: "RuntimeCard \<Rightarrow> ReplacementEffect list" where
  "replacementsOf rc = (case textIR_replacements (cardT rc) of None \<Rightarrow> [] | Some rs \<Rightarrow> rs)"

definition planTriggers ::
  "nat \<Rightarrow> GameState \<Rightarrow> EventKind \<Rightarrow> Ctx \<Rightarrow> (Operation list \<times> GameState) option" where
  "planTriggers d s whn ctx =
     foldM (\<lambda>(rc, i, t) (ops, s1).
              if t_when t \<noteq> whn then Some (ops, s1)
              else if getOr0 (if l_per (t_limit t) = TURN then triggerUseTurn s1 else triggerUseGame s1)
                        (rc_id rc, i) \<ge> l_times (t_limit t)
              then Some (ops, s1)
              else if \<not> (zone rc = BF \<or> Some (rc_id rc) = subjectId ctx) then Some (ops, s1)
              else do {
                condOk \<leftarrow> (case t_condition t of
                             None \<Rightarrow> Some True
                           | Some c \<Rightarrow>
                               matchesPredicate (getEffectiveBaseStats d s1) s1 (owner rc) (Some (rc_id rc))
                                 (case truthyId (subjectId ctx) of
                                    Some x \<Rightarrow> x
                                  | None \<Rightarrow> (case truthyId (sourceId ctx) of
                                               Some x \<Rightarrow> x | None \<Rightarrow> rc_id rc)) c);
                if \<not> condOk then Some (ops, s1)
                else do {
                  (effOps, s2) \<leftarrow> planEffect d s1 (owner rc) (Some (rc_id rc)) (t_effect t)
                                     (map_option (\<lambda>x. [x]) (truthyId (subjectId ctx)));
                  Some (ops @ [IncTriggerUsage (rc_id rc, i) (l_per (t_limit t))] @ effOps, s2)
                }
              })
           (concat (map (\<lambda>rc. map (\<lambda>(i, t). (rc, i, t)) (enumerate 0 (triggersOf rc)))
                        (map snd (cards s))))
           ([], s)"

definition fireTriggers ::
  "nat \<Rightarrow> (GameState \<Rightarrow> Operation \<Rightarrow> GameState option) \<Rightarrow> GameState \<Rightarrow> EventKind \<Rightarrow> Ctx \<Rightarrow>
   GameState option" where
  "fireTriggers d app s whn ctx = do {
     (ops, s1) \<leftarrow> planTriggers d s whn ctx;
     applyOps app ops s1
   }"

definition noCtx :: Ctx where
  "noCtx = \<lparr>subjectId = None, subjectPlayer = None, sourceId = None, forPlayer = None\<rparr>"

definition listActiveReplacements :: "GameState \<Rightarrow> (RuntimeCard \<times> ReplacementEffect \<times> nat) list" where
  "listActiveReplacements s =
     concat (map (\<lambda>rc. if zone rc \<noteq> BF then []
                        else map (\<lambda>(i, r). (rc, r, i)) (enumerate 0 (replacementsOf rc)))
                 (map snd (cards s)))"

definition replUsed :: "GameState \<Rightarrow> RuntimeCard \<Rightarrow> ReplacementEffect \<Rightarrow> nat \<Rightarrow> int" where
  "replUsed s host repl i =
     getOr0 (if l_per (r_limit repl) = TURN then replUseTurn s else replUseGame s) (rc_id host, i)"

definition replWhenName :: "ReplWhen \<Rightarrow> string" where
  "replWhenName w = (case w of WouldDie \<Rightarrow> ''WouldDie'' | WouldBeDamaged \<Rightarrow> ''WouldBeDamaged''
                             | WouldDraw \<Rightarrow> ''WouldDraw'')"

definition planReplacementForSubject ::
  "nat \<Rightarrow> GameState \<Rightarrow> ReplWhen \<Rightarrow> string \<Rightarrow> (Operation list \<times> GameState) option" where
  "planReplacementForSubject d s whn subjId = do {
     found \<leftarrow> findM (\<lambda>(host, repl, i).
                       if replUsed s host repl i \<ge> l_times (r_limit repl) then Some False
                       else isLegalTarget (getEffectiveBaseStats d s) s (owner host) (r_subject repl)
                              subjId (Some (rc_id host)))
                    (filter (\<lambda>(host, repl, i). r_when repl = whn) (listActiveReplacements s));
     case found of
       None \<Rightarrow> Some ([], s)
     | Some (host, repl, i) \<Rightarrow> do {
         (effOps, s1) \<leftarrow> planEffect d s (owner host) (Some (rc_id host)) (r_instead repl) (Some [subjId]);
         Some ([Log (''Replacement ('' @ replWhenName (r_when repl) @ '') from '' @ name (cardT host)
                     @ '' applies.''),
                IncReplacementUsage (rc_id host, i) (l_per (r_limit repl))] @ effOps, s1)
       }
   }"

definition applyReplacement ::
  "nat \<Rightarrow> (GameState \<Rightarrow> Operation \<Rightarrow> GameState option) \<Rightarrow> GameState \<Rightarrow> ReplWhen \<Rightarrow> string \<Rightarrow>
   (bool \<times> GameState) option" where
  "applyReplacement d app s whn subjId = do {
     (ops, s1) \<leftarrow> planReplacementForSubject d s whn subjId;
     if ops = [] then Some (False, s1)
     else do { s2 \<leftarrow> applyOps app ops s1; Some (True, s2) }
   }"

definition planWouldDrawReplacement ::
  "nat \<Rightarrow> GameState \<Rightarrow> PlayerIndex \<Rightarrow> (Operation list \<times> GameState) option" where
  "planWouldDrawReplacement d s who =
     (case find (\<lambda>(host, repl, i).
                   r_when repl = WouldDraw \<and>
                   (case sel_owner (r_subject repl) of
                      None \<Rightarrow> owner host
                    | Some ow \<Rightarrow> refPlayer (owner host) ow) = who \<and>
                   \<not> replUsed s host repl i \<ge> l_times (r_limit repl))
                (listActiveReplacements s) of
        None \<Rightarrow> Some ([], s)
      | Some (host, repl, i) \<Rightarrow> do {
          (effOps, s1) \<leftarrow> planEffect d s (owner host) (Some (rc_id host)) (r_instead repl) None;
          Some ([Log (''Replacement (WouldDraw) from '' @ name (cardT host) @ '' applies to player ''
                      @ pname (player s who) @ ''.''),
                 IncReplacementUsage (rc_id host, i) (l_per (r_limit repl))] @ effOps, s1)
        })"

definition applyWouldDrawReplacement ::
  "nat \<Rightarrow> (GameState \<Rightarrow> Operation \<Rightarrow> GameState option) \<Rightarrow> GameState \<Rightarrow> PlayerIndex \<Rightarrow>
   (bool \<times> GameState) option" where
  "applyWouldDrawReplacement d app s who = do {
     (ops, s1) \<leftarrow> planWouldDrawReplacement d s who;
     if ops = [] then Some (False, s1)
     else do { s2 \<leftarrow> applyOps app ops s1; Some (True, s2) }
   }"

definition leaveZone :: "LeaveZone \<Rightarrow> PlayerZone" where
  "leaveZone l = (case l of LeaveGY \<Rightarrow> GY | LeaveEXILE \<Rightarrow> EXILE)"

definition subjCtx :: "string \<Rightarrow> Ctx" where
  "subjCtx i = noCtx\<lparr>subjectId := Some i\<rparr>"

text \<open>
  The zone transfer at the heart of \<open>moveCard\<close>: the id is removed from every zone of the
  owner, appended to the destination zone, and \<open>rc.zone\<close> is set.
\<close>

definition relocate :: "GameState \<Rightarrow> string \<Rightarrow> PlayerZone \<Rightarrow> GameState" where
  "relocate s cardId dest =
     (case getCard s cardId of
        None \<Rightarrow> s
      | Some rc \<Rightarrow>
          updCard cardId (\<lambda>r. r\<lparr>zone := dest\<rparr>)
            (setPlayer (owner rc)
               (pushZone dest cardId (removeFromAllZones cardId (player s (owner rc)))) s))"

text \<open>A token that leaves the battlefield goes to the zone of the rules.\<close>

definition moveDest :: "GameState \<Rightarrow> RuntimeCard \<Rightarrow> PlayerZone \<Rightarrow> PlayerZone" where
  "moveDest s rc toZone =
     (if isToken rc \<and> zone rc = BF \<and> toZone \<noteq> BF
      then leaveZone (tokensLeaveTo (rules s)) else toZone)"

definition moveCard ::
  "nat \<Rightarrow> (GameState \<Rightarrow> Operation \<Rightarrow> GameState option) \<Rightarrow> GameState \<Rightarrow> string \<Rightarrow> PlayerZone \<Rightarrow>
   GameState option" where
  "moveCard d app s cardId toZone =
     (case getCard s cardId of
        None \<Rightarrow> Some s
      | Some rc \<Rightarrow>
          (let dest = moveDest s rc toZone;
               s2 = relocate s cardId dest
           in if dest = BF
              then do {
                s3 \<leftarrow> fireTriggers d app (updCard cardId (\<lambda>r. r\<lparr>tapped := False\<rparr>) s2) OnEnter
                        (subjCtx cardId);
                fireTriggers d app s3 OnNameMatched (subjCtx cardId)
              }
              else Some s2))"

text \<open>
  \<open>topDraw\<close>: the loop runs \<open>n\<close> times unless the library is empty, where the function
  returns \<open>false\<close> at once.
\<close>

primrec topDrawLoop ::
  "nat \<Rightarrow> nat \<Rightarrow> (GameState \<Rightarrow> Operation \<Rightarrow> GameState option) \<Rightarrow> GameState \<Rightarrow> PlayerIndex \<Rightarrow>
   (bool \<times> GameState) option" where
  "topDrawLoop 0 d app s who = Some (True, s)"
| "topDrawLoop (Suc k) d app s who = do {
     (handled, s1) \<leftarrow> applyWouldDrawReplacement d app s who;
     if handled then topDrawLoop k d app s1 who
     else if library (player s1 who) = []
     then Some (False,
            if drawFromEmptyLoss (rules s1)
            then pushLog (s1\<lparr>winner := Some (opp who)\<rparr>)
                   (''Player '' @ pname (player s1 who) @ '' cannot draw and loses.'')
            else s1)
     else do {
       let i = last (library (player s1 who));
       let s2 = setPlayer who ((player s1 who)\<lparr>library := butlast (library (player s1 who))\<rparr>) s1;
       s3 \<leftarrow> moveCard d app s2 i HAND;
       let s4 = pushLog s3 (pname (player s3 who) @ '' draws a card.'');
       s5 \<leftarrow> fireTriggers d app s4 OnDraw ((subjCtx i)\<lparr>subjectPlayer := Some who\<rparr>);
       s6 \<leftarrow> fireTriggers d app s5 OnNameMatched ((subjCtx i)\<lparr>subjectPlayer := Some who\<rparr>);
       topDrawLoop k d app s6 who
     }
   }"

definition topDraw ::
  "nat \<Rightarrow> (GameState \<Rightarrow> Operation \<Rightarrow> GameState option) \<Rightarrow> GameState \<Rightarrow> PlayerIndex \<Rightarrow> int \<Rightarrow>
   (bool \<times> GameState) option" where
  "topDraw d app s who n = topDrawLoop (nat n) d app s who"

definition destroyPermanent ::
  "nat \<Rightarrow> (GameState \<Rightarrow> Operation \<Rightarrow> GameState option) \<Rightarrow> GameState \<Rightarrow> string \<Rightarrow> GameState option" where
  "destroyPermanent d app s i =
     (case getCard s i of
        None \<Rightarrow> Some s
      | Some rc \<Rightarrow>
          if zone rc \<noteq> BF then Some s
          else do {
            (replaced, s1) \<leftarrow> applyReplacement d app s WouldDie i;
            if replaced then Some s1
            else do {
              let s2 = incEvent (pushLog s1 (name (cardT rc) @ '' dies.'')) UnitDied
                         (owner (liveCard s1 i rc));
              s3 \<leftarrow> fireTriggers d app s2 OnDeath (subjCtx i);
              moveCard d app s3 i (if isToken rc then leaveZone (tokensLeaveTo (rules s3)) else GY)
            }
          })"

definition hpMaxOf :: "nat \<Rightarrow> GameState \<Rightarrow> RuntimeCard \<Rightarrow> int option" where
  "hpMaxOf d s rc = map_option (\<lambda>st. snd (effStat rc st)) (getEffectiveBaseStats d s rc)"

definition lifelinkGain :: "GameState \<Rightarrow> string option \<Rightarrow> int \<Rightarrow> GameState" where
  "lifelinkGain s srcId n =
     (case getCardIf s srcId of
        None \<Rightarrow> s
      | Some src \<Rightarrow>
          if hasKeyword src ''Lifelink''
          then (let ctrl = (player s (owner src))\<lparr>life := life (player s (owner src)) + n\<rparr>
                in pushLog (setPlayer (owner src) ctrl s)
                     (pname ctrl @ '' gains '' @ showInt n @ '' life (Lifelink). (life ''
                      @ showInt (life ctrl) @ '')''))
          else s)"

definition dealDamageToPermanent ::
  "nat \<Rightarrow> (GameState \<Rightarrow> Operation \<Rightarrow> GameState option) \<Rightarrow> GameState \<Rightarrow> string \<Rightarrow> int \<Rightarrow>
   string option \<Rightarrow> GameState option" where
  "dealDamageToPermanent d app s i n srcId =
     (case getCard s i of
        None \<Rightarrow> Some s
      | Some rc \<Rightarrow>
          if stats (cardT rc) = None then Some s
          else do {
            (replaced, s1) \<leftarrow> applyReplacement d app s WouldBeDamaged i;
            if replaced then Some s1
            else do {
              let usePerm = min n (getOr0 (preventPERM s1) i);
              let s2 = (if usePerm > 0
                        then s1\<lparr>preventPERM := AList.update i (getOr0 (preventPERM s1) i - usePerm) (preventPERM s1)\<rparr>
                        else s1);
              let dmg1 = (if usePerm > 0 then n - usePerm else n);
              let useEOT = min dmg1 (getOr0 (preventEOT s2) i);
              let s3 = (if useEOT > 0
                        then s2\<lparr>preventEOT := AList.update i (getOr0 (preventEOT s2) i - useEOT) (preventEOT s2)\<rparr>
                        else s2);
              let dmg = (if useEOT > 0 then dmg1 - useEOT else dmg1);
              if dmg \<le> 0
              then Some (pushLog s3 (name (cardT rc) @ '' damage prevented ('' @ showInt n @ '').''))
              else do {
                let s4 = updCard i (\<lambda>r. r\<lparr>damage := damage r + dmg\<rparr>) s3;
                hpMax \<leftarrow> hpMaxOf d s4 (liveCard s4 i rc);
                let s5 = pushLog s4 (name (cardT rc) @ '' takes '' @ showInt n @ '' damage (HP ''
                                     @ showInt (max 0 (hpMax - damage (liveCard s4 i rc))) @ '').'');
                let s6 = lifelinkGain s5 srcId dmg;
                if (case getCardIf s6 srcId of None \<Rightarrow> False
                    | Some src \<Rightarrow> hasKeyword src ''Deathtouch'' \<and> \<not> hasKeyword rc ''Indestructible'')
                then destroyPermanent d app s6 i
                else do {
                  s7 \<leftarrow> fireTriggers d app s6 OnDamageDealt ((subjCtx i)\<lparr>sourceId := srcId\<rparr>);
                  if hpMax - damage (liveCard s7 i rc) \<le> lethalAt (rules s7)
                  then (if hasKeyword rc ''Indestructible''
                        then Some (pushLog s7 (name (cardT rc)
                                     @ '' is indestructible and survives lethal damage.''))
                        else destroyPermanent d app s7 i)
                  else Some s7
                }
              }
            }
          })"

definition healPermanent :: "GameState \<Rightarrow> string \<Rightarrow> int \<Rightarrow> GameState" where
  "healPermanent s i n =
     (case getCard s i of
        None \<Rightarrow> s
      | Some rc \<Rightarrow>
          if stats (cardT rc) = None then s
          else pushLog (updCard i (\<lambda>r. r\<lparr>damage := max 0 (damage r - n)\<rparr>) s)
                 (name (cardT rc) @ '' heals '' @ showInt n @ '' (damage now ''
                  @ showInt (max 0 (damage rc - n)) @ '').''))"

definition checkLethalAfterStatChange ::
  "nat \<Rightarrow> (GameState \<Rightarrow> Operation \<Rightarrow> GameState option) \<Rightarrow> GameState \<Rightarrow> string \<Rightarrow> GameState option" where
  "checkLethalAfterStatChange d app s i =
     (case getCard s i of
        None \<Rightarrow> Some s
      | Some rc \<Rightarrow>
          if stats (cardT rc) = None then Some s
          else do {
            hpMax \<leftarrow> hpMaxOf d s rc;
            if hpMax - damage rc \<le> lethalAt (rules s)
            then (if hasKeyword rc ''Indestructible''
                  then Some (pushLog s (name (cardT rc)
                               @ '' is indestructible and survives lethal change.''))
                  else destroyPermanent d app s i)
            else Some s
          })"

definition checkPlayerDeath :: "GameState \<Rightarrow> GameState" where
  "checkPlayerDeath s =
     (if \<not> lifeZeroLoss (rules s) then s
      else fold (\<lambda>p s1. if life p \<le> 0
                         then pushLog (s1\<lparr>winner := Some (if idx p = P0 then P1 else P0)\<rparr>)
                                (pname p @ '' has 0 or less life and loses.'')
                         else s1)
             [fst (players s), snd (players s)] s)"

text \<open>\<open>makeId\<close>: \<open>`C${nextId++}`\<close>.\<close>

definition makeId :: "nat \<Rightarrow> string" where
  "makeId n = CHR ''C'' # showNat n"

definition phaseName :: "Phase \<Rightarrow> string" where
  "phaseName ph = (case ph of UPKEEP \<Rightarrow> ''UPKEEP'' | MAIN \<Rightarrow> ''MAIN'' | COMBAT \<Rightarrow> ''COMBAT''
                            | END \<Rightarrow> ''END'')"

text \<open>\<open>names.join(', ')\<close>.\<close>

primrec joinComma :: "string list \<Rightarrow> string" where
  "joinComma [] = []"
| "joinComma (x # xs) = (if xs = [] then x else x @ '', '' @ joinComma xs)"

definition cardNameOr :: "GameState \<Rightarrow> string \<Rightarrow> string" where
  "cardNameOr s i = (case getCard s i of None \<Rightarrow> ''???''
                     | Some rc \<Rightarrow> if name (cardT rc) = [] then ''???'' else name (cardT rc))"

definition tokenCard :: "int \<Rightarrow> int \<Rightarrow> string list option \<Rightarrow> (string \<times> string) list option \<Rightarrow> Card" where
  "tokenCard atk hp tgs attrs =
     \<lparr>name = ''Token '' @ showInt atk @ ''/'' @ showInt hp,
      cost_generic = 0, cost_colors = None, ctype = Unit, stats = Some (atk, hp),
      card_keywords = Some [], tags = (case tgs of None \<Rightarrow> [] | Some ts \<Rightarrow> ts),
      attributes = attrs, textIR_cast = None, textIR_triggers = None,
      textIR_continuous = None, textIR_replacements = None\<rparr>"

definition newCard :: "string \<Rightarrow> PlayerIndex \<Rightarrow> Card \<Rightarrow> PlayerZone \<Rightarrow> RuntimeCard" where
  "newCard i ow c z =
     \<lparr>rc_id = i, owner = ow, cardT = c, zone = z, damage = 0, turnEntered = None,
      isToken = False, tapped = False, counters = None,
      bonusAtkPerm = None, bonusHpPerm = None, bonusAtkEOT = None, bonusHpEOT = None,
      transformPerm = None, transformEOT = None\<rparr>"

text \<open>
  The registration of a new token by CreateToken: \<open>s.cards.set(id, rc)\<close> under the id of
  \<open>makeId()\<close>, and the id pushed on the battlefield of \<open>pid\<close>.
\<close>

definition addToken :: "GameState \<Rightarrow> PlayerIndex \<Rightarrow> Card \<Rightarrow> GameState" where
  "addToken s pid tc =
     (let i = makeId (nextId s);
          rc = (newCard i pid tc BF)\<lparr>isToken := True, turnEntered := Some (turn_number s)\<rparr>;
          s1 = s\<lparr>nextId := Suc (nextId s), cards := AList.update i rc (cards s)\<rparr>
      in setPlayer pid ((player s1 pid)\<lparr>battlefield := battlefield (player s1 pid) @ [i]\<rparr>) s1)"

text \<open>The Mill loop: \<open>for (i = 0; i < n && library.length > 0; i++)\<close>.\<close>

primrec millLoop ::
  "nat \<Rightarrow> nat \<Rightarrow> (GameState \<Rightarrow> Operation \<Rightarrow> GameState option) \<Rightarrow> PlayerIndex \<Rightarrow> GameState \<times> int \<Rightarrow>
   (GameState \<times> int) option" where
  "millLoop 0 d app pid acc = Some acc"
| "millLoop (Suc k) d app pid acc =
     (let s = fst acc in
      if library (player s pid) = [] then Some acc
      else do {
        s1 \<leftarrow> moveCard d app
                (setPlayer pid ((player s pid)\<lparr>library := butlast (library (player s pid))\<rparr>) s)
                (last (library (player s pid))) GY;
        millLoop k d app pid (s1, snd acc + 1)
      })"

text \<open>The discard loop of EndTurn: \<open>extra\<close> times \<open>p.hand.shift()\<close>, then \<open>moveCard\<close> to GY.\<close>

primrec discardLoop ::
  "nat \<Rightarrow> nat \<Rightarrow> (GameState \<Rightarrow> Operation \<Rightarrow> GameState option) \<Rightarrow> PlayerIndex \<Rightarrow> GameState \<Rightarrow>
   GameState option" where
  "discardLoop 0 d app pid s = Some s"
| "discardLoop (Suc k) d app pid s = do {
     s1 \<leftarrow> (case hand (player s pid) of
              [] \<Rightarrow> Some s
            | i # rest \<Rightarrow> moveCard d app (setPlayer pid ((player s pid)\<lparr>hand := rest\<rparr>) s) i GY);
     discardLoop k d app pid (pushLog s1 (pname (player s1 pid) @ '' discards down to max hand.''))
   }"

text \<open>
  The per-player part of the end step.  \<open>s.cards.get(id)!\<close> followed by a field write
  throws on an id that is not registered.
\<close>

definition setAllOnBattlefield ::
  "(RuntimeCard \<Rightarrow> RuntimeCard) \<Rightarrow> PlayerIndex \<Rightarrow> GameState \<Rightarrow> GameState option" where
  "setAllOnBattlefield f pid s =
     foldM (\<lambda>i s1. case getCard s1 i of None \<Rightarrow> None | Some rc \<Rightarrow> Some (updCard i f s1))
       (battlefield (player s pid)) s"

definition endStepFor ::
  "nat \<Rightarrow> (GameState \<Rightarrow> Operation \<Rightarrow> GameState option) \<Rightarrow> PlayerIndex \<Rightarrow> GameState \<Rightarrow> GameState option" where
  "endStepFor d app pid s = do {
     s1 \<leftarrow> (case maxHandSize (rules s) of
              None \<Rightarrow> Some s
            | Some mx \<Rightarrow>
                if int (length (hand (player s pid))) > mx
                then discardLoop (nat (int (length (hand (player s pid))) - mx)) d app pid s
                else Some s);
     s2 \<leftarrow> (if damagePersistsTurn (rules s1)
            then setAllOnBattlefield (\<lambda>r. r\<lparr>damage := 0\<rparr>) pid s1
            else Some s1);
     setAllOnBattlefield (\<lambda>r. r\<lparr>bonusAtkEOT := Some 0, bonusHpEOT := Some 0, transformEOT := None\<rparr>) pid s2
   }"

text \<open>The body of \<open>applyOperation\<close>, one case per \<open>op.kind\<close>.\<close>

definition applyOperationBody ::
  "nat \<Rightarrow> (GameState \<Rightarrow> Operation \<Rightarrow> GameState option) \<Rightarrow> GameState \<Rightarrow> Operation \<Rightarrow> GameState option" where
  "applyOperationBody d app s op =
     (case op of
        Log msg \<Rightarrow> Some (pushLog s msg)
      | FireTriggers whn ctx \<Rightarrow> fireTriggers d app s whn ctx
      | ResolveEffectOp controller srcId eff targets \<Rightarrow> do {
          (ops, s1) \<leftarrow> planEffect d s controller srcId eff targets;
          applyOps app ops s1
        }
      | SetPhase ph \<Rightarrow> Some (pushLog (s\<lparr>turn_phase := ph\<rparr>) (''Phase -> '' @ phaseName ph))
      | DealDamageMany targets amount srcId \<Rightarrow>
          foldM (\<lambda>i s1. dealDamageToPermanent d app s1 i amount srcId) targets s
      | PreventDamageMany targets amount duration \<Rightarrow>
          Some (pushLog
                  (fold (\<lambda>i s1. if duration = EOT
                                 then s1\<lparr>preventEOT := AList.update i (getOr0 (preventEOT s1) i + amount) (preventEOT s1)\<rparr>
                                 else s1\<lparr>preventPERM := AList.update i (getOr0 (preventPERM s1) i + amount) (preventPERM s1)\<rparr>)
                        targets s)
                  (''Prevent up to '' @ showInt amount @ '' damage ''
                   @ (if duration = EOT then ''until EOT'' else ''permanently'') @ '' to ''
                   @ showNat (length targets) @ '' target(s).''))
      | HealMany targets amount \<Rightarrow> Some (fold (\<lambda>i s1. healPermanent s1 i amount) targets s)
      | OpDraw pid n \<Rightarrow> map_option snd (topDraw d app s pid n)
      | OpMill pid n \<Rightarrow> do {
          (s1, moved) \<leftarrow> millLoop (nat n) d app pid (s, 0);
          Some (pushLog s1 (pname (player s1 pid) @ '' mills '' @ showInt moved @ '' card(s).''))
        }
      | OpLookAtTop pid n0 chs \<Rightarrow>
          (let lib = library (player s pid);
               n = max 0 (min n0 (int (length lib)))
           in if n = 0 then Some (pushLog s (pname (player s pid) @ '' looks at top: empty.''))
              else (let topN = drop (length lib - nat n) lib in
                    case chs of
                      None \<Rightarrow>
                        Some (pushLog s (pname (player s pid) @ '' looks at top '' @ showInt n @ '': ''
                                         @ joinComma (map (cardNameOr s) topN)))
                    | Some (kp, moveRest, rv) \<Rightarrow>
                        (let keepN = max 0 (min kp n);
                             rest = take (nat (n - keepN)) topN;
                             s0 = (if rv
                                   then pushLog s (pname (player s pid) @ '' reveals moving: ''
                                                   @ joinComma (map (cardNameOr s) rest))
                                   else s)
                         in foldM (\<lambda>i s1.
                                     moveCard d app
                                       (setPlayer pid ((player s1 pid)\<lparr>library := removeFirst i (library (player s1 pid))\<rparr>) s1)
                                       i moveRest)
                                  rest s0)))
      | OpCreateToken pid atk hp tgs attrs \<Rightarrow>
          (let tc = tokenCard atk hp tgs attrs;
               i = makeId (nextId s);
               s2 = addToken s pid tc;
               s3 = pushLog s2 (pname (player s2 pid) @ '' creates a token '' @ name tc @ ''.'');
               s4 = incEvent s3 TokenCreated pid
           in do {
             s5 \<leftarrow> fireTriggers d app s4 OnTokenCreated (subjCtx i);
             s6 \<leftarrow> fireTriggers d app s5 OnEnter (subjCtx i);
             fireTriggers d app s6 OnNameMatched (subjCtx i)
           })
      | AddCounterMany targets counter n mx \<Rightarrow>
          Some (fold (\<lambda>i s1.
                        updCard i (\<lambda>r. let cs = (case counters r of None \<Rightarrow> [] | Some c \<Rightarrow> c);
                                            cur = getOr0 cs counter;
                                            nxt = (case mx of None \<Rightarrow> cur + n | Some m \<Rightarrow> min m (cur + n))
                                        in r\<lparr>counters := Some (AList.update counter nxt cs)\<rparr>) s1)
                     targets s)
      | RemoveCounterMany targets counter n \<Rightarrow>
          Some (fold (\<lambda>i s1.
                        updCard i (\<lambda>r. case counters r of
                                          None \<Rightarrow> r
                                        | Some cs \<Rightarrow>
                                            r\<lparr>counters := Some (AList.update counter (max 0 (getOr0 cs counter - n)) cs)\<rparr>) s1)
                     targets s)
      | BuffMany targets atkDelta hpDelta duration \<Rightarrow>
          foldM (\<lambda>i s1.
                   case getCard s1 i of
                     None \<Rightarrow> Some s1
                   | Some rc \<Rightarrow>
                       if stats (cardT rc) = None then Some s1
                       else checkLethalAfterStatChange d app
                              (updCard i (\<lambda>r. if duration = EOT
                                               then r\<lparr>bonusAtkEOT := Some (orElse (bonusAtkEOT r) 0 + atkDelta),
                                                      bonusHpEOT := Some (orElse (bonusHpEOT r) 0 + hpDelta)\<rparr>
                                               else r\<lparr>bonusAtkPerm := Some (orElse (bonusAtkPerm r) 0 + atkDelta),
                                                      bonusHpPerm := Some (orElse (bonusHpPerm r) 0 + hpDelta)\<rparr>) s1)
                              i)
                targets s
      | MoveMany targets to \<Rightarrow> foldM (\<lambda>i s1. moveCard d app s1 i to) targets s
      | ChangeControllerMany targets newOwner duration \<Rightarrow>
          Some (fold (\<lambda>i s1.
                        case getCard s1 i of
                          None \<Rightarrow> s1
                        | Some rc \<Rightarrow>
                            transferControl
                              (if duration = EOT \<and> map_of (controlRevertEOT s1) i = None
                               then s1\<lparr>controlRevertEOT := AList.update i (owner rc) (controlRevertEOT s1)\<rparr>
                               else s1)
                              i newOwner)
                     targets s)
      | TransformMany targets into duration \<Rightarrow>
          foldM (\<lambda>i s1.
                   case getCard s1 i of
                     None \<Rightarrow> Some s1
                   | Some rc \<Rightarrow>
                       if stats (cardT rc) = None then Some s1
                       else checkLethalAfterStatChange d app
                              (updCard i (\<lambda>r. if duration = Some EOT then r\<lparr>transformEOT := Some into\<rparr>
                                               else r\<lparr>transformPerm := Some into\<rparr>) s1)
                              i)
                targets s
      | CopyStatsToMany targets toAtk toHp duration \<Rightarrow>
          foldM (\<lambda>i s1.
                   case getCard s1 i of
                     None \<Rightarrow> Some s1
                   | Some rc \<Rightarrow>
                       if stats (cardT rc) = None then Some s1
                       else checkLethalAfterStatChange d app
                              (updCard i (\<lambda>r. if duration = EOT then r\<lparr>transformEOT := Some (toAtk, toHp)\<rparr>
                                               else r\<lparr>transformPerm := Some (toAtk, toHp)\<rparr>) s1)
                              i)
                targets s
      | TurnStart \<Rightarrow>
          (let act = turn_active s;
               s1 = pushLog (s\<lparr>turn_phase := UPKEEP\<rparr>)
                      (''-- Turn '' @ showInt (turn_number s) @ '' start: '' @ pname (player s act) @ '' --'');
               s2 = fold (\<lambda>i s'. updCard i (\<lambda>r. r\<lparr>tapped := False\<rparr>) s') (battlefield (player s1 act)) s1;
               s3 = s2\<lparr>eventsTurn := [], triggerUseTurn := [], replUseTurn := []\<rparr>
           in do {
             s4 \<leftarrow> fireTriggers d app s3 OnUpkeepStart (noCtx\<lparr>forPlayer := Some (idx (player s3 act))\<rparr>);
             let p = player s4 act;
             let ap1 = (if carryOver (rules s4) then ap p + perTurnGainBase (rules s4)
                        else perTurnGainBase (rules s4));
             let ap2 = (case maxPool (rules s4) of None \<Rightarrow> ap1 | Some m \<Rightarrow> min ap1 m);
             let s5 = setPlayer act (p\<lparr>ap := ap2\<rparr>) s4;
             if drawOnTurnStart (rules s5)
             then map_option snd (topDraw d app s5 (idx (player s5 act)) 1)
             else Some s5
           })
      | EndTurn \<Rightarrow> do {
          s1 \<leftarrow> endStepFor d app P0 s;
          s2 \<leftarrow> endStepFor d app P1 s1;
          let s3 = s2\<lparr>preventEOT := []\<rparr>;
          let s4 = fold (\<lambda>(i, prevOwner) s'. transferControl s' i prevOwner) (controlRevertEOT s3) s3;
          Some (s4\<lparr>controlRevertEOT := [],
                   turn_active := opp (turn_active s4),
                   turn_number := turn_number s4 + 1,
                   turn_phase := UPKEEP\<rparr>)
        }
      | IncTriggerUsage key p \<Rightarrow>
          Some (if p = TURN
                then s\<lparr>triggerUseTurn := AList.update key (getOr0 (triggerUseTurn s) key + 1) (triggerUseTurn s)\<rparr>
                else s\<lparr>triggerUseGame := AList.update key (getOr0 (triggerUseGame s) key + 1) (triggerUseGame s)\<rparr>)
      | IncReplacementUsage key p \<Rightarrow>
          Some (if p = TURN
                then s\<lparr>replUseTurn := AList.update key (getOr0 (replUseTurn s) key + 1) (replUseTurn s)\<rparr>
                else s\<lparr>replUseGame := AList.update key (getOr0 (replUseGame s) key + 1) (replUseGame s)\<rparr>)
      | IncEvent ev who \<Rightarrow> Some (incEvent s ev who)
      | SpendAP pid amount \<Rightarrow>
          Some (setPlayer pid ((player s pid)\<lparr>ap := max 0 (ap (player s pid) - amount)\<rparr>) s)
      | SpendColors pid cols \<Rightarrow>
          Some (setPlayer pid
                  ((player s pid)\<lparr>colorPool :=
                      Some (fold (\<lambda>(c, n) pool. AList.update c (max 0 (getOr0 pool c - n)) pool) cols
                              (case colorPool (player s pid) of None \<Rightarrow> [] | Some pl \<Rightarrow> pl))\<rparr>) s)
      | SetTurnEntered i t \<Rightarrow> Some (updCard i (\<lambda>r. r\<lparr>turnEntered := Some t\<rparr>) s)
      | SetTapped i b \<Rightarrow> Some (updCard i (\<lambda>r. r\<lparr>tapped := b\<rparr>) s)
      | DamagePlayer pid amount srcId \<Rightarrow>
          (let p1 = (player s pid)\<lparr>life := life (player s pid) - amount\<rparr>;
               s1 = pushLog (setPlayer pid p1 s)
                      (pname p1 @ '' takes '' @ showInt amount @ '' damage. (life '' @ showInt (life p1) @ '')'');
               s2 = lifelinkGain s1 srcId amount
           in do {
             s3 \<leftarrow> fireTriggers d app s2 OnDamageDealt
                     (noCtx\<lparr>subjectPlayer := Some pid, sourceId := srcId\<rparr>);
             Some (checkPlayerDeath s3)
           })
      | CheckPlayers \<Rightarrow> Some (checkPlayerDeath s))"

primrec applyOperation :: "nat \<Rightarrow> GameState \<Rightarrow> Operation \<Rightarrow> GameState option" where
  "applyOperation 0 s op = None"
| "applyOperation (Suc d) s op = applyOperationBody d (applyOperation d) s op"

section \<open>Setup, turn flow and actions\<close>

text \<open>\<open>LoadedDeck\<close>: the optional name and the list of runtime cards.\<close>

type_synonym LoadedDeck = "string option \<times> RuntimeCard list"

text \<open>
  \<open>loadDeck\<close> draws its ids from the module counter: it takes the counter and returns the
  new one.  \<open>count\<close> is an integer here, so \<open>Math.floor\<close> is the identity.
\<close>

definition loadDeck ::
  "string option \<times> (Card \<times> int) list \<Rightarrow> PlayerIndex \<Rightarrow> nat \<Rightarrow> LoadedDeck \<times> nat" where
  "loadDeck raw ow nid =
     (let (lst, nid') =
            fold (\<lambda>(c, cnt) (acc, k).
                    (acc @ map (\<lambda>j. newCard (makeId (k + j)) ow c LIB) [0..<nat (max 0 cnt)],
                     k + nat (max 0 cnt)))
                 (snd raw) ([], nid)
      in ((fst raw, lst), nid'))"

text \<open>
  \<open>shuffle(arr, rng)\<close>: \<open>for (i = arr.length - 1; i > 0; i--)\<close> swap \<open>arr[i]\<close> with
  \<open>arr[Math.floor(rng() * (i + 1))]\<close>.  The generator is a step function on its hidden
  state; its results are rationals in \<open>[0, 1)\<close>, for which the index is within the array.
\<close>

definition swap :: "nat \<Rightarrow> nat \<Rightarrow> 'a list \<Rightarrow> 'a list" where
  "swap i j xs = (if i < length xs \<and> j < length xs then xs[i := xs ! j, j := xs ! i] else xs)"

primrec shuffleLoop :: "nat \<Rightarrow> ('g \<Rightarrow> rat \<times> 'g) \<Rightarrow> 'a list \<times> 'g \<Rightarrow> 'a list \<times> 'g" where
  "shuffleLoop 0 rng acc = acc"
| "shuffleLoop (Suc i) rng acc =
     (let (r, g) = rng (snd acc);
          j = nat \<lfloor>r * of_nat (Suc i + 1)\<rfloor>
      in shuffleLoop i rng (swap (Suc i) j (fst acc), g))"

definition shuffle :: "('g \<Rightarrow> rat \<times> 'g) \<Rightarrow> 'a list \<Rightarrow> 'g \<Rightarrow> 'a list \<times> 'g" where
  "shuffle rng arr g = shuffleLoop (length arr - 1) rng (arr, g)"

text \<open>
  The seeded generator of \<open>initGame\<close> on its 32-bit state: \<open><<\<close> and \<open>^\<close> work on the
  32 bits, \<open>>>\<close> is the sign-propagating shift of the int32 value, and the result is
  \<open>state / 2^32\<close>.
\<close>

definition xorshift :: "32 word \<Rightarrow> rat \<times> 32 word" where
  "xorshift st0 =
     (let st1 = xor st0 (push_bit 13 st0);
          st2 = xor st1 (signed_drop_bit 17 st1);
          st3 = xor st2 (push_bit 5 st2)
      in (of_int (uint st3) / 4294967296, st3))"

text \<open>\<open>analyzeRules\<close>: the checks the rules type leaves open, as (level is error, code).\<close>

definition analyzeRules :: "GameRules \<Rightarrow> (bool \<times> string) list" where
  "analyzeRules r =
     (if phases r = [] then [(True, ''TURN_PHASES_EMPTY'')] else []) @
     (if startingHand r \<le> 0 then [(True, ''START_HAND_ZERO'')] else []) @
     (if minDeckSize r < startingHand r then [(False, ''DECK_LT_HAND'')] else []) @
     (case maxHandSize r of None \<Rightarrow> []
      | Some m \<Rightarrow> if m < startingHand r then [(False, ''HAND_MAX_LT_START'')] else []) @
     (if lethalAt r > 0 then [(False, ''LETHAL_POSITIVE'')] else []) @
     (if \<not> canBlock r \<and> attackerTargets r = UnitOnly then [(False, ''NO_BLOCK_UNIT_ONLY'')] else []) @
     (if perTurnGainBase r < 0 then [(True, ''RES_GAIN_NEG'')] else []) @
     (if payment r = GenericAndColors \<and> colors_policy r \<noteq> InGamePayment
      then [(True, ''COLOR_POLICY_MISMATCH'')] else []) @
     (if payment r = GenericOnly \<and> colors_policy r = InGamePayment
      then [(False, ''COLOR_UNUSED'')] else []) @
     (if colors_symbols r = [] then [(False, ''COLOR_SYMBOLS_EMPTY'')] else []) @
     (if \<not> lifeZeroLoss r \<and> \<not> drawFromEmptyLoss r then [(False, ''WIN_CONDS_WEAK'')] else [])"

definition newPlayer :: "PlayerIndex \<Rightarrow> string \<Rightarrow> int \<Rightarrow> string list \<Rightarrow> PlayerState" where
  "newPlayer i nm lf lib =
     \<lparr>idx = i, pname = nm, life = lf, ap = 0, colorPool = Some [], library = lib, hand = [],
      battlefield = [], graveyard = [], exile = [], mulligansTaken = 0\<rparr>"

definition nameOr :: "string option \<Rightarrow> string \<Rightarrow> string" where
  "nameOr n dflt = (case n of None \<Rightarrow> dflt | Some x \<Rightarrow> if x = [] then dflt else x)"

text \<open>
  \<open>initGame(deckA, deckB, seed)\<close>; \<open>nid\<close> is the value of the module counter \<open>nextId\<close> at
  the call.
\<close>

definition initGame :: "nat \<Rightarrow> LoadedDeck \<Rightarrow> LoadedDeck \<Rightarrow> int \<Rightarrow> nat \<Rightarrow> GameState option" where
  "initGame d deckA deckB seed nid =
     (let rls = CORE_RULES;
          st0 = (word_of_int seed :: 32 word);
          cs = fold (\<lambda>rc m. AList.update (rc_id rc) rc m) (snd deckA @ snd deckB) [];
          (lib0, st1) = shuffle xorshift (map rc_id (snd deckA)) st0;
          (lib1, st2) = shuffle xorshift (map rc_id (snd deckB)) st1;
          s = \<lparr>rules = rls,
               players = (newPlayer P0 (nameOr (fst deckA) ''P1'') (startingLife rls) lib0,
                          newPlayer P1 (nameOr (fst deckB) ''P2'') (startingLife rls) lib1),
               cards = cs, turn_number = 1, turn_active = P0, turn_phase = UPKEEP,
               stack = [], winner = None, preventEOT = [], preventPERM = [],
               controlRevertEOT = [], eventsTurn = [], eventsGame = [],
               triggerUseTurn = [], triggerUseGame = [], replUseTurn = [], replUseGame = [],
               log = [], nextId = nid\<rparr>;
          analysis = analyzeRules rls;
          errs = filter fst analysis;
          warns = filter (\<lambda>x. \<not> fst x) analysis;
          s1 = (if errs \<noteq> [] then pushLog s (''[RulesVerifier] Errors: '' @ joinComma (map snd errs)) else s);
          s2 = (if warns \<noteq> [] then pushLog s1 (''[RulesVerifier] Warnings: '' @ joinComma (map snd warns)) else s1)
      in do {
        (b0, s3) \<leftarrow> topDraw d (applyOperation d) s2 P0 (startingHand rls);
        (b1, s4) \<leftarrow> topDraw d (applyOperation d) s3 P1 (startingHand rls);
        Some s4
      })"

definition resolveEffect ::
  "nat \<Rightarrow> GameState \<Rightarrow> PlayerIndex \<Rightarrow> string option \<Rightarrow> Effect \<Rightarrow> string list option \<Rightarrow> GameState option" where
  "resolveEffect d s controller srcId eff chosenTargets = do {
     (ops, s1) \<leftarrow> planEffect d s controller srcId eff chosenTargets;
     applyOps (applyOperation d) ops s1
   }"

definition startTurn :: "nat \<Rightarrow> GameState \<Rightarrow> GameState option" where
  "startTurn d s = applyOps (applyOperation d) [TurnStart] s"

text \<open>\<open>phases.indexOf(s.turn.phase)\<close>: the first position, or none.\<close>

definition indexOf :: "'a list \<Rightarrow> 'a \<Rightarrow> nat option" where
  "indexOf xs x = (if x \<in> set xs then Some (length (takeWhile (\<lambda>y. y \<noteq> x) xs)) else None)"

definition advancePhase :: "nat \<Rightarrow> GameState \<Rightarrow> GameState option" where
  "advancePhase d s =
     (case indexOf (phases (rules s)) (turn_phase s) of
        None \<Rightarrow> Some s
      | Some i \<Rightarrow>
          if Suc i = length (phases (rules s)) then Some s
          else applyOperation d s (SetPhase (phases (rules s) ! Suc i)))"

definition endTurn :: "nat \<Rightarrow> GameState \<Rightarrow> GameState option" where
  "endTurn d s = applyOperation d s EndTurn"

text \<open>The result \<open>{ ok: boolean; reason?: string }\<close> of the check operations.\<close>

datatype Outcome = Ok | Fail string

definition tallyColors :: "string list \<Rightarrow> (string \<times> int) list" where
  "tallyColors cols = fold (\<lambda>c need. AList.update c (getOr0 need c + 1) need) cols []"

text \<open>\<open>canPayColoredCost\<close>: the colors to spend, or the failure reason.\<close>

definition canPayColoredCost :: "GameState \<Rightarrow> PlayerIndex \<Rightarrow> string list \<Rightarrow> string + (string \<times> int) list" where
  "canPayColoredCost s pid cols =
     (if cols = [] then Inr []
      else if payment (rules s) \<noteq> GenericAndColors then Inr []
      else if colors_policy (rules s) \<noteq> InGamePayment then Inr []
      else (let need = tallyColors cols;
                pool = (case colorPool (player s pid) of None \<Rightarrow> [] | Some pl \<Rightarrow> pl);
                lacking = map (\<lambda>(c, n). c @ ''x'' @ showInt n)
                              (filter (\<lambda>(c, n). getOr0 pool c < n) need)
            in if lacking \<noteq> [] then Inl (''Not enough colors ('' @ joinComma lacking @ '')'')
               else Inr need))"

definition castCost :: "nat \<Rightarrow> GameState \<Rightarrow> PlayerIndex \<Rightarrow> RuntimeCard \<Rightarrow> int option" where
  "castCost d s pid rc =
     map_option (max 0)
       (applyCostModifiers (getEffectiveBaseStats d s) s pid (rc_id rc) (cost_generic (cardT rc)))"

definition canCastFromHand :: "nat \<Rightarrow> GameState \<Rightarrow> PlayerIndex \<Rightarrow> int \<Rightarrow> Outcome option" where
  "canCastFromHand d s pid handIndex =
     (let p = player s pid in
      if turn_active s \<noteq> pid then Some (Fail ''Not your turn'')
      else if turn_phase s \<noteq> MAIN then Some (Fail ''Can cast only in MAIN phase'')
      else if handIndex < 0 \<or> handIndex \<ge> int (length (hand p)) then Some (Fail ''Invalid hand index'')
      else do {
        rc \<leftarrow> getCard s (hand p ! nat handIndex);
        cost \<leftarrow> castCost d s pid rc;
        if ap p < cost then Some (Fail ''Not enough AP'')
        else (case canPayColoredCost s pid
                     (case cost_colors (cardT rc) of None \<Rightarrow> [] | Some cs \<Rightarrow> cs) of
                Inl reason \<Rightarrow> Some (Fail reason)
              | Inr toSpend \<Rightarrow> Some Ok)
      })"

definition castFromHand ::
  "nat \<Rightarrow> GameState \<Rightarrow> PlayerIndex \<Rightarrow> int \<Rightarrow> string list option \<Rightarrow> (Outcome \<times> GameState) option" where
  "castFromHand d s pid handIndex chosenTargets =
     (let p = player s pid in
      if handIndex < 0 \<or> handIndex \<ge> int (length (hand p)) then Some (Fail ''Invalid hand index'', s)
      else do {
        let i = hand p ! nat handIndex;
        rc \<leftarrow> getCard s i;
        cost \<leftarrow> castCost d s pid rc;
        if ap p < cost then Some (Fail ''Not enough AP'', s)
        else (case canPayColoredCost s pid
                     (case cost_colors (cardT rc) of None \<Rightarrow> [] | Some cs \<Rightarrow> cs) of
                Inl reason \<Rightarrow> Some (Fail reason, s)
              | Inr toSpend \<Rightarrow> do {
                  let ops =
                    [SpendAP pid cost] @
                    (if toSpend \<noteq> [] then [SpendColors pid toSpend] else []) @
                    [Log (pname p @ '' casts '' @ name (cardT rc) @ '' (cost '' @ showInt cost
                          @ '', AP '' @ showInt (ap p - cost) @ '').''),
                     IncEvent SpellCast pid,
                     FireTriggers OnCast (subjCtx i),
                     FireTriggers OnNameMatched (subjCtx i)] @
                    (if ctype (cardT rc) = Unit \<or> ctype (cardT rc) = Artifact \<or> ctype (cardT rc) = Enchantment
                     then [MoveMany [i] BF, SetTurnEntered i (turn_number s)]
                     else (case textIR_cast (cardT rc) of
                             None \<Rightarrow> []
                           | Some eff \<Rightarrow> [ResolveEffectOp pid (Some i) eff chosenTargets])
                          @ [MoveMany [i] GY]) @
                    [CheckPlayers];
                  s1 \<leftarrow> applyOps (applyOperation d) ops s;
                  Some (Ok, s1)
                })
      })"

definition listBattlefield :: "GameState \<Rightarrow> PlayerIndex \<Rightarrow> RuntimeCard list" where
  "listBattlefield s pid = List.map_filter (getCard s) (battlefield (player s pid))"

definition canAttack :: "GameState \<Rightarrow> PlayerIndex \<Rightarrow> int \<Rightarrow> Outcome" where
  "canAttack s pid bfIndex =
     (let units = listBattlefield s pid in
      if bfIndex < 0 \<or> bfIndex \<ge> int (length units) then Fail ''Invalid unit index''
      else (let rc = units ! nat bfIndex in
            if stats (cardT rc) = None then Fail ''Not a unit''
            else if tapped rc then Fail ''Tapped''
            else if summoningSickness (rules s) \<and> turnEntered rc = Some (turn_number s)
                    \<and> \<not> hasKeyword rc ''Haste''
            then Fail ''Summoning sickness''
            else if hasKeyword rc ''Defender'' then Fail ''Defender (can't attack)''
            else Ok))"

datatype AttackTarget = TargetPlayer | TargetUnit int

definition attack ::
  "nat \<Rightarrow> GameState \<Rightarrow> PlayerIndex \<Rightarrow> int \<Rightarrow> AttackTarget \<Rightarrow> (Outcome \<times> GameState) option" where
  "attack d s pid bfIndex target =
     (if turn_active s \<noteq> pid then Some (Fail ''Not your turn'', s)
      else if turn_phase s \<noteq> COMBAT then Some (Fail ''Attacks only in COMBAT phase'', s)
      else (case canAttack s pid bfIndex of
              Fail reason \<Rightarrow> Some (Fail reason, s)
            | Ok \<Rightarrow>
                (let attacker = listBattlefield s pid ! nat bfIndex;
                     oppId = opp pid
                 in if attackerTargets (rules s) = PlayerOnly \<and> target \<noteq> TargetPlayer
                    then Some (Fail ''Must attack player'', s)
                    else if attackerTargets (rules s) = UnitOnly \<and> target = TargetPlayer
                    then Some (Fail ''Must attack unit'', s)
                    else do {
                      aStats \<leftarrow> getEffectiveBaseStats d s attacker;
                      let dmg = fst (effStat attacker aStats);
                      let ops0 =
                        (if hasKeyword attacker ''Vigilance'' then [] else [SetTapped (rc_id attacker) True])
                        @ [FireTriggers OnAttack (subjCtx (rc_id attacker))];
                      case target of
                        TargetPlayer \<Rightarrow> do {
                          s1 \<leftarrow> applyOps (applyOperation d)
                                  (ops0 @
                                   [Log (pname (player s pid) @ [CHR 0x27] @ ''s '' @ name (cardT attacker)
                                         @ '' hits '' @ pname (player s oppId) @ '' for '' @ showInt dmg
                                         @ ''. (life '' @ showInt (life (player s oppId) - dmg) @ '')''),
                                    DamagePlayer oppId dmg (Some (rc_id attacker))]) s;
                          Some (Ok, s1)
                        }
                      | TargetUnit ti \<Rightarrow>
                          (let oppUnits = listBattlefield s oppId in
                           if ti < 0 \<or> ti \<ge> int (length oppUnits)
                           then Some (Fail ''Invalid target unit'', s)
                           else do {
                             s1 \<leftarrow> applyOps (applyOperation d)
                                     (ops0 @ [DealDamageMany [rc_id (oppUnits ! nat ti)] dmg
                                                (Some (rc_id attacker))]) s;
                             Some (Ok, s1)
                           })
                    })))"

text \<open>The bottom loop of the mulligan: \<open>p.hand.pop()\<close>, \<open>p.library.unshift(id)\<close>, zone to LIB.\<close>

primrec bottomLoop :: "nat \<Rightarrow> PlayerIndex \<Rightarrow> GameState \<Rightarrow> GameState option" where
  "bottomLoop 0 pid s = Some s"
| "bottomLoop (Suc k) pid s =
     (let p = player s pid in
      if hand p = [] then None
      else (let i = last (hand p);
                s1 = setPlayer pid (p\<lparr>hand := butlast (hand p), library := i # library p\<rparr>) s
            in case getCard s1 i of
                 None \<Rightarrow> None
               | Some rc \<Rightarrow> bottomLoop k pid (updCard i (\<lambda>r. r\<lparr>zone := LIB\<rparr>) s1)))"

text \<open>
  \<open>mulliganLondon\<close> shuffles with \<open>Math.random\<close>: the global generator is the step function
  \<open>rnd\<close> on its hidden state \<open>g\<close>, supplied by the environment and returned advanced.
\<close>

definition mulliganLondon ::
  "nat \<Rightarrow> ('g \<Rightarrow> rat \<times> 'g) \<Rightarrow> 'g \<Rightarrow> GameState \<Rightarrow> PlayerIndex \<Rightarrow> (Outcome \<times> GameState \<times> 'g) option" where
  "mulliganLondon d rnd g s pid =
     (case mulligan (rules s) of
        London bottomCount \<Rightarrow>
          (let p = player s pid;
               (lib, g1) = shuffle rnd (library p @ rev (hand p)) g;
               s1 = setPlayer pid (p\<lparr>hand := [], library := lib\<rparr>) s
           in do {
             (b, s2) \<leftarrow> topDraw d (applyOperation d) s1 pid (startingHand (rules s));
             let bottom = min bottomCount (int (length (hand (player s2 pid))));
             s3 \<leftarrow> bottomLoop (nat bottom) pid s2;
             let p3 = (player s3 pid)\<lparr>mulligansTaken := mulligansTaken (player s3 pid) + 1\<rparr>;
             Some (Ok,
                   pushLog (setPlayer pid p3 s3)
                     (pname p3 @ '' mulligans and bottoms '' @ showInt bottom @ ''.''),
                   g1)
           })
      | _ \<Rightarrow> Some (Fail ''Mulligan rule is not London'', s, g))"

section \<open>Example cards and states\<close>

definition plainCard :: "string \<Rightarrow> CardType \<Rightarrow> (int \<times> int) option \<Rightarrow> Card" where
  "plainCard nm ty st =
     \<lparr>name = nm, cost_generic = 0, cost_colors = Some [], ctype = ty, stats = st,
      card_keywords = Some [], tags = [], attributes = Some [], textIR_cast = None,
      textIR_triggers = None, textIR_continuous = None, textIR_replacements = None\<rparr>"

text \<open>\<open>mkUnit(name, atk, hp)\<close> of the test harness.\<close>

definition mkUnit :: "string \<Rightarrow> int \<Rightarrow> int \<Rightarrow> Card" where
  "mkUnit nm atk hp = plainCard nm Unit (Some (atk, hp))"

text \<open>\<open>emptyGameState(CORE_RULES)\<close> of the test harness, with the id counter at \<open>nid\<close>.\<close>

definition emptyGameState :: "nat \<Rightarrow> GameState" where
  "emptyGameState nid =
     \<lparr>rules = CORE_RULES,
      players = ((newPlayer P0 ''P0'' 20 [])\<lparr>colorPool := None\<rparr>,
                 (newPlayer P1 ''P1'' 20 [])\<lparr>colorPool := None\<rparr>),
      cards = [], turn_number = 1, turn_active = P0, turn_phase = MAIN,
      stack = [], winner = None, preventEOT = [], preventPERM = [],
      controlRevertEOT = [], eventsTurn = [], eventsGame = [],
      triggerUseTurn = [], triggerUseGame = [], replUseTurn = [], replUseGame = [],
      log = [], nextId = nid\<rparr>"

text \<open>Registering a card and pushing its id on the zone array of its owner, as \<open>buildState\<close> does.\<close>

definition putCard :: "RuntimeCard \<Rightarrow> GameState \<Rightarrow> GameState" where
  "putCard rc s =
     setPlayer (owner rc) (pushZone (zone rc) (rc_id rc) (player s (owner rc)))
       (s\<lparr>cards := AList.update (rc_id rc) rc (cards s)\<rparr>)"

definition anySel :: Selector where
  "anySel = \<lparr>sel_owner = None, sel_zone = None, sel_max = None, sel_filter = None\<rparr>"

text \<open>A generator that returns the numbers of a list, one per call, then 0.\<close>

definition nextOf :: "rat list \<Rightarrow> rat \<times> rat list" where
  "nextOf g = (case g of [] \<Rightarrow> (0, []) | r # rs \<Rightarrow> (r, rs))"

text \<open>Player 0 with a library of six units, ids \<open>C1\<close> to \<open>C6\<close>, bottom to top.\<close>

definition sixCards :: GameState where
  "sixCards =
     fold (\<lambda>i s. putCard (newCard (makeId i) P0 (mkUnit ''Goblin'' 1 1) LIB) s) [1..<7]
       (emptyGameState 7)"

text \<open>Player 1 holds the unit \<open>C1\<close> (cost 0) in hand; it is player 0's MAIN phase.\<close>

definition goblinInHand :: GameState where
  "goblinInHand = putCard (newCard ''C1'' P1 (mkUnit ''Goblin'' 1 1) HAND) (emptyGameState 2)"


section \<open>Relations between states, for the statements\<close>

text \<open>\<open>s'\<close> is \<open>s\<close> with lines appended to the log and nothing else changed.\<close>

definition logExt :: "GameState \<Rightarrow> GameState \<Rightarrow> bool" where
  "logExt s s' = (\<exists>l. s' = s\<lparr>log := log s @ l\<rparr>)"



section \<open>Casting outside the turn or the phase (C4)\<close>

text \<open>
  C4, at the failing input.  It is player 0's turn; player 1 holds a unit of cost 0.
  \<open>canCastFromHand\<close> refuses the cast for player 1, and in player 1's own UPKEEP phase,
  but \<open>castFromHand\<close> checks neither the active player nor the phase: it returns ok and
  moves the card to the battlefield.
\<close>

theorem castFromHand_checks_neither_turn_nor_phase:
  "turn_active goblinInHand = P0 \<and>
   canCastFromHand 2 goblinInHand P1 0 = Some (Fail ''Not your turn'') \<and>
   map_option (\<lambda>(oc, s'). (oc, hand (player s' P1), battlefield (player s' P1)))
     (castFromHand 2 goblinInHand P1 0 None) = Some (Ok, [], [''C1'']) \<and>
   canCastFromHand 2 (goblinInHand\<lparr>turn_active := P1, turn_phase := UPKEEP\<rparr>) P1 0
     = Some (Fail ''Can cast only in MAIN phase'') \<and>
   map_option (\<lambda>(oc, s'). (oc, hand (player s' P1), battlefield (player s' P1)))
     (castFromHand 2 (goblinInHand\<lparr>turn_active := P1, turn_phase := UPKEEP\<rparr>) P1 0 None)
     = Some (Ok, [], [''C1''])"
  by code_simp

section \<open>The planner changes nothing but the log\<close>

lemma logExt_refl: "logExt s s"
  unfolding logExt_def by (rule exI[of _ "[]"]) simp

lemma logExt_trans: "logExt s s1 \<Longrightarrow> logExt s1 s2 \<Longrightarrow> logExt s s2"
proof -
  assume "logExt s s1" "logExt s1 s2"
  then obtain l1 l2 where "s1 = s\<lparr>log := log s @ l1\<rparr>" "s2 = s1\<lparr>log := log s1 @ l2\<rparr>"
    unfolding logExt_def by blast
  then have "s2 = s\<lparr>log := log s @ (l1 @ l2)\<rparr>" by simp
  then show ?thesis unfolding logExt_def by blast
qed

lemma logExt_pushLog: "logExt s (pushLog s m)"
  unfolding logExt_def pushLog_def by blast

lemma selectTargets_frame: "selectTargets G s c sel = Some (ids, s') \<Longrightarrow> logExt s s'"
  unfolding selectTargets_def
  by (auto simp: Let_def logExt_refl logExt_pushLog split: option.splits Zone.splits)

lemma legalTargets_frame: "legalTargets G s c src sel ct = Some (ids, s') \<Longrightarrow> logExt s s'"
  unfolding legalTargets_def
  by (auto simp: logExt_refl split: option.splits list.splits dest: selectTargets_frame)


lemma seqPlan_frame:
  "\<forall>f\<in>set fs. \<forall>s ops s'. f s = Some (ops, s') \<longrightarrow> logExt s s' \<Longrightarrow>
   seqPlan fs acc = Some (ops, s') \<Longrightarrow> logExt (snd acc) s'"
proof (induction fs arbitrary: acc)
  case Nil
  then show ?case by (simp add: logExt_refl)
next
  case (Cons f fs)
  from Cons.prems(2) obtain o1 s1 where f: "f (snd acc) = Some (o1, s1)"
    and rest: "seqPlan fs (fst acc @ o1, s1) = Some (ops, s')"
    by (auto split: option.splits)
  have "logExt (snd acc) s1" using Cons.prems(1) f by simp
  moreover have "logExt s1 s'" using Cons.IH[of "(fst acc @ o1, s1)"] Cons.prems(1) rest by simp
  ultimately show ?case by (rule logExt_trans)
qed

lemma repeatPlan_frame:
  "\<forall>s ops s'. f s = Some (ops, s') \<longrightarrow> logExt s s' \<Longrightarrow>
   repeatPlan n f acc = Some (ops, s') \<Longrightarrow> logExt (snd acc) s'"
proof (induction n arbitrary: acc)
  case 0
  then show ?case by (simp add: logExt_refl)
next
  case (Suc n)
  from Suc.prems(2) obtain o1 s1 where f: "f (snd acc) = Some (o1, s1)"
    and rest: "repeatPlan n f (fst acc @ o1, s1) = Some (ops, s')"
    by (auto split: option.splits)
  have "logExt (snd acc) s1" using Suc.prems(1) f by simp
  moreover have "logExt s1 s'" using Suc.IH[of "(fst acc @ o1, s1)"] Suc.prems(1) rest by simp
  ultimately show ?case by (rule logExt_trans)
qed

lemma casePlan_frame:
  "\<forall>b\<in>set brs. \<forall>s ops s'. snd b s = Some (ops, s') \<longrightarrow> logExt s s' \<Longrightarrow>
   \<forall>f s ops s'. el = Some f \<longrightarrow> f s = Some (ops, s') \<longrightarrow> logExt s s' \<Longrightarrow>
   casePlan holds brs el s = Some (ops, s') \<Longrightarrow> logExt s s'"
proof (induction brs)
  case Nil
  then show ?case by (auto simp: logExt_refl split: option.splits)
next
  case (Cons b brs)
  from Cons.prems(3) obtain h where h: "holds (fst b) = Some h"
    by (auto split: option.splits)
  show ?case
  proof (cases h)
    case True
    then show ?thesis using Cons.prems(1) Cons.prems(3) h by simp
  next
    case False
    then have "casePlan holds brs el s = Some (ops, s')" using Cons.prems(3) h by simp
    then show ?thesis using Cons.IH Cons.prems(1,2) by simp
  qed
qed

lemma foldM_frame:
  "\<forall>x\<in>set xs. \<forall>acc ops s'. f x acc = Some (ops, s') \<longrightarrow> logExt (snd acc) s' \<Longrightarrow>
   foldM f xs acc = Some (ops, s') \<Longrightarrow> logExt (snd acc) s'"
proof (induction xs arbitrary: acc)
  case Nil
  then show ?case by (simp add: logExt_refl)
next
  case (Cons x xs)
  from Cons.prems(2) obtain acc1 where f: "f x acc = Some acc1"
    and rest: "foldM f xs acc1 = Some (ops, s')"
    by (auto split: option.splits)
  have "logExt (snd acc) (snd acc1)" using Cons.prems(1) f by (cases acc; cases acc1) auto
  moreover have "logExt (snd acc1) s'" using Cons.IH[of acc1] Cons.prems(1) rest by simp
  ultimately show ?case by (rule logExt_trans)
qed

lemma planEffect_frame:
  "planEffect d s c src e ct = Some (ops, s') \<Longrightarrow> logExt s s'"
proof (induction e arbitrary: s src ct ops s')
  case (Conditional cond th el)
  then show ?case
    by (auto simp: logExt_refl split: option.splits if_splits)
next
  case (Case branches el)
  show ?case
  proof (rule casePlan_frame[OF _ _ Case.prems[simplified]])
    show "\<forall>b\<in>set (map (map_prod id (\<lambda>e s1. planEffect d s1 c src e ct)) branches).
            \<forall>s ops s'. snd b s = Some (ops, s') \<longrightarrow> logExt s s'"
    proof (intro ballI allI impI)
      fix b s ops s'
      assume b: "b \<in> set (map (map_prod id (\<lambda>e s1. planEffect d s1 c src e ct)) branches)"
        and r: "snd b s = Some (ops, s')"
      then obtain w e where "(w, e) \<in> set branches" "snd b = (\<lambda>s1. planEffect d s1 c src e ct)"
        by auto
      then show "logExt s s'" using Case.IH(1)[of "(w, e)" e s src ct ops s'] r by (simp add: snds.simps)
    qed
    show "\<forall>f s ops s'. map_option (\<lambda>e s1. planEffect d s1 c src e ct) el = Some f \<longrightarrow>
            f s = Some (ops, s') \<longrightarrow> logExt s s'"
      using Case.IH(2) by auto
  qed
next
  case (ForEach among mt body)
  from ForEach.prems obtain sel s1 where sel: "selectTargets (getEffectiveBaseStats d s) s c among = Some (sel, s1)"
    and fm: "foldM (\<lambda>tid acc. case planEffect d (snd acc) c (Some tid) body (Some [tid]) of
                     None \<Rightarrow> None | Some (ops, s2) \<Rightarrow> Some (fst acc @ ops, s2))
                (slice0 sel mt) ([], s1) = Some (ops, s')"
    by (auto split: option.splits)
  have "logExt (snd ([]::Operation list, s1)) s'"
  proof (rule foldM_frame[OF _ fm])
    show "\<forall>x\<in>set (slice0 sel mt). \<forall>acc ops s'.
       (case planEffect d (snd acc) c (Some x) body (Some [x]) of None \<Rightarrow> None
        | Some (ops, s2) \<Rightarrow> Some (fst acc @ ops, s2)) = Some (ops, s') \<longrightarrow> logExt (snd acc) s'"
      using ForEach.IH by (auto split: option.splits)
  qed
  then show ?case using selectTargets_frame[OF sel] logExt_trans by auto
next
  case (Sequence steps)
  have "logExt (snd ([]::Operation list, s)) s'"
  proof (rule seqPlan_frame[OF _ Sequence.prems[simplified]])
    show "\<forall>f\<in>set (map (\<lambda>e s1. planEffect d s1 c src e ct) steps).
            \<forall>s ops s'. f s = Some (ops, s') \<longrightarrow> logExt s s'"
      using Sequence.IH by auto
  qed
  then show ?case by simp
next
  case (Repeat n body)
  have "logExt (snd ([]::Operation list, s)) s'"
  proof (rule repeatPlan_frame[OF _ Repeat.prems[simplified]])
    show "\<forall>s ops s'. planEffect d s c src body ct = Some (ops, s') \<longrightarrow> logExt s s'"
      using Repeat.IH by blast
  qed
  then show ?case by simp
next
  case (CopyStats frm to ca ch dur)
  then show ?case
    apply (auto simp: Let_def logExt_refl logExt_pushLog split: option.splits if_splits
        dest!: selectTargets_frame)
    by (blast intro: logExt_trans)+
next
  case (Move target to)
  then show ?case
    by (cases to) (auto simp: logExt_refl split: option.splits if_splits dest: legalTargets_frame)
qed (auto simp: logExt_refl split: option.splits if_splits dest: legalTargets_frame)

section \<open>The mulligan is not seeded (C6)\<close>

text \<open>
  C6, at the failing input.  \<open>mulliganLondon\<close> shuffles with \<open>Math.random\<close>, which no seed
  controls: from the same state, two runs whose generator returns different numbers end
  with different hands and libraries.
\<close>

theorem mulliganLondon_depends_on_Math_random:
  "map_option (\<lambda>(oc, s', g). (hand (player s' P0), library (player s' P0)))
     (mulliganLondon 2 nextOf [0, 0, 0, 0, 0] sixCards P0)
     = Some ([''C1'', ''C6'', ''C5'', ''C4''], [''C3'', ''C2'']) \<and>
   map_option (\<lambda>(oc, s', g). (hand (player s' P0), library (player s' P0)))
     (mulliganLondon 2 nextOf [1/2, 1/2, 1/2, 1/2, 1/2] sixCards P0)
     = Some ([''C4'', ''C3'', ''C5'', ''C2''], [''C6'', ''C1''])"
  by code_simp

section \<open>Planning is not free of effects (C5) and applies no repeat cap (C7)\<close>

text \<open>
  C5, at the failing input.  Planning a targeted effect whose selector names the STACK zone
  appends a line to the log of the state: \<open>selectTargets\<close> calls \<open>pushLog\<close>.
\<close>

theorem planEffect_stack_selector_pushes_log:
  "log (emptyGameState 1) = [] \<and>
   map_option (\<lambda>(ops, s'). (ops, log s'))
     (planEffect 1 (emptyGameState 1) P0 None
        (DealDamage (anySel\<lparr>sel_zone := Some STACK\<rparr>) (VConst 1)) None)
   = Some ([Log ''Effect DealDamage fizzles (no legal targets).''],
           [''Selector with zone=STACK unsupported; ignoring.''])"
  by code_simp

lemma repeatPlan_plans:
  "\<forall>s ops s2. f s = Some (ops, s2) \<longrightarrow> logExt s s2 \<Longrightarrow>
   repeatPlan n f (acc0, s0) = Some (ops, s') \<Longrightarrow>
   \<exists>plans. length plans = n \<and> ops = acc0 @ concat plans \<and>
           (\<forall>p\<in>set plans. \<exists>s1 s2. logExt s0 s1 \<and> f s1 = Some (p, s2))"
proof (induction n arbitrary: acc0 s0)
  case 0
  then show ?case by simp
next
  case (Suc n)
  from Suc.prems(2) obtain o1 s1 where f: "f s0 = Some (o1, s1)"
    and rest: "repeatPlan n f (acc0 @ o1, s1) = Some (ops, s')"
    by (auto split: option.splits)
  have l01: "logExt s0 s1" using Suc.prems(1) f by blast
  from Suc.IH[OF Suc.prems(1) rest] obtain plans where
    p: "length plans = n" "ops = (acc0 @ o1) @ concat plans"
       "\<forall>p\<in>set plans. \<exists>s2 s3. logExt s1 s2 \<and> f s2 = Some (p, s3)"
    by blast
  have "\<forall>p\<in>set (o1 # plans). \<exists>s2 s3. logExt s0 s2 \<and> f s2 = Some (p, s3)"
  proof
    fix q assume "q \<in> set (o1 # plans)"
    then consider "q = o1" | "q \<in> set plans" by auto
    then show "\<exists>s2 s3. logExt s0 s2 \<and> f s2 = Some (q, s3)"
    proof cases
      case 1
      then show ?thesis using f logExt_refl by blast
    next
      case 2
      then obtain s2 s3 where "logExt s1 s2" "f s2 = Some (q, s3)" using p(3) by blast
      then show ?thesis using logExt_trans[OF l01] by blast
    qed
  qed
  then show ?case using p(1,2) by (intro exI[of _ "o1 # plans"]) simp
qed

lemma repeatPlan_returns:
  "\<forall>s1. logExt s0 s1 \<longrightarrow> f s1 \<noteq> None \<Longrightarrow>
   \<forall>s ops s2. f s = Some (ops, s2) \<longrightarrow> logExt s s2 \<Longrightarrow>
   \<exists>ops s'. repeatPlan n f (acc0, s0) = Some (ops, s')"
proof (induction n arbitrary: acc0 s0)
  case 0
  then show ?case by simp
next
  case (Suc n)
  have "f s0 \<noteq> None" using Suc.prems(1) logExt_refl by blast
  then obtain o1 s1 where f: "f s0 = Some (o1, s1)" by auto
  have l01: "logExt s0 s1" using Suc.prems(2) f by blast
  have "\<forall>s2. logExt s1 s2 \<longrightarrow> f s2 \<noteq> None"
    using Suc.prems(1) logExt_trans[OF l01] by blast
  from Suc.IH[OF this Suc.prems(2)] show ?case using f by simp
qed

text \<open>
  C7 (amended).  \<open>times\<close> is an integer here.  For a Repeat effect \<open>planEffect\<close> plans the
  body exactly \<open>max 0 times\<close> times, each time on the given state up to appended log lines,
  and returns the plans appended in order, with a state that is the given one up to appended
  log lines.  It applies no cap of its own: the number of repetitions is within \<open>MAX_REPEAT\<close>
  when the declared \<open>times\<close> is.  And it does return a plan, whatever \<open>times\<close> is, as soon as
  planning the body returns one on the given state with lines appended to the log.
\<close>

theorem planEffect_Repeat_plans_body_times:
  "(\<forall>ops s'. planEffect d s c src (Repeat n body) ct = Some (ops, s') \<longrightarrow>
      logExt s s' \<and>
      (\<exists>plans. length plans = nat n \<and> ops = concat plans \<and>
         (\<forall>p\<in>set plans. \<exists>s1 s2. logExt s s1 \<and> planEffect d s1 c src body ct = Some (p, s2)) \<and>
         (n \<le> MAX_REPEAT \<longrightarrow> length plans \<le> nat MAX_REPEAT))) \<and>
   ((\<forall>s1. logExt s s1 \<longrightarrow> planEffect d s1 c src body ct \<noteq> None) \<longrightarrow>
      (\<exists>ops s'. planEffect d s c src (Repeat n body) ct = Some (ops, s')))"
proof (intro conjI allI impI)
  fix ops s'
  assume a: "planEffect d s c src (Repeat n body) ct = Some (ops, s')"
  show "logExt s s'" using a by (rule planEffect_frame)
  have r: "repeatPlan (nat n) (\<lambda>s1. planEffect d s1 c src body ct) ([], s) = Some (ops, s')"
    using a by simp
  have fr: "\<forall>s ops s2. planEffect d s c src body ct = Some (ops, s2) \<longrightarrow> logExt s s2"
    using planEffect_frame by blast
  from repeatPlan_plans[OF fr r] obtain plans where
    "length plans = nat n" "ops = concat plans"
    "\<forall>p\<in>set plans. \<exists>s1 s2. logExt s s1 \<and> planEffect d s1 c src body ct = Some (p, s2)"
    by auto
  then show "\<exists>plans. length plans = nat n \<and> ops = concat plans \<and>
         (\<forall>p\<in>set plans. \<exists>s1 s2. logExt s s1 \<and> planEffect d s1 c src body ct = Some (p, s2)) \<and>
         (n \<le> MAX_REPEAT \<longrightarrow> length plans \<le> nat MAX_REPEAT)"
    by (intro exI[of _ plans]) auto
next
  assume b: "\<forall>s1. logExt s s1 \<longrightarrow> planEffect d s1 c src body ct \<noteq> None"
  have fr: "\<forall>s ops s2. planEffect d s c src body ct = Some (ops, s2) \<longrightarrow> logExt s s2"
    using planEffect_frame by blast
  from repeatPlan_returns[of s "\<lambda>s1. planEffect d s1 c src body ct", OF b fr, of "nat n" "[]"]
  show "\<exists>ops s'. planEffect d s c src (Repeat n body) ct = Some (ops, s')" by simp
qed

theorem planEffect_Repeat_plans_body_times_witness:
  "\<not> (\<exists>s1. logExt (emptyGameState 1) s1 \<and>
        planEffect 1 s1 P0 None (Draw SELF (VConst 1)) None = None) \<and>
   planEffect 1 (emptyGameState 1) P0 None (Repeat 2 (Draw SELF (VConst 1))) None
     = Some ([OpDraw P0 1, OpDraw P0 1], emptyGameState 1) \<and>
   (\<exists>ops s'. planEffect 1 (emptyGameState 1) P0 None (Repeat 2 (Draw SELF (VConst 1))) None
        = Some (ops, s')) \<and>
   (\<exists>plans. length plans = nat 2 \<and> [OpDraw P0 1, OpDraw P0 1] = concat plans \<and>
      (\<forall>p\<in>set plans. \<exists>s1 s2. logExt (emptyGameState 1) s1 \<and>
          planEffect 1 s1 P0 None (Draw SELF (VConst 1)) None = Some (p, s2)) \<and>
      (2 \<le> MAX_REPEAT \<longrightarrow> length plans \<le> nat MAX_REPEAT))"
proof -
  have b: "\<forall>s1. logExt (emptyGameState 1) s1 \<longrightarrow>
        planEffect 1 s1 P0 None (Draw SELF (VConst 1)) None \<noteq> None"
    by (simp add: evalValue_def refPlayer_def)
  have e: "planEffect 1 (emptyGameState 1) P0 None (Repeat 2 (Draw SELF (VConst 1))) None
     = Some ([OpDraw P0 1, OpDraw P0 1], emptyGameState 1)"
    by (simp add: evalValue_def refPlayer_def eval_nat_numeral)
  note t = planEffect_Repeat_plans_body_times[of 1 "emptyGameState 1" P0 None 2
      "Draw SELF (VConst 1)" None]
  show ?thesis using b e t by simp
qed

text \<open>
  C7 as stated fails: a Repeat declared with \<open>times = 5\<close> is planned five times, more than
  \<open>MAX_REPEAT = 3\<close>.
\<close>

theorem planEffect_Repeat_counterexample:
  "map_option fst (planEffect 1 (emptyGameState 1) P0 None (Repeat 5 (Draw SELF (VConst 1))) None)
     = Some [OpDraw P0 1, OpDraw P0 1, OpDraw P0 1, OpDraw P0 1, OpDraw P0 1] \<and>
   \<not> int (length [OpDraw P0 1, OpDraw P0 1, OpDraw P0 1, OpDraw P0 1, OpDraw P0 1]) \<le> MAX_REPEAT"
  by (simp add: evalValue_def refPlayer_def eval_nat_numeral MAX_REPEAT_def)

section \<open>The analyzer's worst-case multiplicity (C9)\<close>

subsection \<open>Rounding to a double\<close>

lemma roundDouble_small: "\<bar>x\<bar> \<le> 2 ^ 53 \<Longrightarrow> roundDouble x = x"
  by (simp add: roundDouble_def)

lemma div_bounds:
  fixes p :: int
  assumes p0: "0 < p" and lo: "a * p \<le> x" and hi: "x < b * p"
  shows "a \<le> x div p" and "x div p < b"
proof -
  have x: "x = (x div p) * p + x mod p" by simp
  have r: "0 \<le> x mod p" "x mod p < p" using p0 by simp_all
  show "a \<le> x div p"
  proof (rule ccontr)
    assume "\<not> a \<le> x div p"
    then have "x div p \<le> a - 1" by simp
    then have "(x div p) * p \<le> (a - 1) * p" using p0 by (intro mult_right_mono) simp_all
    moreover have "(a - 1) * p = a * p - p" by (simp add: left_diff_distrib)
    ultimately show False using x r(2) lo by linarith
  qed
  show "x div p < b"
  proof (rule ccontr)
    assume "\<not> x div p < b"
    then have "b \<le> x div p" by simp
    then have "b * p \<le> (x div p) * p" using p0 by (intro mult_right_mono) simp_all
    then show False using x r(1) hi by linarith
  qed
qed

lemma roundDouble_shape:
  assumes "2 ^ 53 < x"
  obtains e d where "1 \<le> e" "2 ^ (52 + e) \<le> x" "x < 2 ^ (53 + e)" "d = x div 2 ^ e"
    "2 ^ 52 \<le> d" "d < 2 ^ 53"
    "roundDouble x = (if 2 ^ e < 2 * (x mod 2 ^ e) \<or> (2 * (x mod 2 ^ e) = 2 ^ e \<and> odd d)
                      then d + 1 else d) * 2 ^ e"
proof -
  have x0: "0 < x" using assms by (smt (verit) zero_less_power)
  define L where "L = bitlen x"
  have b: "2 ^ nat (L - 1) \<le> x" "x < 2 ^ nat L" using bitlen_bounds[OF x0] by (simp_all add: L_def)
  have L54: "54 \<le> L"
  proof (rule ccontr)
    assume "\<not> 54 \<le> L"
    then have "nat L \<le> 53" by simp
    then have "(2::int) ^ nat L \<le> 2 ^ 53" by (intro power_increasing) simp_all
    then show False using b(2) assms by linarith
  qed
  define e where "e = nat (L - 53)"
  have e1: "1 \<le> e" using L54 by (simp add: e_def)
  have Le: "nat L = 53 + e" "nat (L - 1) = 52 + e" using L54 by (simp_all add: e_def)
  define p :: int where "p = 2 ^ e"
  have p0: "0 < p" by (simp add: p_def)
  have lo: "2 ^ 52 * p \<le> x" using b(1) by (simp add: Le p_def power_add)
  have hi: "x < 2 ^ 53 * p" using b(2) by (simp add: Le p_def power_add)
  have q: "2 ^ 52 \<le> x div p" "x div p < 2 ^ 53"
    using div_bounds[OF p0 lo hi] by simp_all
  have rd: "roundDouble x = (if p < 2 * (x mod p) \<or> (2 * (x mod p) = p \<and> odd (x div p))
                      then x div p + 1 else x div p) * p"
    using assms x0 by (simp add: roundDouble_def Let_def p_def e_def L_def)
  show ?thesis
    using that[of e "x div 2 ^ e"] e1 b q rd unfolding Le p_def by blast
qed

lemma binade_unique:
  fixes x :: int
  assumes "2 ^ (52 + e) \<le> x" "x < 2 ^ (53 + e)" "2 ^ (52 + e') \<le> x" "x < 2 ^ (53 + e')"
  shows "e = e'"
proof -
  have "(2::int) ^ (52 + e) < 2 ^ (53 + e')" using assms(1,4) by linarith
  then have a: "52 + e < 53 + e'" by (simp only: power_strict_increasing_iff) 
  have "(2::int) ^ (52 + e') < 2 ^ (53 + e)" using assms(3,2) by linarith
  then have b: "52 + e' < 53 + e" by (simp only: power_strict_increasing_iff)
  show ?thesis using a b by simp
qed

lemma roundDouble_ge: "2 ^ 53 \<le> x \<Longrightarrow> 2 ^ 53 \<le> roundDouble x"
proof (cases "x = 2 ^ 53")
  case True
  then show ?thesis by (simp add: roundDouble_def)
next
  case False
  assume "2 ^ 53 \<le> x"
  then have big: "2 ^ 53 < x" using False by simp
  from roundDouble_shape[OF big] obtain e d where s: "1 \<le> e" "2 ^ 52 \<le> d"
    "roundDouble x = (if 2 ^ e < 2 * (x mod 2 ^ e) \<or> (2 * (x mod 2 ^ e) = 2 ^ e \<and> odd d)
                      then d + 1 else d) * 2 ^ e"
    by blast
  have "(2::int) ^ 1 \<le> 2 ^ e" using s(1) by (intro power_increasing) simp_all
  then have p2: "(2::int) \<le> 2 ^ e" by simp
  have "(2::int) ^ 52 * 2 \<le> d * 2 ^ e" using s(2) p2 by (intro mult_mono) simp_all
  moreover have "d * 2 ^ e \<le> roundDouble x" unfolding s(3) by (intro mult_right_mono) simp_all
  ultimately show ?thesis by simp
qed

lemma roundDouble_nonneg: "0 \<le> x \<Longrightarrow> 0 \<le> roundDouble x"
  using roundDouble_ge[of x] roundDouble_small[of x] by (cases "x \<le> 2 ^ 53") auto

lemma roundDouble_fixed:
  assumes k: "2 ^ 52 \<le> k" "k < 2 ^ 53" and n: "1 \<le> n"
  shows "roundDouble (k * 2 ^ n) = k * 2 ^ n"
proof -
  define y where "y = k * 2 ^ n"
  have "(2::int) ^ 1 \<le> 2 ^ n" using n by (intro power_increasing) simp_all
  then have p2: "(2::int) \<le> 2 ^ n" by simp
  have ylo: "2 ^ (52 + n) \<le> y" unfolding y_def power_add using k(1) by (intro mult_right_mono) simp_all
  have yhi: "y < 2 ^ (53 + n)" unfolding y_def power_add using k(2) by (intro mult_strict_right_mono) simp_all
  have "(2::int) ^ 53 = 2 ^ 52 * 2" by simp
  also have "\<dots> \<le> k * 2 ^ n" using k(1) p2 by (intro mult_mono) simp_all
  finally have "2 ^ 53 \<le> y" by (simp add: y_def)
  show ?thesis
  proof (cases "y = 2 ^ 53")
    case True
    then show ?thesis by (simp add: roundDouble_def y_def)
  next
    case False
    then have big: "2 ^ 53 < y" using \<open>2 ^ 53 \<le> y\<close> by simp
    from roundDouble_shape[OF big] obtain e d where s: "1 \<le> e" "2 ^ (52 + e) \<le> y"
      "y < 2 ^ (53 + e)" "d = y div 2 ^ e"
      "roundDouble y = (if 2 ^ e < 2 * (y mod 2 ^ e) \<or> (2 * (y mod 2 ^ e) = 2 ^ e \<and> odd d)
                      then d + 1 else d) * 2 ^ e"
      by blast
    have en: "e = n" using binade_unique[OF s(2,3) ylo yhi] .
    have d: "d = k" "y mod 2 ^ e = 0" unfolding s(4) en y_def by simp_all
    have "(0::int) < 2 ^ e" by simp
    then show ?thesis using s(5) unfolding d en y_def[symmetric] by (simp add: y_def)
  qed
qed

lemma roundDouble_idem:
  assumes "0 \<le> x"
  shows "roundDouble (roundDouble x) = roundDouble x"
proof (cases "x \<le> 2 ^ 53")
  case True
  then show ?thesis using assms by (simp add: roundDouble_small)
next
  case False
  then have big: "2 ^ 53 < x" by simp
  from roundDouble_shape[OF big] obtain e d where s: "1 \<le> e" "2 ^ 52 \<le> d" "d < 2 ^ 53"
    "roundDouble x = (if 2 ^ e < 2 * (x mod 2 ^ e) \<or> (2 * (x mod 2 ^ e) = 2 ^ e \<and> odd d)
                      then d + 1 else d) * 2 ^ e"
    by blast
  define q where "q = (if 2 ^ e < 2 * (x mod 2 ^ e) \<or> (2 * (x mod 2 ^ e) = 2 ^ e \<and> odd d)
                      then d + 1 else d)"
  have rd: "roundDouble x = q * 2 ^ e" using s(4) by (simp add: q_def)
  have q: "2 ^ 52 \<le> q" "q \<le> 2 ^ 53" using s(2,3) by (auto simp: q_def)
  show ?thesis
  proof (cases "q = 2 ^ 53")
    case True
    have "roundDouble x = 2 ^ 52 * 2 ^ (e + 1)" unfolding rd True by simp
    then show ?thesis using roundDouble_fixed[of "2 ^ 52" "e + 1"] by simp
  next
    case False
    then have "q < 2 ^ 53" using q(2) by simp
    then show ?thesis unfolding rd using roundDouble_fixed[OF q(1) _ s(1)] by simp
  qed
qed

lemma roundDouble_mono:
  assumes "0 \<le> x" "x \<le> y"
  shows "roundDouble x \<le> roundDouble y"
proof (cases "y \<le> 2 ^ 53")
  case True
  then show ?thesis using assms by (simp add: roundDouble_small)
next
  case ybig: False
  show ?thesis
  proof (cases "x \<le> 2 ^ 53")
    case True
    then have "roundDouble x = x" using assms(1) by (simp add: roundDouble_small)
    moreover have "2 ^ 53 \<le> roundDouble y" using ybig by (intro roundDouble_ge) simp
    ultimately show ?thesis using True by linarith
  next
    case False
    then have xb: "2 ^ 53 < x" by simp
    have yb: "2 ^ 53 < y" using ybig by simp
    from roundDouble_shape[OF xb] obtain e d where sx: "1 \<le> e" "2 ^ (52 + e) \<le> x"
      "x < 2 ^ (53 + e)" "d = x div 2 ^ e" "2 ^ 52 \<le> d" "d < 2 ^ 53"
      "roundDouble x = (if 2 ^ e < 2 * (x mod 2 ^ e) \<or> (2 * (x mod 2 ^ e) = 2 ^ e \<and> odd d)
                      then d + 1 else d) * 2 ^ e"
      by blast
    from roundDouble_shape[OF yb] obtain e' d' where sy: "1 \<le> e'" "2 ^ (52 + e') \<le> y"
      "y < 2 ^ (53 + e')" "d' = y div 2 ^ e'" "2 ^ 52 \<le> d'" "d' < 2 ^ 53"
      "roundDouble y = (if 2 ^ e' < 2 * (y mod 2 ^ e') \<or> (2 * (y mod 2 ^ e') = 2 ^ e' \<and> odd d')
                      then d' + 1 else d') * 2 ^ e'"
      by blast
    define q where "q = (if 2 ^ e < 2 * (x mod 2 ^ e) \<or> (2 * (x mod 2 ^ e) = 2 ^ e \<and> odd d)
                      then d + 1 else d)"
    define q' where "q' = (if 2 ^ e' < 2 * (y mod 2 ^ e') \<or> (2 * (y mod 2 ^ e') = 2 ^ e' \<and> odd d')
                      then d' + 1 else d')"
    have rx: "roundDouble x = q * 2 ^ e" using sx(7) by (simp add: q_def)
    have ry: "roundDouble y = q' * 2 ^ e'" using sy(7) by (simp add: q'_def)
    have qb: "q \<le> 2 ^ 53" "d \<le> q" using sx(6) by (auto simp: q_def)
    have q'b: "2 ^ 52 \<le> q'" "d' \<le> q'" using sy(5) by (auto simp: q'_def)
    have "(2::int) ^ (52 + e) < 2 ^ (53 + e')" using sx(2) assms(2) sy(3) by linarith
    then have "52 + e < 53 + e'" by (simp only: power_strict_increasing_iff)
    then have ee: "e \<le> e'" by simp
    show ?thesis
    proof (cases "e = e'")
      case False
      then have "e + 1 \<le> e'" using ee by simp
      then have "(2::int) ^ (e + 1) \<le> 2 ^ e'" by (intro power_increasing) simp_all
      then have pp: "(2::int) * 2 ^ e \<le> 2 ^ e'" by simp
      have "q * 2 ^ e \<le> 2 ^ 53 * 2 ^ e" using qb(1) by (intro mult_right_mono) simp_all
      also have "\<dots> = 2 ^ 52 * (2 * 2 ^ e)" by simp
      also have "\<dots> \<le> 2 ^ 52 * 2 ^ e'" using pp by (intro mult_left_mono) simp_all
      also have "\<dots> \<le> q' * 2 ^ e'" using q'b(1) by (intro mult_right_mono) simp_all
      finally show ?thesis unfolding rx ry .
    next
      case True
      define p :: int where "p = 2 ^ e"
      have p0: "0 < p" by (simp add: p_def)
      have dd: "d \<le> d'" unfolding sx(4) sy(4) True[symmetric] using assms(2) by (intro zdiv_mono1) simp_all
      have "q \<le> q'"
      proof (cases "d = d'")
        case False
        then have "d + 1 \<le> d'" using dd by simp
        moreover have "q \<le> d + 1" by (simp add: q_def)
        ultimately show ?thesis using q'b(2) by linarith
      next
        case same: True
        have xe: "x = d * p + x mod p" unfolding sx(4) p_def by (rule div_mult_mod_eq[symmetric])
        have ye: "y = d * p + y mod p" unfolding same sy(4) True[symmetric] p_def by (rule div_mult_mod_eq[symmetric])
        have rr: "x mod p \<le> y mod p" using xe ye assms(2) by linarith
        show ?thesis
          using rr unfolding q_def q'_def True[symmetric] same[symmetric] p_def[symmetric]
          by auto
      qed
      then show ?thesis unfolding rx ry True[symmetric] by (intro mult_right_mono) simp_all
    qed
  qed
qed


subsection \<open>Accumulators\<close>

lemma lk_add: "lk (add k' n em) k = (if k = k' then roundDouble (lk em k + n) else lk em k)"
  by (auto simp: lk_def add_def orElse_def update_conv' split: option.splits)

lemma lk_Nil: "lk [] k = 0"
  by (simp add: lk_def orElse_def)

lemma meas_bump:
  "meas (bump c n acc) x = (if x = c then roundDouble (meas acc c + n) else meas acc x)"
  by (cases c; cases x) (auto simp: meas_def bump_def lk_add)

lemma meas_init: "meas ([], 0) x = 0"
  by (cases x) (simp_all add: meas_def lk_Nil)

lemma rep0_init: "rep0 ([], 0)"
  by (simp add: rep0_def meas_init roundDouble_small)

lemma leA_refl: "leA a a"
  by (simp add: leA_def)

lemma leA_trans: "leA a b \<Longrightarrow> leA b c \<Longrightarrow> leA a c"
  unfolding leA_def by (meson order_trans)

lemma good_id: "good (\<lambda>a. a)"
  by (simp add: good_def leA_refl)

lemma good_comp:
  assumes f: "good f" and g: "good g"
  shows "good (\<lambda>a. g (f a))"
  unfolding good_def
proof (intro allI impI conjI)
  fix acc assume r: "rep0 acc"
  have rf: "rep0 (f acc)" and lf: "leA acc (f acc)" using f r unfolding good_def by blast+
  show "rep0 (g (f acc))" using g rf unfolding good_def by blast
  have "leA (f acc) (g (f acc))" using g rf unfolding good_def by blast
  then show "leA acc (g (f acc))" using lf leA_trans by blast
next
  fix acc acc' assume r: "rep0 acc" and r': "rep0 acc' \<and> leA acc acc'"
  have rf: "rep0 (f acc)" using f r unfolding good_def by blast
  have rf': "rep0 (f acc')" using f r' unfolding good_def by blast
  have "leA (f acc) (f acc')" using f r r' unfolding good_def by blast
  then show "leA (g (f acc)) (g (f acc'))" using g rf rf' unfolding good_def by blast
qed

lemma good_fold: "(\<And>f. f \<in> set fs \<Longrightarrow> good f) \<Longrightarrow> good (fold (\<lambda>f a. f a) fs)"
proof (induction fs)
  case Nil
  show ?case using good_id by (simp add: id_def)
next
  case (Cons f fs)
  have "good (\<lambda>a. fold (\<lambda>f a. f a) fs (f a))"
    using Cons by (intro good_comp[of f "fold (\<lambda>f a. f a) fs"]) auto
  then show ?case by (simp add: comp_def)
qed

lemma good_bump:
  assumes n: "0 \<le> n"
  shows "good (bump c n)"
  unfolding good_def
proof (intro allI impI conjI)
  fix acc assume r: "rep0 acc"
  have a: "\<And>x. 0 \<le> meas acc x" "\<And>x. roundDouble (meas acc x) = meas acc x"
    using r unfolding rep0_def by blast+
  show "rep0 (bump c n acc)"
    unfolding rep0_def meas_bump using a n
    by (auto intro!: roundDouble_nonneg roundDouble_idem)
  have "meas acc c \<le> roundDouble (meas acc c + n)"
    using roundDouble_mono[of "meas acc c" "meas acc c + n"] a[of c] n by simp
  then show "leA acc (bump c n acc)"
    unfolding leA_def meas_bump by simp
next
  fix acc acc' assume r: "rep0 acc" and r': "rep0 acc' \<and> leA acc acc'"
  have a: "0 \<le> meas acc c" using r unfolding rep0_def by blast
  have l: "\<And>x. meas acc x \<le> meas acc' x" using r' unfolding leA_def by blast
  have "roundDouble (meas acc c + n) \<le> roundDouble (meas acc' c + n)"
    using a n l[of c] by (intro roundDouble_mono) simp_all
  then show "leA (bump c n acc) (bump c n acc')"
    unfolding leA_def meas_bump using l by simp
qed

lemma roundDouble_le_safe:
  assumes "0 \<le> x" "roundDouble x \<le> MAX_SAFE_INTEGER"
  shows "roundDouble x = x"
proof (cases "x \<le> 2 ^ 53")
  case True
  then show ?thesis using assms(1) by (simp add: roundDouble_small)
next
  case False
  then have "2 ^ 53 \<le> roundDouble x" by (intro roundDouble_ge) simp
  then show ?thesis using assms(2) by (simp add: MAX_SAFE_INTEGER_def)
qed

lemma tracks_id: "tracks (\<lambda>a. a) (\<lambda>x. 0)"
  by (simp add: tracks_def)

lemma tracks_bump:
  assumes n: "0 \<le> n"
  shows "tracks (bump c n) (\<lambda>x. if x = c then n else 0)"
  unfolding tracks_def
proof (intro conjI allI impI)
  fix x show "0 \<le> (if x = c then n else 0)" using n by simp
next
  fix acc x
  assume r: "rep0 acc"
    and h: "small (bump c n acc) \<or> (\<forall>x. meas acc x + (if x = c then n else 0) \<le> MAX_SAFE_INTEGER)"
  have a: "0 \<le> meas acc c" using r unfolding rep0_def by blast
  have "roundDouble (meas acc c + n) = meas acc c + n"
  proof (rule disjE[OF h])
    assume "small (bump c n acc)"
    then have "meas (bump c n acc) c \<le> MAX_SAFE_INTEGER"
      unfolding small_def by blast
    then have "roundDouble (meas acc c + n) \<le> MAX_SAFE_INTEGER"
      by (simp add: meas_bump)
    then show ?thesis using a n by (intro roundDouble_le_safe) simp_all
  next
    assume "\<forall>x. meas acc x + (if x = c then n else 0) \<le> MAX_SAFE_INTEGER"
    then have "meas acc c + (if c = c then n else 0) \<le> MAX_SAFE_INTEGER" by blast
    then have "meas acc c + n \<le> MAX_SAFE_INTEGER" by simp
    then show ?thesis using a n by (intro roundDouble_small) (simp add: MAX_SAFE_INTEGER_def)
  qed
  then show "meas (bump c n acc) x = meas acc x + (if x = c then n else 0)"
    unfolding meas_bump by simp
qed

lemma tracks_comp:
  assumes gf: "good f" and gg: "good g" and tf: "tracks f c" and tg: "tracks g c'"
  shows "tracks (\<lambda>a. g (f a)) (\<lambda>x. c x + c' x)"
  unfolding tracks_def
proof (intro conjI allI impI)
  fix x show "0 \<le> c x + c' x" using tf tg unfolding tracks_def by (simp add: add_nonneg_nonneg)
next
  fix acc x
  assume r: "rep0 acc"
    and h: "small (g (f acc)) \<or> (\<forall>x. meas acc x + (c x + c' x) \<le> MAX_SAFE_INTEGER)"
  have c0: "\<And>x. 0 \<le> c x" "\<And>x. 0 \<le> c' x" using tf tg unfolding tracks_def by blast+
  have rf: "rep0 (f acc)" using gf r unfolding good_def by blast
  have lg: "\<And>x. meas (f acc) x \<le> meas (g (f acc)) x"
    using gg rf unfolding good_def leA_def by blast
  have f1: "\<forall>x. meas (f acc) x = meas acc x + c x"
  proof (rule disjE[OF h])
    assume "small (g (f acc))"
    then have "small (f acc)" unfolding small_def using lg order_trans by blast
    then show ?thesis using tf r unfolding tracks_def by blast
  next
    assume b: "\<forall>x. meas acc x + (c x + c' x) \<le> MAX_SAFE_INTEGER"
    have "\<forall>x. meas acc x + c x \<le> MAX_SAFE_INTEGER"
    proof
      fix x show "meas acc x + c x \<le> MAX_SAFE_INTEGER"
        using b[rule_format, of x] c0(2)[of x] by linarith
    qed
    then show ?thesis using tf r unfolding tracks_def by blast
  qed
  have g1: "\<forall>x. meas (g (f acc)) x = meas (f acc) x + c' x"
  proof (rule disjE[OF h])
    assume "small (g (f acc))"
    then show ?thesis using tg rf unfolding tracks_def by blast
  next
    assume "\<forall>x. meas acc x + (c x + c' x) \<le> MAX_SAFE_INTEGER"
    then have "\<forall>x. meas (f acc) x + c' x \<le> MAX_SAFE_INTEGER"
      using f1 by (simp add: add.assoc)
    then show ?thesis using tg rf unfolding tracks_def by blast
  qed
  show "meas (g (f acc)) x = meas acc x + (c x + c' x)" using f1 g1 by simp
qed

lemma fine_id: "fine (\<lambda>a. a) (\<lambda>x. 0)"
  by (simp add: fine_def good_id tracks_id)

lemma fine_bump: "0 \<le> n \<Longrightarrow> fine (bump c n) (\<lambda>x. if x = c then n else 0)"
  by (simp add: fine_def good_bump tracks_bump)

lemma fine_comp: "fine f c \<Longrightarrow> fine g c' \<Longrightarrow> fine (\<lambda>a. g (f a)) (\<lambda>x. c x + c' x)"
  unfolding fine_def using good_comp tracks_comp by blast

lemma fine_fold:
  "(\<And>y. y \<in> set ys \<Longrightarrow> fine (F y) (C y)) \<Longrightarrow>
   fine (fold (\<lambda>f a. f a) (map F ys)) (\<lambda>x. sum_list (map (\<lambda>y. C y x) ys))"
proof (induction ys)
  case Nil
  show ?case using fine_id by (simp add: id_def)
next
  case (Cons y ys)
  have "fine (\<lambda>a. fold (\<lambda>f a. f a) (map F ys) (F y a))
             (\<lambda>x. C y x + sum_list (map (\<lambda>y. C y x) ys))"
    using Cons by (intro fine_comp[of "F y" "C y"]) auto
  then show ?case by (simp add: comp_def)
qed


subsection \<open>The walk, step by step\<close>

lemma recur_Sequence: "recur (Sequence steps) m = fold (\<lambda>f a. f a) (map (\<lambda>s. recur s m) steps)"
  by (rule ext) simp

lemma recur_ForEach:
  "recur (ForEach among mt body) m = recur body (multiply m (min mt MAX_FOREACH_TARGETS))"
  by (rule ext) (simp add: Let_def)

lemma recur_Repeat:
  "recur (Repeat n body) m = recur body (multiply m (min n MAX_REPEAT))"
  by (rule ext) (simp add: Let_def)

lemma recur_Conditional:
  "recur (Conditional c th el) m =
     (case el of None \<Rightarrow> recur th m | Some e \<Rightarrow> (\<lambda>a. recur e m (recur th m a)))"
  by (rule ext) (simp split: option.splits)

lemma recur_Case:
  "recur (Case branches el) m =
     (case el of None \<Rightarrow> fold (\<lambda>f a. f a) (map (\<lambda>b. recur (snd b) m) branches)
      | Some e \<Rightarrow> (\<lambda>a. recur e m (fold (\<lambda>f a. f a) (map (\<lambda>b. recur (snd b) m) branches) a)))"
  by (rule ext) (simp add: Let_def fold_map comp_def split: option.splits)

lemma recur_CreateToken:
  "recur (CreateToken who atk hp tgs ats) m
     = (\<lambda>a. bump (Some OnEnter) m (bump (Some OnTokenCreated) m (bump None m a)))"
  by (rule ext) (simp add: bump_def)

lemma recur_Move:
  "recur (Move sel to) m
     = (if to = Z BF then (\<lambda>a. bump (Some OnEnter) m (bump None m a)) else (\<lambda>a. a))"
  by (rule ext) (simp add: bump_def)

lemma recur_Draw: "recur (Draw who n) m = bump (Some OnDraw) m"
  by (rule ext) (simp add: bump_def)

lemma recur_DealDamage: "recur (DealDamage sel amount) m = bump (Some OnDamageDealt) m"
  by (rule ext) (simp add: bump_def)

lemma cnt_Sequence: "cnt (Sequence steps) m = (\<lambda>x. sum_list (map (\<lambda>s. cnt s m x) steps))"
  by (rule ext) simp

lemma cnt_Conditional:
  "cnt (Conditional c th el) m
     = (\<lambda>x. cnt th m x + (case el of None \<Rightarrow> 0 | Some e \<Rightarrow> cnt e m x))"
  by (rule ext) (simp split: option.splits)

lemma cnt_Case:
  "cnt (Case branches el) m
     = (\<lambda>x. sum_list (map (\<lambda>b. cnt (snd b) m x) branches)
             + (case el of None \<Rightarrow> 0 | Some e \<Rightarrow> cnt e m x))"
  by (rule ext) (simp add: comp_def split: option.splits)

lemma cnt_ForEach:
  "cnt (ForEach among mt body) m = cnt body (multiply m (min mt MAX_FOREACH_TARGETS))"
  by (rule ext) simp

lemma cnt_Repeat: "cnt (Repeat n body) m = cnt body (multiply m (min n MAX_REPEAT))"
  by (rule ext) simp

lemma countsOK_Sequence: "countsOK (Sequence steps) = (\<forall>s\<in>set steps. countsOK s)"
  by (simp add: list_all_iff)

lemma countsOK_Case:
  "countsOK (Case branches el) =
     ((\<forall>b\<in>set branches. countsOK (snd b)) \<and> (\<forall>e. el = Some e \<longrightarrow> countsOK e))"
  by (auto simp: list_all_iff split: option.splits)

lemma countsOK_Conditional:
  "countsOK (Conditional c th el) = (countsOK th \<and> (\<forall>e. el = Some e \<longrightarrow> countsOK e))"
  by (auto split: option.splits)

lemma unsaturated_Sequence: "unsaturated (Sequence steps) m = (\<forall>s\<in>set steps. unsaturated s m)"
  by (simp add: list_all_iff)

lemma unsaturated_Case:
  "unsaturated (Case branches el) m =
     ((\<forall>b\<in>set branches. unsaturated (snd b) m) \<and> (\<forall>e. el = Some e \<longrightarrow> unsaturated e m))"
  by (auto simp: list_all_iff split: option.splits)

lemma unsaturated_Conditional:
  "unsaturated (Conditional c th el) m = (unsaturated th m \<and> (\<forall>e. el = Some e \<longrightarrow> unsaturated e m))"
  by (auto split: option.splits)

subsection \<open>The multiplier\<close>

lemma factor_ge1: "0 \<le> t \<Longrightarrow> 1 \<le> factor t"
  by (simp add: factor_def orElse_def)

lemma mult_ge_one: "(1::int) \<le> a \<Longrightarrow> 1 \<le> b \<Longrightarrow> 1 \<le> a * b"
  by (metis mult_mono mult_1 zero_le_one order_trans)

lemma mult_le_shrink:
  assumes "(1::int) \<le> m" "1 \<le> j" "1 \<le> t" "m * j * t \<le> B"
  shows "m * t \<le> B"
proof -
  have "0 \<le> m * t" using assms by simp
  then have "m * t * 1 \<le> m * t * j" using assms(2) by (intro mult_left_mono) auto
  then show ?thesis using assms(4) by (simp add: mult.assoc mult.commute mult.left_commute)
qed

lemma min_round:
  assumes "0 \<le> x"
  shows "min MAX_SAFE_INTEGER (roundDouble x) = min MAX_SAFE_INTEGER x"
proof (cases "x \<le> 2 ^ 53")
  case True
  then show ?thesis using assms by (simp add: roundDouble_small)
next
  case False
  then have "2 ^ 53 \<le> roundDouble x" by (intro roundDouble_ge) simp
  then show ?thesis using False by (simp add: MAX_SAFE_INTEGER_def)
qed

lemma multiply_char:
  assumes "1 \<le> m" "0 \<le> t"
  shows "multiply m t = min MAX_SAFE_INTEGER (m * factor t)"
proof -
  have m: "orElse (Some m) 1 = m" using assms(1) by (simp add: orElse_def)
  have "1 \<le> m * factor t" using assms factor_ge1 mult_ge_one by simp
  then have "0 \<le> m * factor t" by simp
  then have "min MAX_SAFE_INTEGER (roundDouble (m * factor t)) = min MAX_SAFE_INTEGER (m * factor t)"
    by (rule min_round)
  then show ?thesis by (simp add: multiply_def factor_def m)
qed

lemma multiply_ge1: "1 \<le> m \<Longrightarrow> 0 \<le> t \<Longrightarrow> 1 \<le> multiply m t"
  using mult_ge_one[of m "factor t"] factor_ge1[of t]
  by (simp add: multiply_char MAX_SAFE_INTEGER_def)

lemma multiply_exact:
  "1 \<le> m \<Longrightarrow> 0 \<le> t \<Longrightarrow> m * factor t \<le> MAX_SAFE_INTEGER \<Longrightarrow> multiply m t = m * factor t"
  by (simp add: multiply_char)

subsection \<open>The walk adds counts\<close>

lemma fine_cong: "fine f c \<Longrightarrow> (\<And>x. c x = c' x) \<Longrightarrow> fine f c'"
proof -
  assume f: "fine f c" and e: "\<And>x. c x = c' x"
  have "c = c'" using e by (rule ext)
  then show ?thesis using f by simp
qed

lemma fine_trivial: "(\<And>a. f a = a) \<Longrightarrow> (\<And>x. c x = 0) \<Longrightarrow> fine f c"
proof -
  assume f: "\<And>a. f a = a" and c: "\<And>x. c x = 0"
  have "f = (\<lambda>a. a)" using f by (intro ext)
  moreover have "c = (\<lambda>x. 0)" using c by (intro ext)
  ultimately show ?thesis using fine_id by simp
qed

lemma recur_fine: "countsOK e \<Longrightarrow> 1 \<le> m \<Longrightarrow> fine (recur e m) (cnt e m)"
proof (induction e arbitrary: m)
  case (Sequence steps)
  have "fine (fold (\<lambda>f a. f a) (map (\<lambda>s. recur s m) steps))
             (\<lambda>x. sum_list (map (\<lambda>s. cnt s m x) steps))"
  proof (rule fine_fold)
    fix y assume y: "y \<in> set steps"
    then have "countsOK y" using Sequence.prems(1) by (simp only: countsOK_Sequence)
    then show "fine (recur y m) (cnt y m)" using Sequence.IH[of y m] y Sequence.prems(2) by simp
  qed
  then show ?case by (simp only: recur_Sequence cnt_Sequence)
next
  case (Conditional c th el)
  have th: "fine (recur th m) (cnt th m)"
    using Conditional.IH(1)[of m] Conditional.prems by (simp only: countsOK_Conditional)
  show ?case
  proof (cases el)
    case None
    have "fine (recur th m) (\<lambda>x. cnt th m x + 0)" using th by simp
    then show ?thesis using None by (simp add: recur_Conditional cnt_Conditional)
  next
    case (Some e)
    have "countsOK e" using Conditional.prems(1) Some by (simp only: countsOK_Conditional)
    then have "fine (recur e m) (cnt e m)"
      using Conditional.IH(2)[of e m] Some Conditional.prems(2) by simp
    then have "fine (\<lambda>a. recur e m (recur th m a)) (\<lambda>x. cnt th m x + cnt e m x)"
      using th by (intro fine_comp[of "recur th m" "cnt th m" "recur e m" "cnt e m"]) auto
    then show ?thesis using Some by (simp add: recur_Conditional cnt_Conditional)
  qed
next
  case (Case branches el)
  have b: "fine (fold (\<lambda>f a. f a) (map (\<lambda>b. recur (snd b) m) branches))
                (\<lambda>x. sum_list (map (\<lambda>b. cnt (snd b) m x) branches))"
  proof (rule fine_fold)
    fix b assume b: "b \<in> set branches"
    have "snd b \<in> Basic_BNFs.snds b"
      by (cases b) (simp add: snds.simps)
    moreover have "countsOK (snd b)" using Case.prems(1) b by (simp only: countsOK_Case)
    ultimately show "fine (recur (snd b) m) (cnt (snd b) m)"
      using Case.IH(1)[of b "snd b" m] b Case.prems(2) by simp
  qed
  show ?case
  proof (cases el)
    case None
    have "fine (fold (\<lambda>f a. f a) (map (\<lambda>b. recur (snd b) m) branches))
                (\<lambda>x. sum_list (map (\<lambda>b. cnt (snd b) m x) branches) + 0)"
      using b by simp
    then show ?thesis using None by (simp add: recur_Case cnt_Case)
  next
    case (Some e)
    have "countsOK e" using Case.prems(1) Some by (simp only: countsOK_Case)
    then have "fine (recur e m) (cnt e m)" using Case.IH(2)[of e m] Some Case.prems(2) by simp
    then have "fine (\<lambda>a. recur e m (fold (\<lambda>f a. f a) (map (\<lambda>b. recur (snd b) m) branches) a))
                    (\<lambda>x. sum_list (map (\<lambda>b. cnt (snd b) m x) branches) + cnt e m x)"
      using b
      by (intro fine_comp[of "fold (\<lambda>f a. f a) (map (\<lambda>b. recur (snd b) m) branches)" _
            "recur e m" "cnt e m"]) auto
    then show ?thesis using Some by (simp add: recur_Case cnt_Case)
  qed
next
  case (ForEach among mt body)
  have t: "0 \<le> min mt MAX_FOREACH_TARGETS" "countsOK body" using ForEach.prems(1) by simp_all
  have "fine (recur body (multiply m (min mt MAX_FOREACH_TARGETS)))
             (cnt body (multiply m (min mt MAX_FOREACH_TARGETS)))"
    using ForEach.IH[OF t(2) multiply_ge1[OF ForEach.prems(2) t(1)]] .
  then show ?case by (simp only: recur_ForEach cnt_ForEach)
next
  case (Repeat n body)
  have t: "0 \<le> min n MAX_REPEAT" "countsOK body" using Repeat.prems(1) by simp_all
  have "fine (recur body (multiply m (min n MAX_REPEAT))) (cnt body (multiply m (min n MAX_REPEAT)))"
    using Repeat.IH[OF t(2) multiply_ge1[OF Repeat.prems(2) t(1)]] .
  then show ?case by (simp only: recur_Repeat cnt_Repeat)
next
  case (CreateToken who atk hp tgs ats)
  have m0: "0 \<le> m" using CreateToken.prems(2) by simp
  have "fine (\<lambda>a. bump (Some OnEnter) m (bump (Some OnTokenCreated) m (bump None m a)))
             (\<lambda>x. ((if x = None then m else 0) + (if x = Some OnTokenCreated then m else 0))
                   + (if x = Some OnEnter then m else 0))"
    by (intro fine_comp fine_bump m0)
  then show ?case
    unfolding recur_CreateToken by (rule fine_cong) auto
next
  case (Move sel to)
  have m0: "0 \<le> m" using Move.prems(2) by simp
  show ?case
  proof (cases "to = Z BF")
    case True
    have F: "fine (\<lambda>a. bump (Some OnEnter) m (bump None m a))
             (\<lambda>x. (if x = None then m else 0) + (if x = Some OnEnter then m else 0))"
      by (intro fine_comp fine_bump m0)
    have e: "recur (Move sel to) m = (\<lambda>a. bump (Some OnEnter) m (bump None m a))"
      using True by (simp add: recur_Move)
    show ?thesis
      unfolding e by (rule fine_cong[OF F]) (use True in auto)
  next
    case False
    then show ?thesis by (intro fine_trivial) simp_all
  qed
next
  case (Draw who n)
  have m0: "0 \<le> m" using Draw.prems(2) by simp
  show ?case unfolding recur_Draw by (rule fine_cong[OF fine_bump[OF m0]]) auto
next
  case (DealDamage sel amount)
  have m0: "0 \<le> m" using DealDamage.prems(2) by simp
  show ?case unfolding recur_DealDamage by (rule fine_cong[OF fine_bump[OF m0]]) auto
qed (rule fine_trivial, simp, simp)+

lemma cnt_nonneg: "countsOK e \<Longrightarrow> 1 \<le> m \<Longrightarrow> 0 \<le> cnt e m x"
  using recur_fine[of e m] unfolding fine_def tracks_def by blast


subsection \<open>Scaling: the counts at multiplier \<open>m * j\<close> are \<open>j\<close> times those at \<open>m\<close>\<close>

lemma sum_list_scaled:
  "(\<And>y. y \<in> set ys \<Longrightarrow> f y = (j::int) * g y) \<Longrightarrow>
   sum_list (map f ys) = j * sum_list (map g ys)"
  by (induction ys) (simp_all add: distrib_left)

lemma cnt_scaled:
  "countsOK e \<Longrightarrow> 1 \<le> m \<Longrightarrow> 1 \<le> j \<Longrightarrow> unsaturated e (m * j) \<Longrightarrow>
   cnt e (m * j) x = j * cnt e m x"
proof (induction e arbitrary: m)
  case (Sequence steps)
  have "sum_list (map (\<lambda>s. cnt s (m * j) x) steps) = j * sum_list (map (\<lambda>s. cnt s m x) steps)"
  proof (rule sum_list_scaled)
    fix y assume y: "y \<in> set steps"
    have "countsOK y" using Sequence.prems(1) y by (simp only: countsOK_Sequence)
    moreover have "unsaturated y (m * j)" using Sequence.prems(4) y by (simp only: unsaturated_Sequence)
    ultimately show "cnt y (m * j) x = j * cnt y m x"
      using Sequence.IH[of y m] y Sequence.prems(2,3) by simp
  qed
  then show ?case by (simp only: cnt_Sequence)
next
  case (Conditional c th el)
  have th: "cnt th (m * j) x = j * cnt th m x"
    using Conditional.IH(1)[of m] Conditional.prems
    by (simp only: countsOK_Conditional unsaturated_Conditional)
  show ?case
  proof (cases el)
    case None
    then show ?thesis using th by (simp add: cnt_Conditional)
  next
    case (Some e)
    have "countsOK e" using Conditional.prems(1) Some by (simp only: countsOK_Conditional)
    moreover have "unsaturated e (m * j)"
      using Conditional.prems(4) Some by (simp only: unsaturated_Conditional)
    ultimately have "cnt e (m * j) x = j * cnt e m x"
      using Conditional.IH(2)[of e m] Some Conditional.prems(2,3) by simp
    then show ?thesis using Some th by (simp add: cnt_Conditional distrib_left)
  qed
next
  case (Case branches el)
  have b: "sum_list (map (\<lambda>b. cnt (snd b) (m * j) x) branches)
             = j * sum_list (map (\<lambda>b. cnt (snd b) m x) branches)"
  proof (rule sum_list_scaled)
    fix b assume b: "b \<in> set branches"
    have "snd b \<in> Basic_BNFs.snds b"
      by (cases b) (simp add: snds.simps)
    moreover have "countsOK (snd b)" using Case.prems(1) b by (simp only: countsOK_Case)
    moreover have "unsaturated (snd b) (m * j)" using Case.prems(4) b by (simp only: unsaturated_Case)
    ultimately show "cnt (snd b) (m * j) x = j * cnt (snd b) m x"
      using Case.IH(1)[of b "snd b" m] b Case.prems(2,3) by simp
  qed
  show ?case
  proof (cases el)
    case None
    then show ?thesis using b by (simp add: cnt_Case)
  next
    case (Some e)
    have "countsOK e" using Case.prems(1) Some by (simp only: countsOK_Case)
    moreover have "unsaturated e (m * j)" using Case.prems(4) Some by (simp only: unsaturated_Case)
    ultimately have "cnt e (m * j) x = j * cnt e m x"
      using Case.IH(2)[of e m] Some Case.prems(2,3) by simp
    then show ?thesis using Some b by (simp add: cnt_Case distrib_left)
  qed
next
  case (ForEach among mt body)
  define t where "t = min mt MAX_FOREACH_TARGETS"
  have t: "0 \<le> t" "countsOK body" using ForEach.prems(1) by (simp_all add: t_def)
  have f: "1 \<le> factor t" using t(1) by (rule factor_ge1)
  have u: "m * j * factor t \<le> MAX_SAFE_INTEGER" "unsaturated body (m * j * factor t)"
    using ForEach.prems(4) by (simp_all add: t_def Let_def)
  have mj: "1 \<le> m * j" using ForEach.prems(2,3) by (rule mult_ge_one)
  have e1: "multiply (m * j) t = m * factor t * j"
    using multiply_exact[OF mj t(1) u(1)] by (simp add: mult.commute mult.left_commute)
  have e2: "multiply m t = m * factor t"
    using multiply_exact[OF ForEach.prems(2) t(1) mult_le_shrink[OF ForEach.prems(2,3) f u(1)]] .
  have "unsaturated body (m * factor t * j)"
    using u(2) by (simp add: mult.commute mult.left_commute)
  then have "cnt body (m * factor t * j) x = j * cnt body (m * factor t) x"
    using ForEach.IH[OF t(2) mult_ge_one[OF ForEach.prems(2) f] ForEach.prems(3)] by simp
  then show ?case by (simp only: cnt_ForEach t_def[symmetric] e1 e2)
next
  case (Repeat n body)
  define t where "t = min n MAX_REPEAT"
  have t: "0 \<le> t" "countsOK body" using Repeat.prems(1) by (simp_all add: t_def)
  have f: "1 \<le> factor t" using t(1) by (rule factor_ge1)
  have u: "m * j * factor t \<le> MAX_SAFE_INTEGER" "unsaturated body (m * j * factor t)"
    using Repeat.prems(4) by (simp_all add: t_def Let_def)
  have mj: "1 \<le> m * j" using Repeat.prems(2,3) by (rule mult_ge_one)
  have e1: "multiply (m * j) t = m * factor t * j"
    using multiply_exact[OF mj t(1) u(1)] by (simp add: mult.commute mult.left_commute)
  have e2: "multiply m t = m * factor t"
    using multiply_exact[OF Repeat.prems(2) t(1) mult_le_shrink[OF Repeat.prems(2,3) f u(1)]] .
  have "unsaturated body (m * factor t * j)"
    using u(2) by (simp add: mult.commute mult.left_commute)
  then have "cnt body (m * factor t * j) x = j * cnt body (m * factor t) x"
    using Repeat.IH[OF t(2) mult_ge_one[OF Repeat.prems(2) f] Repeat.prems(3)] by simp
  then show ?case by (simp only: cnt_Repeat t_def[symmetric] e1 e2)
qed (simp_all add: mult.commute)

subsection \<open>What \<open>effectMultiplicity\<close> returns\<close>

lemma withinSafe_small: "withinSafe e m \<Longrightarrow> small (recur e m ([], 0))"
  unfolding small_def
proof
  assume w: "withinSafe e m"
  fix c
  show "meas (recur e m ([], 0)) c \<le> MAX_SAFE_INTEGER"
  proof (cases c)
    case None
    then show ?thesis using w by (simp add: withinSafe_def effectMultiplicity_def meas_def)
  next
    case (Some k)
    show ?thesis
    proof (cases "map_of (fst (recur e m ([], 0))) k")
      case None
      then show ?thesis using Some by (simp add: meas_def lk_def orElse_def MAX_SAFE_INTEGER_def)
    next
      case (Some v)
      then have "(k, v) \<in> set (fst (recur e m ([], 0)))" by (rule map_of_SomeD)
      then have "v \<le> MAX_SAFE_INTEGER"
        using w by (auto simp: withinSafe_def effectMultiplicity_def list_all_iff)
      then show ?thesis using Some \<open>c = Some k\<close>
        by (simp add: meas_def lk_def orElse_def MAX_SAFE_INTEGER_def)
    qed
  qed
qed

lemma contrib_meas:
  "spawnsOf e m = meas (recur e m ([], 0)) None"
  "emitsOf e m k = meas (recur e m ([], 0)) (Some k)"
  by (simp_all add: spawnsOf_def emitsOf_def effectMultiplicity_def meas_def)

lemma contrib_exact:
  assumes "countsOK e" "1 \<le> m"
    and "small (recur e m ([], 0)) \<or> (\<forall>x. cnt e m x \<le> MAX_SAFE_INTEGER)"
  shows "meas (recur e m ([], 0)) x = cnt e m x"
proof -
  have t: "tracks (recur e m) (cnt e m)" using recur_fine[OF assms(1,2)] by (simp add: fine_def)
  have "small (recur e m ([], 0)) \<or> (\<forall>x. meas ([], 0) x + cnt e m x \<le> MAX_SAFE_INTEGER)"
    using assms(3) by (auto simp: meas_init)
  then have "meas (recur e m ([], 0)) x = meas ([], 0) x + cnt e m x"
    using t rep0_init unfolding tracks_def by blast
  then show ?thesis by (simp add: meas_init)
qed

lemma cnt_le_safe:
  assumes "countsOK e" "1 \<le> m" "small (recur e m ([], 0))"
  shows "cnt e m x \<le> MAX_SAFE_INTEGER"
proof -
  have "meas (recur e m ([], 0)) x = cnt e m x"
    using contrib_exact[OF assms(1,2)] assms(3) by blast
  moreover have "meas (recur e m ([], 0)) x \<le> MAX_SAFE_INTEGER"
    using assms(3) unfolding small_def by blast
  ultimately show ?thesis by simp
qed

lemma sum_list_member_le:
  "(\<And>y. y \<in> set ys \<Longrightarrow> (0::int) \<le> f y) \<Longrightarrow> y \<in> set ys \<Longrightarrow> f y \<le> sum_list (map f ys)"
proof (induction ys)
  case Nil
  then show ?case by simp
next
  case (Cons z zs)
  have nn: "0 \<le> sum_list (map f zs)" using Cons.prems(1) by (intro sum_list_nonneg) auto
  show ?case
  proof (cases "y = z")
    case True
    then show ?thesis using nn by simp
  next
    case False
    then have "f y \<le> sum_list (map f zs)" using Cons by simp
    moreover have "0 \<le> f z" using Cons.prems(1) by simp
    ultimately show ?thesis by simp
  qed
qed

lemma fold_good_ge:
  assumes g: "\<And>y. y \<in> set ys \<Longrightarrow> good (F y)" and y: "y \<in> set ys" and r: "rep0 acc"
  shows "leA (F y acc) (fold (\<lambda>f a. f a) (map F ys) acc)"
  using g y r
proof (induction ys arbitrary: acc)
  case Nil
  then show ?case by simp
next
  case (Cons z zs)
  have gz: "good (F z)" using Cons.prems(1) by simp
  have rz: "rep0 (F z acc)" and lz: "leA acc (F z acc)"
    using gz Cons.prems(3) unfolding good_def by blast+
  have gf: "good (fold (\<lambda>f a. f a) (map F zs))"
  proof (rule good_fold)
    fix f assume "f \<in> set (map F zs)"
    then show "good f" using Cons.prems(1) by auto
  qed
  show ?case
  proof (cases "y = z")
    case True
    have "leA (F z acc) (fold (\<lambda>f a. f a) (map F zs) (F z acc))"
      using gf rz unfolding good_def by blast
    then show ?thesis using True by simp
  next
    case False
    then have yz: "y \<in> set zs" using Cons.prems(2) by simp
    have gy: "good (F y)" using Cons.prems(1,2) by blast
    have "leA (F y acc) (F y (F z acc))"
      using gy Cons.prems(3) rz lz unfolding good_def by blast
    moreover have "leA (F y (F z acc)) (fold (\<lambda>f a. f a) (map F zs) (F z acc))"
      using Cons.IH[OF _ yz rz] Cons.prems(1) by simp
    ultimately have "leA (F y acc) (fold (\<lambda>f a. f a) (map F zs) (F z acc))"
      by (rule leA_trans)
    then show ?thesis by simp
  qed
qed


lemma node_scaled:
  assumes m: "1 \<le> m" and t: "0 \<le> t" and c: "countsOK body"
    and u: "m * factor t \<le> MAX_SAFE_INTEGER" "unsaturated body (m * factor t)"
    and s: "small (recur body (multiply m t) ([], 0))"
  shows "meas (recur body (multiply m t) ([], 0)) x = factor t * meas (recur body m ([], 0)) x"
proof -
  have f: "1 \<le> factor t" using t by (rule factor_ge1)
  have e: "multiply m t = m * factor t" using multiply_exact[OF m t u(1)] .
  have mf: "1 \<le> m * factor t" using m f by (rule mult_ge_one)
  have s': "small (recur body (m * factor t) ([], 0))" using s by (simp only: e)
  have a: "\<And>x. meas (recur body (m * factor t) ([], 0)) x = cnt body (m * factor t) x"
    using contrib_exact[OF c mf] s' by blast
  have sc: "\<And>x. cnt body (m * factor t) x = factor t * cnt body m x"
    using cnt_scaled[OF c m f u(2)] .
  have le: "\<forall>x. cnt body m x \<le> MAX_SAFE_INTEGER"
  proof
    fix x
    have "cnt body (m * factor t) x \<le> MAX_SAFE_INTEGER" using cnt_le_safe[OF c mf s'] .
    moreover have "0 \<le> cnt body m x" using cnt_nonneg[OF c m] .
    then have "1 * cnt body m x \<le> factor t * cnt body m x" using f by (intro mult_right_mono) simp_all
    ultimately show "cnt body m x \<le> MAX_SAFE_INTEGER" using sc[of x] by simp
  qed
  have b: "meas (recur body m ([], 0)) x = cnt body m x"
    using contrib_exact[OF c m] le by blast
  show ?thesis unfolding e using a[of x] sc[of x] b by simp
qed

lemma cond_ge:
  assumes m: "1 \<le> m" and c: "countsOK (Conditional cd th el)"
  shows "leA (recur th m ([], 0)) (recur (Conditional cd th el) m ([], 0))"
    and "el = Some e \<Longrightarrow> leA (recur e m ([], 0)) (recur (Conditional cd th el) m ([], 0))"
proof -
  have cth: "countsOK th" using c by (simp only: countsOK_Conditional)
  have gth: "good (recur th m)" using recur_fine[OF cth m] by (simp add: fine_def)
  have rA: "rep0 (recur th m ([], 0))" and lA: "leA ([], 0) (recur th m ([], 0))"
    using gth rep0_init unfolding good_def by blast+
  show "leA (recur th m ([], 0)) (recur (Conditional cd th el) m ([], 0))"
  proof (cases el)
    case None
    then show ?thesis by (simp add: recur_Conditional leA_refl)
  next
    case (Some e')
    have "countsOK e'" using c Some by (simp only: countsOK_Conditional)
    then have "good (recur e' m)" using recur_fine[OF _ m] by (simp add: fine_def)
    then have "leA (recur th m ([], 0)) (recur e' m (recur th m ([], 0)))"
      using rA unfolding good_def by blast
    then show ?thesis using Some by (simp add: recur_Conditional)
  qed
  assume e: "el = Some e"
  have "countsOK e" using c e by (simp only: countsOK_Conditional)
  then have "good (recur e m)" using recur_fine[OF _ m] by (simp add: fine_def)
  then have "leA (recur e m ([], 0)) (recur e m (recur th m ([], 0)))"
    using rep0_init rA lA unfolding good_def by blast
  then show "leA (recur e m ([], 0)) (recur (Conditional cd th el) m ([], 0))"
    using e by (simp add: recur_Conditional)
qed

lemma cond_sum:
  assumes m: "1 \<le> m" and c: "countsOK (Conditional cd th el)"
    and s: "small (recur (Conditional cd th el) m ([], 0))"
  shows "meas (recur (Conditional cd th el) m ([], 0)) x
           = meas (recur th m ([], 0)) x
             + (case el of None \<Rightarrow> 0 | Some e \<Rightarrow> meas (recur e m ([], 0)) x)"
proof -
  have cth: "countsOK th" and cel: "\<And>e. el = Some e \<Longrightarrow> countsOK e"
    using c by (simp_all only: countsOK_Conditional)
  have tot: "\<And>x. meas (recur (Conditional cd th el) m ([], 0)) x = cnt (Conditional cd th el) m x"
    using contrib_exact[OF c m] s by blast
  have le: "\<And>x. cnt (Conditional cd th el) m x \<le> MAX_SAFE_INTEGER"
    using cnt_le_safe[OF c m s] .
  have nth: "\<And>x. 0 \<le> cnt th m x" using cnt_nonneg[OF cth m] .
  show ?thesis
  proof (cases el)
    case None
    have "\<forall>x. cnt th m x \<le> MAX_SAFE_INTEGER" using le None by (simp add: cnt_Conditional)
    then have "meas (recur th m ([], 0)) x = cnt th m x" using contrib_exact[OF cth m] by blast
    then show ?thesis using tot[of x] None by (simp add: cnt_Conditional)
  next
    case (Some e)
    have ce: "countsOK e" using cel Some .
    have ne: "\<And>x. 0 \<le> cnt e m x" using cnt_nonneg[OF ce m] .
    have l2: "\<And>x. cnt th m x + cnt e m x \<le> MAX_SAFE_INTEGER"
      using le Some by (simp add: cnt_Conditional)
    have "\<forall>x. cnt th m x \<le> MAX_SAFE_INTEGER"
    proof
      fix x show "cnt th m x \<le> MAX_SAFE_INTEGER" using l2[of x] ne[of x] by linarith
    qed
    then have a: "meas (recur th m ([], 0)) x = cnt th m x" using contrib_exact[OF cth m] by blast
    have "\<forall>x. cnt e m x \<le> MAX_SAFE_INTEGER"
    proof
      fix x show "cnt e m x \<le> MAX_SAFE_INTEGER" using l2[of x] nth[of x] by linarith
    qed
    then have b: "meas (recur e m ([], 0)) x = cnt e m x" using contrib_exact[OF ce m] by blast
    show ?thesis using tot[of x] a b Some by (simp add: cnt_Conditional)
  qed
qed

lemma case_ge:
  assumes m: "1 \<le> m" and c: "countsOK (Case branches el)"
  shows "b \<in> set branches \<Longrightarrow> leA (recur (snd b) m ([], 0)) (recur (Case branches el) m ([], 0))"
    and "el = Some e \<Longrightarrow> leA (recur e m ([], 0)) (recur (Case branches el) m ([], 0))"
proof -
  let ?fold = "fold (\<lambda>f a. f a) (map (\<lambda>b. recur (snd b) m) branches)"
  have gb: "\<And>b. b \<in> set branches \<Longrightarrow> good (recur (snd b) m)"
  proof -
    fix b assume "b \<in> set branches"
    then have "countsOK (snd b)" using c by (simp only: countsOK_Case)
    then show "good (recur (snd b) m)" using recur_fine[OF _ m] by (simp add: fine_def)
  qed
  have gf: "good ?fold"
  proof (rule good_fold)
    fix f assume "f \<in> set (map (\<lambda>b. recur (snd b) m) branches)"
    then show "good f" using gb by auto
  qed
  have rF: "rep0 (?fold ([], 0))" and lF: "leA ([], 0) (?fold ([], 0))"
    using gf rep0_init unfolding good_def by blast+
  have tot: "leA (?fold ([], 0)) (recur (Case branches el) m ([], 0))"
  proof (cases el)
    case None
    then show ?thesis by (simp add: recur_Case leA_refl)
  next
    case (Some e')
    have "countsOK e'" using c Some by (simp only: countsOK_Case)
    then have "good (recur e' m)" using recur_fine[OF _ m] by (simp add: fine_def)
    then have "leA (?fold ([], 0)) (recur e' m (?fold ([], 0)))"
      using rF unfolding good_def by blast
    then show ?thesis using Some by (simp add: recur_Case)
  qed
  {
    assume b: "b \<in> set branches"
    have "leA (recur (snd b) m ([], 0)) (?fold ([], 0))"
      using fold_good_ge[of branches "\<lambda>b. recur (snd b) m" b "([], 0)"] gb b rep0_init by blast
    then show "leA (recur (snd b) m ([], 0)) (recur (Case branches el) m ([], 0))"
      using tot by (rule leA_trans)
  }
  assume e: "el = Some e"
  have "countsOK e" using c e by (simp only: countsOK_Case)
  then have "good (recur e m)" using recur_fine[OF _ m] by (simp add: fine_def)
  then have "leA (recur e m ([], 0)) (recur e m (?fold ([], 0)))"
    using rep0_init rF lF unfolding good_def by blast
  then show "leA (recur e m ([], 0)) (recur (Case branches el) m ([], 0))"
    using e by (simp add: recur_Case)
qed

lemma case_sum:
  assumes m: "1 \<le> m" and c: "countsOK (Case branches el)"
    and s: "small (recur (Case branches el) m ([], 0))"
  shows "meas (recur (Case branches el) m ([], 0)) x
           = sum_list (map (\<lambda>b. meas (recur (snd b) m ([], 0)) x) branches)
             + (case el of None \<Rightarrow> 0 | Some e \<Rightarrow> meas (recur e m ([], 0)) x)"
proof -
  have cb: "\<And>b. b \<in> set branches \<Longrightarrow> countsOK (snd b)" and cel: "\<And>e. el = Some e \<Longrightarrow> countsOK e"
    using c by (simp_all only: countsOK_Case)
  have tot: "\<And>x. meas (recur (Case branches el) m ([], 0)) x = cnt (Case branches el) m x"
    using contrib_exact[OF c m] s by blast
  have le: "\<And>x. cnt (Case branches el) m x \<le> MAX_SAFE_INTEGER"
    using cnt_le_safe[OF c m s] .
  have nb: "\<And>b x. b \<in> set branches \<Longrightarrow> 0 \<le> cnt (snd b) m x" using cnt_nonneg[OF cb m] .
  have ns: "\<And>x. 0 \<le> sum_list (map (\<lambda>b. cnt (snd b) m x) branches)"
    using nb by (intro sum_list_nonneg) auto
  have ne: "\<And>x. 0 \<le> (case el of None \<Rightarrow> 0 | Some e \<Rightarrow> cnt e m x)"
    using cnt_nonneg[OF cel m] by (simp split: option.splits)
  have l2: "\<And>x. sum_list (map (\<lambda>b. cnt (snd b) m x) branches)
                 + (case el of None \<Rightarrow> 0 | Some e \<Rightarrow> cnt e m x) \<le> MAX_SAFE_INTEGER"
    using le by (simp add: cnt_Case)
  have eb: "\<And>b. b \<in> set branches \<Longrightarrow> meas (recur (snd b) m ([], 0)) x = cnt (snd b) m x"
  proof -
    fix b assume b: "b \<in> set branches"
    have "\<forall>x. cnt (snd b) m x \<le> MAX_SAFE_INTEGER"
    proof
      fix x
      have "cnt (snd b) m x \<le> sum_list (map (\<lambda>b. cnt (snd b) m x) branches)"
        using sum_list_member_le[of branches "\<lambda>b. cnt (snd b) m x" b] nb b by blast
      then show "cnt (snd b) m x \<le> MAX_SAFE_INTEGER" using l2[of x] ne[of x] by linarith
    qed
    then show "meas (recur (snd b) m ([], 0)) x = cnt (snd b) m x"
      using contrib_exact[OF cb[OF b] m] by blast
  qed
  have sb: "sum_list (map (\<lambda>b. meas (recur (snd b) m ([], 0)) x) branches)
             = sum_list (map (\<lambda>b. cnt (snd b) m x) branches)"
    using eb by (intro arg_cong[of _ _ sum_list] map_cong) auto
  have se: "(case el of None \<Rightarrow> 0 | Some e \<Rightarrow> meas (recur e m ([], 0)) x)
             = (case el of None \<Rightarrow> 0 | Some e \<Rightarrow> cnt e m x)"
  proof (cases el)
    case None
    then show ?thesis by simp
  next
    case (Some e)
    have "\<forall>x. cnt e m x \<le> MAX_SAFE_INTEGER"
    proof
      fix x show "cnt e m x \<le> MAX_SAFE_INTEGER" using l2[of x] ns[of x] Some by simp
    qed
    then have "meas (recur e m ([], 0)) x = cnt e m x"
      using contrib_exact[OF cel[OF Some] m] by blast
    then show ?thesis using Some by simp
  qed
  show ?thesis using tot[of x] sb se by (simp add: cnt_Case)
qed


text \<open>
  C9 (amended).  The context multiplier \<open>m\<close> is at least 1 and the counts are integers.

  \<^item> \<open>multiply\<close> makes of a count \<open>t\<close> the factor \<open>factor t\<close>: 1 for the count 0, \<open>t\<close> itself
    otherwise.  A ForEach node whose capped count \<open>min maxTargets MAX_FOREACH_TARGETS\<close> is at
    least 0 returns what its body returns at the multiplier \<open>m * factor t\<close>, saturated at
    \<open>MAX_SAFE_INTEGER\<close>; a Repeat node likewise with \<open>min times MAX_REPEAT\<close>.
  \<^item> When moreover every count below the node is at least 0 (\<open>countsOK\<close>), no multiplier
    below it saturates (\<open>unsaturated\<close>) and the counts returned for the node are within
    \<open>MAX_SAFE_INTEGER\<close> (\<open>withinSafe\<close>, so that no sum was rounded), the node returns
    \<open>factor t\<close> times the spawns and the emissions of its body.
  \<^item> When every count below a Conditional or Case node is at least 0, the node returns at
    least what each of its branches returns; when moreover the counts returned for the node
    are within \<open>MAX_SAFE_INTEGER\<close>, it returns the sum of what its branches return.
\<close>

theorem effectMultiplicity_worst_case:
  assumes m: "1 \<le> m"
  shows
    "factor 0 = 1 \<and> (\<forall>t. t \<noteq> 0 \<longrightarrow> factor t = t) \<and>
     (0 \<le> min mt MAX_FOREACH_TARGETS \<longrightarrow>
        effectMultiplicity (ForEach among mt body) m
          = effectMultiplicity body
              (min MAX_SAFE_INTEGER (m * factor (min mt MAX_FOREACH_TARGETS)))) \<and>
     (0 \<le> min n MAX_REPEAT \<longrightarrow>
        effectMultiplicity (Repeat n body) m
          = effectMultiplicity body (min MAX_SAFE_INTEGER (m * factor (min n MAX_REPEAT)))) \<and>
     (countsOK (ForEach among mt body) \<and> unsaturated (ForEach among mt body) m \<and>
      withinSafe (ForEach among mt body) m \<longrightarrow>
        spawnsOf (ForEach among mt body) m
          = factor (min mt MAX_FOREACH_TARGETS) * spawnsOf body m \<and>
        (\<forall>k. emitsOf (ForEach among mt body) m k
               = factor (min mt MAX_FOREACH_TARGETS) * emitsOf body m k)) \<and>
     (countsOK (Repeat n body) \<and> unsaturated (Repeat n body) m \<and> withinSafe (Repeat n body) m \<longrightarrow>
        spawnsOf (Repeat n body) m = factor (min n MAX_REPEAT) * spawnsOf body m \<and>
        (\<forall>k. emitsOf (Repeat n body) m k = factor (min n MAX_REPEAT) * emitsOf body m k)) \<and>
     (countsOK (Conditional c th el) \<longrightarrow>
        spawnsOf th m \<le> spawnsOf (Conditional c th el) m \<and>
        (\<forall>k. emitsOf th m k \<le> emitsOf (Conditional c th el) m k) \<and>
        (\<forall>e. el = Some e \<longrightarrow>
           spawnsOf e m \<le> spawnsOf (Conditional c th el) m \<and>
           (\<forall>k. emitsOf e m k \<le> emitsOf (Conditional c th el) m k))) \<and>
     (countsOK (Conditional c th el) \<and> withinSafe (Conditional c th el) m \<longrightarrow>
        spawnsOf (Conditional c th el) m
          = spawnsOf th m + (case el of None \<Rightarrow> 0 | Some e \<Rightarrow> spawnsOf e m) \<and>
        (\<forall>k. emitsOf (Conditional c th el) m k
               = emitsOf th m k + (case el of None \<Rightarrow> 0 | Some e \<Rightarrow> emitsOf e m k))) \<and>
     (countsOK (Case branches el) \<longrightarrow>
        (\<forall>b\<in>set branches.
           spawnsOf (snd b) m \<le> spawnsOf (Case branches el) m \<and>
           (\<forall>k. emitsOf (snd b) m k \<le> emitsOf (Case branches el) m k)) \<and>
        (\<forall>e. el = Some e \<longrightarrow>
           spawnsOf e m \<le> spawnsOf (Case branches el) m \<and>
           (\<forall>k. emitsOf e m k \<le> emitsOf (Case branches el) m k))) \<and>
     (countsOK (Case branches el) \<and> withinSafe (Case branches el) m \<longrightarrow>
        spawnsOf (Case branches el) m
          = sum_list (map (\<lambda>b. spawnsOf (snd b) m) branches)
            + (case el of None \<Rightarrow> 0 | Some e \<Rightarrow> spawnsOf e m) \<and>
        (\<forall>k. emitsOf (Case branches el) m k
               = sum_list (map (\<lambda>b. emitsOf (snd b) m k) branches)
                 + (case el of None \<Rightarrow> 0 | Some e \<Rightarrow> emitsOf e m k)))"
proof (intro conjI impI)
  show "factor 0 = 1" by (simp add: factor_def orElse_def)
  show "\<forall>t. t \<noteq> 0 \<longrightarrow> factor t = t" by (simp add: factor_def orElse_def)
next
  assume t: "0 \<le> min mt MAX_FOREACH_TARGETS"
  show "effectMultiplicity (ForEach among mt body) m
          = effectMultiplicity body
              (min MAX_SAFE_INTEGER (m * factor (min mt MAX_FOREACH_TARGETS)))"
    unfolding effectMultiplicity_def recur_ForEach multiply_char[OF m t] ..
next
  assume t: "0 \<le> min n MAX_REPEAT"
  show "effectMultiplicity (Repeat n body) m
          = effectMultiplicity body (min MAX_SAFE_INTEGER (m * factor (min n MAX_REPEAT)))"
    unfolding effectMultiplicity_def recur_Repeat multiply_char[OF m t] ..
next
  assume h: "countsOK (ForEach among mt body) \<and> unsaturated (ForEach among mt body) m \<and>
      withinSafe (ForEach among mt body) m"
  define t where "t = min mt MAX_FOREACH_TARGETS"
  have t: "0 \<le> t" "countsOK body" using h by (simp_all add: t_def)
  have u: "m * factor t \<le> MAX_SAFE_INTEGER" "unsaturated body (m * factor t)"
    using h by (simp_all add: t_def Let_def)
  have s: "small (recur body (multiply m t) ([], 0))"
    using withinSafe_small[of "ForEach among mt body" m] h
    by (simp only: recur_ForEach t_def)
  note sc = node_scaled[OF m t u s]
  show "spawnsOf (ForEach among mt body) m
          = factor (min mt MAX_FOREACH_TARGETS) * spawnsOf body m"
    using sc[of None] by (simp only: contrib_meas recur_ForEach t_def)
  show "\<forall>k. emitsOf (ForEach among mt body) m k
               = factor (min mt MAX_FOREACH_TARGETS) * emitsOf body m k"
    using sc by (simp only: contrib_meas recur_ForEach t_def) blast
next
  assume h: "countsOK (Repeat n body) \<and> unsaturated (Repeat n body) m \<and> withinSafe (Repeat n body) m"
  define t where "t = min n MAX_REPEAT"
  have t: "0 \<le> t" "countsOK body" using h by (simp_all add: t_def)
  have u: "m * factor t \<le> MAX_SAFE_INTEGER" "unsaturated body (m * factor t)"
    using h by (simp_all add: t_def Let_def)
  have s: "small (recur body (multiply m t) ([], 0))"
    using withinSafe_small[of "Repeat n body" m] h
    by (simp only: recur_Repeat t_def)
  note sc = node_scaled[OF m t u s]
  show "spawnsOf (Repeat n body) m = factor (min n MAX_REPEAT) * spawnsOf body m"
    using sc[of None] by (simp only: contrib_meas recur_Repeat t_def)
  show "\<forall>k. emitsOf (Repeat n body) m k = factor (min n MAX_REPEAT) * emitsOf body m k"
    using sc by (simp only: contrib_meas recur_Repeat t_def) blast
next
  assume c: "countsOK (Conditional c th el)"
  note g = cond_ge[OF m c]
  show "spawnsOf th m \<le> spawnsOf (Conditional c th el) m"
    using g(1) unfolding leA_def contrib_meas by blast
  show "\<forall>k. emitsOf th m k \<le> emitsOf (Conditional c th el) m k"
    using g(1) unfolding leA_def contrib_meas by blast
  show "\<forall>e. el = Some e \<longrightarrow>
           spawnsOf e m \<le> spawnsOf (Conditional c th el) m \<and>
           (\<forall>k. emitsOf e m k \<le> emitsOf (Conditional c th el) m k)"
    using g(2) unfolding leA_def contrib_meas by blast
next
  assume h: "countsOK (Conditional c th el) \<and> withinSafe (Conditional c th el) m"
  have c: "countsOK (Conditional c th el)" using h by blast
  have s: "small (recur (Conditional c th el) m ([], 0))" using h withinSafe_small by blast
  note su = cond_sum[OF m c s]
  show "spawnsOf (Conditional c th el) m
          = spawnsOf th m + (case el of None \<Rightarrow> 0 | Some e \<Rightarrow> spawnsOf e m)"
    using su[of None] unfolding contrib_meas .
  show "\<forall>k. emitsOf (Conditional c th el) m k
               = emitsOf th m k + (case el of None \<Rightarrow> 0 | Some e \<Rightarrow> emitsOf e m k)"
    using su unfolding contrib_meas by blast
next
  assume c: "countsOK (Case branches el)"
  note g = case_ge[OF m c]
  show "\<forall>b\<in>set branches.
           spawnsOf (snd b) m \<le> spawnsOf (Case branches el) m \<and>
           (\<forall>k. emitsOf (snd b) m k \<le> emitsOf (Case branches el) m k)"
    using g(1) unfolding leA_def contrib_meas by blast
  show "\<forall>e. el = Some e \<longrightarrow>
           spawnsOf e m \<le> spawnsOf (Case branches el) m \<and>
           (\<forall>k. emitsOf e m k \<le> emitsOf (Case branches el) m k)"
    using g(2) unfolding leA_def contrib_meas by blast
next
  assume h: "countsOK (Case branches el) \<and> withinSafe (Case branches el) m"
  have c: "countsOK (Case branches el)" using h by blast
  have s: "small (recur (Case branches el) m ([], 0))" using h withinSafe_small by blast
  note su = case_sum[OF m c s]
  show "spawnsOf (Case branches el) m
          = sum_list (map (\<lambda>b. spawnsOf (snd b) m) branches)
            + (case el of None \<Rightarrow> 0 | Some e \<Rightarrow> spawnsOf e m)"
    using su[of None] unfolding contrib_meas .
  show "\<forall>k. emitsOf (Case branches el) m k
               = sum_list (map (\<lambda>b. emitsOf (snd b) m k) branches)
                 + (case el of None \<Rightarrow> 0 | Some e \<Rightarrow> emitsOf e m k)"
    using su unfolding contrib_meas by blast
qed



subsection \<open>Worked examples\<close>

lemma roundDouble_numerals:
  "roundDouble 0 = 0" "roundDouble 1 = 1" "roundDouble 2 = 2" "roundDouble 3 = 3"
  "roundDouble 9007199254740991 = 9007199254740991"
  by (simp_all add: roundDouble_small)

lemma multiply_examples:
  "multiply 1 (min 2 MAX_FOREACH_TARGETS) = 2" "multiply 1 (min 5 MAX_REPEAT) = 3"
  "multiply 1 (min 2 MAX_REPEAT) = 2" "multiply 1 (min 0 MAX_REPEAT) = 1"
  by (simp_all add: MAX_FOREACH_TARGETS_def MAX_REPEAT_def multiply_def orElse_def
      MAX_SAFE_INTEGER_def roundDouble_numerals)

lemma factor_examples:
  "factor (min 2 MAX_FOREACH_TARGETS) = 2" "factor (min 5 MAX_REPEAT) = 3"
  "factor (min 2 MAX_REPEAT) = 2" "factor (min 0 MAX_REPEAT) = 1"
  by (simp_all add: factor_def orElse_def MAX_FOREACH_TARGETS_def MAX_REPEAT_def)

lemma effectMultiplicity_examples:
  "effectMultiplicity (CreateToken SELF 1 1 None None) 1 = ([(OnTokenCreated, 1), (OnEnter, 1)], 1)"
  "effectMultiplicity (Draw SELF (VConst 1)) 1 = ([(OnDraw, 1)], 0)"
  "effectMultiplicity NoOp 1 = ([], 0)"
  "effectMultiplicity (ForEach \<lparr>sel_owner = None, sel_zone = None, sel_max = None, sel_filter = None\<rparr> 2 (CreateToken SELF 1 1 None None)) 1 = ([(OnTokenCreated, 2), (OnEnter, 2)], 2)"
  "effectMultiplicity (Repeat 5 (Draw SELF (VConst 1))) 1 = ([(OnDraw, 3)], 0)"
  "effectMultiplicity (Repeat 2 (CreateToken SELF 1 1 None None)) 1 = ([(OnTokenCreated, 2), (OnEnter, 2)], 2)"
  "effectMultiplicity (Conditional PTrue (CreateToken SELF 1 1 None None) (Some (Repeat 2 (CreateToken SELF 1 1 None None)))) 1 = ([(OnTokenCreated, 3), (OnEnter, 3)], 3)"
  "effectMultiplicity (Case [(PTrue, (CreateToken SELF 1 1 None None)), (PTrue, NoOp)] None) 1 = ([(OnTokenCreated, 1), (OnEnter, 1)], 1)"
  by (simp_all add: effectMultiplicity_def multiply_examples add_def orElse_def roundDouble_numerals)

lemma hypotheses_examples:
  "countsOK (ForEach \<lparr>sel_owner = None, sel_zone = None, sel_max = None, sel_filter = None\<rparr> 2 (CreateToken SELF 1 1 None None)) \<and> unsaturated (ForEach \<lparr>sel_owner = None, sel_zone = None, sel_max = None, sel_filter = None\<rparr> 2 (CreateToken SELF 1 1 None None)) 1 \<and>
     withinSafe (ForEach \<lparr>sel_owner = None, sel_zone = None, sel_max = None, sel_filter = None\<rparr> 2 (CreateToken SELF 1 1 None None)) 1"
  "countsOK (Repeat 5 (Draw SELF (VConst 1))) \<and> unsaturated (Repeat 5 (Draw SELF (VConst 1))) 1 \<and> withinSafe (Repeat 5 (Draw SELF (VConst 1))) 1"
  "countsOK (Repeat 2 (CreateToken SELF 1 1 None None)) \<and> unsaturated (Repeat 2 (CreateToken SELF 1 1 None None)) 1 \<and> withinSafe (Repeat 2 (CreateToken SELF 1 1 None None)) 1"
  "countsOK (Conditional PTrue (CreateToken SELF 1 1 None None) (Some (Repeat 2 (CreateToken SELF 1 1 None None)))) \<and> withinSafe (Conditional PTrue (CreateToken SELF 1 1 None None) (Some (Repeat 2 (CreateToken SELF 1 1 None None)))) 1"
  "countsOK (Case [(PTrue, (CreateToken SELF 1 1 None None)), (PTrue, NoOp)] None) \<and> withinSafe (Case [(PTrue, (CreateToken SELF 1 1 None None)), (PTrue, NoOp)] None) 1"
  by (simp_all add: withinSafe_def effectMultiplicity_examples factor_def orElse_def
      MAX_FOREACH_TARGETS_def MAX_REPEAT_def MAX_SAFE_INTEGER_def)

theorem effectMultiplicity_worst_case_witness:
  "(1::int) \<le> 1 \<and>
   (countsOK (ForEach \<lparr>sel_owner = None, sel_zone = None, sel_max = None, sel_filter = None\<rparr> 2 (CreateToken SELF 1 1 None None)) \<and> unsaturated (ForEach \<lparr>sel_owner = None, sel_zone = None, sel_max = None, sel_filter = None\<rparr> 2 (CreateToken SELF 1 1 None None)) 1 \<and>
      withinSafe (ForEach \<lparr>sel_owner = None, sel_zone = None, sel_max = None, sel_filter = None\<rparr> 2 (CreateToken SELF 1 1 None None)) 1) \<and>
   spawnsOf (ForEach \<lparr>sel_owner = None, sel_zone = None, sel_max = None, sel_filter = None\<rparr> 2 (CreateToken SELF 1 1 None None)) 1 = 2 * spawnsOf (CreateToken SELF 1 1 None None) 1 \<and>
   (countsOK (Repeat 5 (Draw SELF (VConst 1))) \<and> unsaturated (Repeat 5 (Draw SELF (VConst 1))) 1 \<and> withinSafe (Repeat 5 (Draw SELF (VConst 1))) 1) \<and>
   emitsOf (Repeat 5 (Draw SELF (VConst 1))) 1 OnDraw = 3 * emitsOf (Draw SELF (VConst 1)) 1 OnDraw \<and>
   0 \<le> min 0 MAX_REPEAT \<and>
   effectMultiplicity (Repeat 0 (CreateToken SELF 1 1 None None)) 1 = effectMultiplicity (CreateToken SELF 1 1 None None) 1 \<and>
   (countsOK (Conditional PTrue (CreateToken SELF 1 1 None None) (Some (Repeat 2 (CreateToken SELF 1 1 None None)))) \<and> withinSafe (Conditional PTrue (CreateToken SELF 1 1 None None) (Some (Repeat 2 (CreateToken SELF 1 1 None None)))) 1) \<and>
   spawnsOf (Repeat 2 (CreateToken SELF 1 1 None None)) 1 \<le> spawnsOf (Conditional PTrue (CreateToken SELF 1 1 None None) (Some (Repeat 2 (CreateToken SELF 1 1 None None)))) 1 \<and>
   spawnsOf (Conditional PTrue (CreateToken SELF 1 1 None None) (Some (Repeat 2 (CreateToken SELF 1 1 None None)))) 1 = spawnsOf (CreateToken SELF 1 1 None None) 1 + spawnsOf (Repeat 2 (CreateToken SELF 1 1 None None)) 1 \<and>
   (countsOK (Case [(PTrue, (CreateToken SELF 1 1 None None)), (PTrue, NoOp)] None) \<and> withinSafe (Case [(PTrue, (CreateToken SELF 1 1 None None)), (PTrue, NoOp)] None) 1) \<and>
   (PTrue, (CreateToken SELF 1 1 None None)) \<in> set [(PTrue, (CreateToken SELF 1 1 None None)), (PTrue, NoOp)] \<and>
   spawnsOf (CreateToken SELF 1 1 None None) 1 \<le> spawnsOf (Case [(PTrue, (CreateToken SELF 1 1 None None)), (PTrue, NoOp)] None) 1 \<and>
   spawnsOf (Case [(PTrue, (CreateToken SELF 1 1 None None)), (PTrue, NoOp)] None) 1 = spawnsOf (CreateToken SELF 1 1 None None) 1 + spawnsOf NoOp 1 \<and>
   (1::int) \<le> MAX_SAFE_INTEGER \<and> 0 \<le> min 2 MAX_REPEAT \<and>
   effectMultiplicity (Repeat 2 (CreateToken SELF 1 1 None None)) MAX_SAFE_INTEGER = effectMultiplicity (CreateToken SELF 1 1 None None) MAX_SAFE_INTEGER"
proof -
  have m: "(1::int) \<le> 1" by simp
  note x = hypotheses_examples
  have x5: "0 \<le> min 0 MAX_REPEAT" "0 \<le> min 2 MAX_REPEAT" "(1::int) \<le> MAX_SAFE_INTEGER"
    by (simp_all add: MAX_REPEAT_def MAX_SAFE_INTEGER_def)
  have f': "min MAX_SAFE_INTEGER (MAX_SAFE_INTEGER * 2) = MAX_SAFE_INTEGER"
    "min MAX_SAFE_INTEGER (1 * 1) = 1"
    by (simp_all add: MAX_SAFE_INTEGER_def)
  note f = factor_examples
  note thm1 = effectMultiplicity_worst_case[OF m, of 2 "\<lparr>sel_owner = None, sel_zone = None, sel_max = None, sel_filter = None\<rparr>" "(CreateToken SELF 1 1 None None)" 0 PTrue "(CreateToken SELF 1 1 None None)" "Some (Repeat 2 (CreateToken SELF 1 1 None None))"
         "[(PTrue, (CreateToken SELF 1 1 None None)), (PTrue, NoOp)]"]
  note thm2 = effectMultiplicity_worst_case[OF m, of 2 "\<lparr>sel_owner = None, sel_zone = None, sel_max = None, sel_filter = None\<rparr>" "(Draw SELF (VConst 1))" 5 PTrue "(CreateToken SELF 1 1 None None)" "None"
         "[(PTrue, (CreateToken SELF 1 1 None None)), (PTrue, NoOp)]"]
  note thm4 = effectMultiplicity_worst_case[OF x5(3), of 2 "\<lparr>sel_owner = None, sel_zone = None, sel_max = None, sel_filter = None\<rparr>" "(CreateToken SELF 1 1 None None)" 2 PTrue "(CreateToken SELF 1 1 None None)" "None"
         "[(PTrue, (CreateToken SELF 1 1 None None)), (PTrue, NoOp)]"]
  note rest = conjunct2[OF conjunct2]
  note feS = conjunct1[OF conjunct2[OF conjunct2[OF rest]]]
  note rpD = conjunct1[OF conjunct2[OF rest]]
  note rpS = conjunct1[OF conjunct2[OF conjunct2[OF conjunct2[OF rest]]]]
  note tl6 = conjunct2[OF conjunct2[OF conjunct2[OF conjunct2[OF rest]]]]
  note cdB = conjunct1[OF tl6]
  note cdS = conjunct1[OF conjunct2[OF tl6]]
  note csB = conjunct1[OF conjunct2[OF conjunct2[OF tl6]]]
  note csS = conjunct2[OF conjunct2[OF conjunct2[OF tl6]]]
  have a: "spawnsOf (ForEach \<lparr>sel_owner = None, sel_zone = None, sel_max = None, sel_filter = None\<rparr> 2 (CreateToken SELF 1 1 None None)) 1 = 2 * spawnsOf (CreateToken SELF 1 1 None None) 1"
    using conjunct1[OF mp[OF feS[OF thm1] x(1)]] by (simp only: f)
  have b: "emitsOf (Repeat 5 (Draw SELF (VConst 1))) 1 OnDraw = 3 * emitsOf (Draw SELF (VConst 1)) 1 OnDraw"
    using spec[OF conjunct2[OF mp[OF rpS[OF thm2] x(2)]], of OnDraw] by (simp only: f)
  have z: "effectMultiplicity (Repeat 0 (CreateToken SELF 1 1 None None)) 1 = effectMultiplicity (CreateToken SELF 1 1 None None) 1"
    using mp[OF rpD[OF thm1] x5(1)] by (simp only: f f')
  have c: "spawnsOf (Repeat 2 (CreateToken SELF 1 1 None None)) 1 \<le> spawnsOf (Conditional PTrue (CreateToken SELF 1 1 None None) (Some (Repeat 2 (CreateToken SELF 1 1 None None)))) 1"
    using conjunct1[OF mp[OF spec[OF conjunct2[OF conjunct2[OF mp[OF cdB[OF thm1] conjunct1[OF x(4)]]]],
        of "Repeat 2 (CreateToken SELF 1 1 None None)"] refl]] .
  have c': "spawnsOf (Conditional PTrue (CreateToken SELF 1 1 None None) (Some (Repeat 2 (CreateToken SELF 1 1 None None)))) 1 = spawnsOf (CreateToken SELF 1 1 None None) 1 + spawnsOf (Repeat 2 (CreateToken SELF 1 1 None None)) 1"
    using conjunct1[OF mp[OF cdS[OF thm1] x(4)]] by (simp only: option.case)
  have mem: "(PTrue, (CreateToken SELF 1 1 None None)) \<in> set [(PTrue, (CreateToken SELF 1 1 None None)), (PTrue, NoOp)]" by simp
  have d: "spawnsOf (CreateToken SELF 1 1 None None) 1 \<le> spawnsOf (Case [(PTrue, (CreateToken SELF 1 1 None None)), (PTrue, NoOp)] None) 1"
    using conjunct1[OF bspec[OF conjunct1[OF mp[OF csB[OF thm2] conjunct1[OF x(5)]]] mem]]
    by (simp only: snd_conv)
  have d': "spawnsOf (Case [(PTrue, (CreateToken SELF 1 1 None None)), (PTrue, NoOp)] None) 1 = spawnsOf (CreateToken SELF 1 1 None None) 1 + spawnsOf NoOp 1"
    using conjunct1[OF mp[OF csS[OF thm2] x(5)]] by simp
  have e: "effectMultiplicity (Repeat 2 (CreateToken SELF 1 1 None None)) MAX_SAFE_INTEGER = effectMultiplicity (CreateToken SELF 1 1 None None) MAX_SAFE_INTEGER"
    using mp[OF rpD[OF thm4] x5(2)] by (simp only: f f')
  show ?thesis
    apply (rule conjI[OF m])
    apply (rule conjI[OF x(1)])
    apply (rule conjI[OF a])
    apply (rule conjI[OF x(2)])
    apply (rule conjI[OF b])
    apply (rule conjI[OF x5(1)])
    apply (rule conjI[OF z])
    apply (rule conjI[OF x(4)])
    apply (rule conjI[OF c])
    apply (rule conjI[OF c'])
    apply (rule conjI[OF x(5)])
    apply (rule conjI[OF mem])
    apply (rule conjI[OF d])
    apply (rule conjI[OF d'])
    apply (rule conjI[OF x5(3)])
    apply (rule conjI[OF x5(2)])
    apply (rule e)
    done
qed

text \<open>
  C9 as stated fails: a Repeat declared with \<open>times = 0\<close> multiplies the body's contribution
  by 1 (the \<open>b || 1\<close> of \<open>multiply\<close>), not by \<open>min 0 MAX_REPEAT = 0\<close>.
\<close>

theorem effectMultiplicity_counterexample:
  "spawnsOf (Repeat 0 (CreateToken SELF 1 1 None None)) 1 = 1 \<and>
   min 0 MAX_REPEAT * spawnsOf (CreateToken SELF 1 1 None None) 1 = 0 \<and>
   spawnsOf (Repeat 0 (CreateToken SELF 1 1 None None)) 1
     \<noteq> min 0 MAX_REPEAT * spawnsOf (CreateToken SELF 1 1 None None) 1"
  by (simp add: spawnsOf_def effectMultiplicity_def multiply_def orElse_def roundDouble_numerals
      MAX_REPEAT_def MAX_SAFE_INTEGER_def)

text \<open>
  Beyond \<open>MAX_SAFE_INTEGER\<close> the sums are rounded, and a node no longer returns a multiple of
  what its body returns.  Here no multiplier saturates; the body spawns 9007199254740990
  at the multiplier 3002399751580330, and the Repeat 3 node spawns 27021597764222968, which
  is not three times as many.
\<close>

lemma effectMultiplicity_rounds:
  "unsaturated (Repeat 3 (Sequence [(CreateToken SELF 1 1 None None), (CreateToken SELF 1 1 None None), (CreateToken SELF 1 1 None None)])) 3002399751580330 \<and>
   spawnsOf (Sequence [(CreateToken SELF 1 1 None None), (CreateToken SELF 1 1 None None), (CreateToken SELF 1 1 None None)]) 3002399751580330 = 9007199254740990 \<and>
   spawnsOf (Repeat 3 (Sequence [(CreateToken SELF 1 1 None None), (CreateToken SELF 1 1 None None), (CreateToken SELF 1 1 None None)])) 3002399751580330 = 27021597764222968 \<and>
   (27021597764222968 :: int) \<noteq> 3 * 9007199254740990 \<and>
   \<not> withinSafe (Repeat 3 (Sequence [(CreateToken SELF 1 1 None None), (CreateToken SELF 1 1 None None), (CreateToken SELF 1 1 None None)])) 3002399751580330"
  by code_simp

section \<open>Basic facts about the state primitives\<close>

lemma pushLog_fields [simp]:
  "rules (pushLog s m) = rules s" "players (pushLog s m) = players s"
  "cards (pushLog s m) = cards s" "turn_number (pushLog s m) = turn_number s"
  "turn_active (pushLog s m) = turn_active s" "turn_phase (pushLog s m) = turn_phase s"
  "stack (pushLog s m) = stack s" "winner (pushLog s m) = winner s"
  "preventEOT (pushLog s m) = preventEOT s" "preventPERM (pushLog s m) = preventPERM s"
  "controlRevertEOT (pushLog s m) = controlRevertEOT s"
  "eventsTurn (pushLog s m) = eventsTurn s" "eventsGame (pushLog s m) = eventsGame s"
  "triggerUseTurn (pushLog s m) = triggerUseTurn s" "triggerUseGame (pushLog s m) = triggerUseGame s"
  "replUseTurn (pushLog s m) = replUseTurn s" "replUseGame (pushLog s m) = replUseGame s"
  "nextId (pushLog s m) = nextId s" "log (pushLog s m) = log s @ [m]"
  by (simp_all add: pushLog_def)

lemma updCard_fields [simp]:
  "rules (updCard i f s) = rules s" "players (updCard i f s) = players s"
  "turn_number (updCard i f s) = turn_number s"
  "turn_active (updCard i f s) = turn_active s" "turn_phase (updCard i f s) = turn_phase s"
  "stack (updCard i f s) = stack s" "winner (updCard i f s) = winner s"
  "preventEOT (updCard i f s) = preventEOT s" "preventPERM (updCard i f s) = preventPERM s"
  "controlRevertEOT (updCard i f s) = controlRevertEOT s"
  "eventsTurn (updCard i f s) = eventsTurn s" "eventsGame (updCard i f s) = eventsGame s"
  "triggerUseTurn (updCard i f s) = triggerUseTurn s" "triggerUseGame (updCard i f s) = triggerUseGame s"
  "replUseTurn (updCard i f s) = replUseTurn s" "replUseGame (updCard i f s) = replUseGame s"
  "nextId (updCard i f s) = nextId s" "log (updCard i f s) = log s"
  by (simp_all add: updCard_def split: option.splits)

lemma setPlayer_fields [simp]:
  "rules (setPlayer pid p s) = rules s" "cards (setPlayer pid p s) = cards s"
  "turn_number (setPlayer pid p s) = turn_number s"
  "turn_active (setPlayer pid p s) = turn_active s" "turn_phase (setPlayer pid p s) = turn_phase s"
  "stack (setPlayer pid p s) = stack s" "winner (setPlayer pid p s) = winner s"
  "preventEOT (setPlayer pid p s) = preventEOT s" "preventPERM (setPlayer pid p s) = preventPERM s"
  "controlRevertEOT (setPlayer pid p s) = controlRevertEOT s"
  "eventsTurn (setPlayer pid p s) = eventsTurn s" "eventsGame (setPlayer pid p s) = eventsGame s"
  "triggerUseTurn (setPlayer pid p s) = triggerUseTurn s" "triggerUseGame (setPlayer pid p s) = triggerUseGame s"
  "replUseTurn (setPlayer pid p s) = replUseTurn s" "replUseGame (setPlayer pid p s) = replUseGame s"
  "nextId (setPlayer pid p s) = nextId s" "log (setPlayer pid p s) = log s"
  by (simp_all add: setPlayer_def split: PlayerIndex.splits)

lemma player_setPlayer [simp]:
  "player (setPlayer pid p s) q = (if q = pid then p else player s q)"
  by (cases pid; cases q) (simp_all add: player_def setPlayer_def)

lemma player_cong_fields [simp]:
  "player (pushLog s m) q = player s q" "player (updCard i f s) q = player s q"
  by (cases q; simp add: player_def)+

lemma getCard_simps [simp]:
  "getCard (pushLog s m) j = getCard s j" "getCard (setPlayer pid p s) j = getCard s j"
  by (simp_all add: getCard_def)

lemma getCard_updCard [simp]:
  "getCard (updCard i f s) j = (if j = i then map_option f (getCard s i) else getCard s j)"
  by (auto simp: getCard_def updCard_def update_conv' split: option.splits)



section \<open>Prevention absorbs the damage (C3)\<close>







end
